(* ===== verification/Go_Prelude.thy ===== *)
theory Go_Prelude
  imports Main "HOL-Library.Word"
begin

text \<open>
  The vocabulary every component theory shares: Go's machine integers, the outcomes of a Go
  call (return, panic, no return), error chains, the counting \<open>for\<close> loops over \<open>uint64\<close>
  (with their wrap-around), and the decimal printing and parsing of \<open>strconv\<close>.
  The collection \<open>go_simps\<close> unfolds the outcome combinators; the loop lemmas turn a
  counting loop into a fold over the list of the numbers it visits.
\<close>

named_theorems go_simps

type_synonym u64 = "64 word"
type_synonym u8 = "8 word"

section \<open>Outcomes of a call\<close>

text \<open>A Go call returns a value, panics (the argument is the panic message), or never returns.\<close>

datatype 'a go = Ret 'a | Panic string | Hang

definition go_bind :: "'a go \<Rightarrow> ('a \<Rightarrow> 'b go) \<Rightarrow> 'b go" where
  "go_bind m f = (case m of Ret x \<Rightarrow> f x | Panic s \<Rightarrow> Panic s | Hang \<Rightarrow> Hang)"

text \<open>A loop that yields no value because it never ends is \<open>Hang\<close>.\<close>

definition go_loop :: "'a option \<Rightarrow> 'a go" where
  "go_loop r = (case r of None \<Rightarrow> Hang | Some x \<Rightarrow> Ret x)"

lemma go_bind_simps [simp, go_simps]:
  "go_bind (Ret x) f = f x"
  "go_bind (Panic s) f = Panic s"
  "go_bind Hang f = Hang"
  by (simp_all add: go_bind_def)

lemma go_loop_simps [simp, go_simps]:
  "go_loop None = Hang"
  "go_loop (Some x) = Ret x"
  by (simp_all add: go_loop_def)

lemma go_bind_Ret_iff: "go_bind m f = Ret y \<longleftrightarrow> (\<exists>x. m = Ret x \<and> f x = Ret y)"
  by (cases m) auto

lemma go_loop_Ret_iff: "go_loop r = Ret y \<longleftrightarrow> r = Some y"
  by (cases r) auto

definition returns :: "'a go \<Rightarrow> bool" where
  "returns m \<longleftrightarrow> (\<exists>x. m = Ret x)"

lemma returns_Ret [simp]: "returns (Ret x)"
  by (simp add: returns_def)

lemma returns_bind [intro]: "returns m \<Longrightarrow> (\<And>x. m = Ret x \<Longrightarrow> returns (f x)) \<Longrightarrow> returns (go_bind m f)"
  by (auto simp: returns_def)

lemma returns_loop_Some [simp]: "returns (go_loop (Some x))"
  by (simp add: returns_def)

text \<open>The pattern of \<open>x, err := f(); if err != nil { return ... }\<close>.\<close>

lemma go_bind_checkE:
  assumes "go_bind M (\<lambda>((x, e), s). if e \<noteq> None then Ret (f x e s) else G x s) = Ret y"
  obtains (err) x e s where "M = Ret ((x, Some e), s)" "y = f x (Some e) s"
    | (ok) x s where "M = Ret ((x, None), s)" "G x s = Ret y"
proof -
  from assms obtain x e s where M: "M = Ret ((x, e), s)" by (auto simp: go_bind_Ret_iff)
  show thesis using assms err ok by (cases e) (simp_all add: M)
qed

lemma go_bind_assoc: "go_bind (go_bind m f) g = go_bind m (\<lambda>x. go_bind (f x) g)"
  by (cases m) auto

text \<open>
  Two outcomes are related by \<open>rel_go R\<close> when both return and their values are related, or both
  panic with the same message, or neither returns. Refinement proofs go through a program by the
  first rule, and past a call both sides make by the second.
\<close>

lemma rel_go_bind:
  assumes "rel_go R m n" "\<And>x y. R x y \<Longrightarrow> rel_go Q (f x) (g y)"
  shows "rel_go Q (go_bind m f) (go_bind n g)"
  using assms by (cases m; cases n) auto

lemma rel_go_same:
  assumes "\<And>x. rel_go Q (f x) (g x)"
  shows "rel_go Q (go_bind m f) (go_bind m g)"
  using assms by (cases m) auto

lemma rel_go_if:
  "(P \<Longrightarrow> rel_go R a c) \<Longrightarrow> (\<not> P \<Longrightarrow> rel_go R b d) \<Longrightarrow> rel_go R (if P then a else b) (if P then c else d)"
  by simp

text \<open>Several existential quantifiers, instantiated at once.\<close>

lemma ex3I: "P a b c \<Longrightarrow> \<exists>x y z. P x y z"
  by blast

section \<open>Error values\<close>

text \<open>
  An error is a chain: a sentinel made with \<open>errors.New\<close>, wrapped any number of times with
  \<open>errors.Wrap\<close>. A wrapping message is the format string of the call; the formatted arguments
  are not kept, since the program never reads a message. The nil error is \<open>None\<close>.
\<close>

datatype go_error = ErrNew string | ErrWrap go_error string

type_synonym err = "go_error option"

fun errors_Is :: "go_error \<Rightarrow> go_error \<Rightarrow> bool" where
  "errors_Is (ErrNew s) t \<longleftrightarrow> ErrNew s = t"
| "errors_Is (ErrWrap e s) t \<longleftrightarrow> ErrWrap e s = t \<or> errors_Is e t"

text \<open>\<open>errors.Wrap(nil, msg)\<close> is nil.\<close>

definition errors_Wrap :: "err \<Rightarrow> string \<Rightarrow> err" where
  "errors_Wrap e s = map_option (\<lambda>x. ErrWrap x s) e"

definition err_Is :: "err \<Rightarrow> go_error \<Rightarrow> bool" where
  "err_Is e t = (case e of None \<Rightarrow> False | Some x \<Rightarrow> errors_Is x t)"

lemma errors_Is_refl [simp]: "errors_Is e e"
  by (cases e) auto

lemma errors_Is_trans: "errors_Is a b \<Longrightarrow> errors_Is b c \<Longrightarrow> errors_Is a c"
  by (induction a) auto

lemma err_Is_simps [simp]: "\<not> err_Is None t" "err_Is (Some e) t \<longleftrightarrow> errors_Is e t"
  by (simp_all add: err_Is_def)

lemma errors_Wrap_simps [simp]:
  "errors_Wrap None s = None" "errors_Wrap (Some e) s = Some (ErrWrap e s)"
  by (simp_all add: errors_Wrap_def)

lemma errors_Wrap_None [simp]: "errors_Wrap e s = None \<longleftrightarrow> e = None" "None = errors_Wrap e s \<longleftrightarrow> e = None"
  by (cases e; simp)+

lemma errors_Wrap_Is: "err_Is e t \<Longrightarrow> err_Is (errors_Wrap e s) t"
  by (cases e) auto

section \<open>Counting loops over uint64\<close>

text \<open>
  \<open>for n := from; n <= to; n++ { body }\<close>. The body either leaves the surrounding function
  (\<open>Inl\<close> of what it returns) or goes on with a new state. The counter wraps, so a loop whose
  bound is the largest \<open>uint64\<close> never ends unless the body leaves it: that is \<open>None\<close>.
\<close>

partial_function (option) for_up ::
    "(u64 \<Rightarrow> 's \<Rightarrow> 'r + 's) \<Rightarrow> u64 \<Rightarrow> u64 \<Rightarrow> 's \<Rightarrow> ('r + 's) option" where
  "for_up body n to s =
     (if n \<le> to
      then (case body n s of Inl r \<Rightarrow> Some (Inl r) | Inr s' \<Rightarrow> for_up body (n + 1) to s')
      else Some (Inr s))"

text \<open>\<open>for n := from; n >= to; n-- { body }\<close>.\<close>

partial_function (option) for_down ::
    "(u64 \<Rightarrow> 's \<Rightarrow> 'r + 's) \<Rightarrow> u64 \<Rightarrow> u64 \<Rightarrow> 's \<Rightarrow> ('r + 's) option" where
  "for_down body n to s =
     (if to \<le> n
      then (case body n s of Inl r \<Rightarrow> Some (Inl r) | Inr s' \<Rightarrow> for_down body (n - 1) to s')
      else Some (Inr s))"

declare for_up.simps [code] for_down.simps [code]

text \<open>The fold a \<open>for ... range\<close> loop over a list performs, with the same early exit.\<close>

fun for_each :: "('a \<Rightarrow> 's \<Rightarrow> 'r + 's) \<Rightarrow> 'a list \<Rightarrow> 's \<Rightarrow> 'r + 's" where
  "for_each body [] s = Inr s"
| "for_each body (x # xs) s =
     (case body x s of Inl r \<Rightarrow> Inl r | Inr s' \<Rightarrow> for_each body xs s')"

definition u64_range :: "u64 \<Rightarrow> u64 \<Rightarrow> u64 list" where
  "u64_range a b = map of_nat [unat a..<Suc (unat b)]"

lemma for_each_append:
  "for_each f (xs @ ys) s = (case for_each f xs s of Inl r \<Rightarrow> Inl r | Inr s' \<Rightarrow> for_each f ys s')"
  by (induction xs arbitrary: s) (auto split: sum.splits)

lemma for_each_cong [fundef_cong]:
  "xs = ys \<Longrightarrow> s = t \<Longrightarrow> (\<And>x u. x \<in> set ys \<Longrightarrow> f x u = g x u) \<Longrightarrow> for_each f xs s = for_each g ys t"
  by (induction xs arbitrary: ys s t) (auto split: sum.splits)

lemma for_each_pure: "for_each (\<lambda>x s. Inr (f x s)) xs s = Inr (fold f xs s)"
  by (induction xs arbitrary: s) auto

text \<open>The invariant rule for such loops: induction over the prefix already visited.\<close>

lemma for_each_invariant:
  assumes "for_each f xs s = Inr t" "P [] s"
    and "\<And>ys x zs u v. xs = ys @ x # zs \<Longrightarrow> P ys u \<Longrightarrow> f x u = Inr v \<Longrightarrow> P (ys @ [x]) v"
  shows "P xs t"
proof -
  have "\<And>ys zs u. xs = ys @ zs \<Longrightarrow> P ys u \<Longrightarrow> for_each f zs u = Inr t \<Longrightarrow> P xs t"
  proof -
    fix ys zs u
    show "xs = ys @ zs \<Longrightarrow> P ys u \<Longrightarrow> for_each f zs u = Inr t \<Longrightarrow> P xs t"
    proof (induction zs arbitrary: ys u)
      case Nil
      then show ?case by simp
    next
      case (Cons z zs)
      then obtain v where v: "f z u = Inr v" "for_each f zs v = Inr t"
        by (auto split: sum.splits)
      have "P (ys @ [z]) v" using assms(3) Cons.prems v by blast
      then show ?case using Cons.IH [of "ys @ [z]" v] Cons.prems v by simp
    qed
  qed
  then show ?thesis using assms(1,2) by fastforce
qed

lemma unat_less64: "unat (n :: u64) < 18446744073709551616"
proof -
  have "unat n < 2 ^ LENGTH(64)" by (rule unsigned_less)
  then show ?thesis by simp
qed

lemma unat_of_nat64: "k < 2 ^ 64 \<Longrightarrow> unat (of_nat k :: u64) = k"
  by (simp add: unat_of_nat take_bit_nat_eq_self)

lemma set_u64_range: "set (u64_range a b) = {n. a \<le> n \<and> n \<le> b}"
proof -
  have "(\<exists>k. unat a \<le> k \<and> k \<le> unat b \<and> n = (of_nat k :: u64)) \<longleftrightarrow> a \<le> n \<and> n \<le> b" for n
  proof
    assume "\<exists>k. unat a \<le> k \<and> k \<le> unat b \<and> n = (of_nat k :: u64)"
    then obtain k where k: "unat a \<le> k" "k \<le> unat b" "n = (of_nat k :: u64)" by blast
    have "k < 2 ^ 64" using k(2) unat_less64 [of b] by simp
    then have "unat n = k" using k(3) by (simp add: unat_of_nat take_bit_nat_eq_self)
    then show "a \<le> n \<and> n \<le> b" using k by (simp add: word_le_nat_alt)
  next
    assume "a \<le> n \<and> n \<le> b"
    then show "\<exists>k. unat a \<le> k \<and> k \<le> unat b \<and> n = (of_nat k :: u64)"
      by (intro exI [of _ "unat n"]) (simp add: word_le_nat_alt)
  qed
  moreover have "set (u64_range a b) = {n. \<exists>k. unat a \<le> k \<and> k \<le> unat b \<and> n = (of_nat k :: u64)}"
    unfolding u64_range_def set_map set_upt by (auto simp only: image_iff atLeastLessThan_iff less_Suc_eq_le)
  ultimately show ?thesis by auto
qed

lemma u64_range_empty: "b < a \<Longrightarrow> u64_range a b = []"
  by (simp add: u64_range_def word_less_nat_alt)

lemma unat_succ_below:
  fixes a b :: u64
  assumes "a \<le> b" "b \<noteq> - 1"
  shows "unat (a + 1) = Suc (unat a)"
proof -
  have "a \<noteq> - 1" using assms word_order.extremum [of b] by (metis word_order.extremum_uniqueI)
  then have "1 + a \<noteq> 0" by (metis add.commute eq_neg_iff_add_eq_0)
  then show ?thesis using unatSuc [of a] by (simp add: add.commute)
qed

lemma u64_range_Cons:
  assumes "a \<le> b" "b \<noteq> - 1"
  shows "u64_range a b = a # u64_range (a + 1) b"
proof -
  have "unat (a + 1) = Suc (unat a)" using assms by (rule unat_succ_below)
  moreover have "[unat a..<Suc (unat b)] = unat a # [Suc (unat a)..<Suc (unat b)]"
    using assms(1) by (intro upt_conv_Cons) (simp add: word_le_nat_alt)
  ultimately show ?thesis by (simp add: u64_range_def del: upt_Suc)
qed

lemma u64_range_snoc:
  assumes "a \<le> b" "0 < a"
  shows "u64_range a b = u64_range a (b - 1) @ [b]"
proof -
  have "0 < b" using assms by simp
  then have "unat b = Suc (unat (b - 1))"
    using unat_minus_one [of b] by (simp add: word_less_nat_alt word_neq_0_conv)
  then show ?thesis using assms by (simp add: u64_range_def word_le_nat_alt)
qed

lemma distinct_u64_range: "distinct (u64_range a b)"
proof -
  have "inj_on (of_nat :: nat \<Rightarrow> u64) {unat a..<Suc (unat b)}"
  proof (rule inj_on_inverseI [where g = unat])
    fix x assume "x \<in> {unat a..<Suc (unat b)}"
    then have "x < 2 ^ 64" using unat_less64 [of b] by auto
    then show "unat (of_nat x :: u64) = x" by (rule unat_of_nat64)
  qed
  then show ?thesis by (simp add: u64_range_def distinct_map del: upt_Suc)
qed

lemma sorted_u64_range: "sorted (u64_range a b)"
proof -
  have "sorted_wrt (\<lambda>x y. x \<le> y \<and> y \<le> unat b) [unat a..<Suc (unat b)]"
    by (rule sorted_wrt_mono_rel [OF _ sorted_wrt_upt]) auto
  then have "sorted_wrt (\<lambda>x y. (of_nat x :: u64) \<le> of_nat y) [unat a..<Suc (unat b)]"
  proof (rule sorted_wrt_mono_rel [rotated])
    fix x y assume "x \<le> y \<and> y \<le> unat b"
    then have "y < 2 ^ 64" "x < 2 ^ 64" using unat_less64 [of b] by auto
    then show "(of_nat x :: u64) \<le> of_nat y" using \<open>x \<le> y \<and> y \<le> unat b\<close>
      by (simp add: word_le_nat_alt unat_of_nat take_bit_nat_eq_self)
  qed
  then show ?thesis by (simp add: u64_range_def sorted_wrt_map)
qed

lemma for_up_range:
  assumes "b \<noteq> - 1"
  shows "for_up f a b s = Some (for_each f (u64_range a b) s)"
proof (induction "Suc (unat b) - unat a" arbitrary: a s)
  case 0
  then have "b < a" by (simp add: word_less_nat_alt)
  then have "\<not> a \<le> b" "u64_range a b = []" by (simp_all add: u64_range_empty)
  then show ?case by (simp add: for_up.simps [of f a])
next
  case (Suc k)
  then have ab: "a \<le> b" by (simp add: word_le_nat_alt)
  then have "unat (a + 1) = Suc (unat a)" using assms by (rule unat_succ_below)
  then have "k = Suc (unat b) - unat (a + 1)" using Suc.hyps(2) by simp
  then have IH: "for_up f (a + 1) b t = Some (for_each f (u64_range (a + 1) b) t)" for t
    by (rule Suc.hyps(1))
  show ?case using ab
    by (simp add: for_up.simps [of f a] u64_range_Cons [OF ab assms] IH split: sum.splits)
qed

lemma for_down_range:
  assumes "0 < a"
  shows "for_down f b a s = Some (for_each f (rev (u64_range a b)) s)"
proof (induction "Suc (unat b) - unat a" arbitrary: b s)
  case 0
  then have "b < a" by (simp add: word_less_nat_alt)
  then have "\<not> a \<le> b" "u64_range a b = []" by (simp_all add: u64_range_empty)
  then show ?case by (simp add: for_down.simps [of f b])
next
  case (Suc k)
  then have ab: "a \<le> b" by (simp add: word_le_nat_alt)
  then have "0 < b" using assms by simp
  then have "unat b = Suc (unat (b - 1))"
    using unat_minus_one [of b] by (simp add: word_less_nat_alt word_neq_0_conv)
  then have "k = Suc (unat (b - 1)) - unat a" using Suc.hyps(2) by simp
  then have IH: "for_down f (b - 1) a t = Some (for_each f (rev (u64_range a (b - 1))) t)" for t
    by (rule Suc.hyps(1))
  show ?case using ab
    by (simp add: for_down.simps [of f b] u64_range_snoc [OF ab assms] IH split: sum.splits)
qed

text \<open>A downward loop to zero whose body never leaves it does not end: the counter wraps.\<close>

lemma for_down_zero_hangs:
  assumes "\<And>n s. \<exists>s'. f n s = Inr s'"
  shows "for_down f b 0 s = None"
proof (rule ccontr)
  assume "for_down f b 0 s \<noteq> None"
  then obtain r where "for_down f b 0 s = Some r" by blast
  then have "(\<forall>n s. \<exists>s'. f n s = Inr s') \<longrightarrow> (0::u64) = 0 \<longrightarrow> False"
  proof (rule for_down.raw_induct
      [where P = "\<lambda>g n t u r. (\<forall>n s. \<exists>s'. g n s = Inr s') \<longrightarrow> t = 0 \<longrightarrow> False", rotated])
    fix loop :: "(u64 \<Rightarrow> 'a \<Rightarrow> 'b + 'a) \<Rightarrow> u64 \<Rightarrow> u64 \<Rightarrow> 'a \<Rightarrow> ('b + 'a) option"
      and g :: "u64 \<Rightarrow> 'a \<Rightarrow> 'b + 'a" and n t :: u64 and u and r
    assume IH: "\<And>g n t u r. loop g n t u = Some r \<Longrightarrow>
        (\<forall>n s. \<exists>s'. g n s = Inr s') \<longrightarrow> t = 0 \<longrightarrow> False"
      and eq: "(if t \<le> n then case g n u of Inl r \<Rightarrow> Some (Inl r) | Inr s' \<Rightarrow> loop g (n - 1) t s'
        else Some (Inr u)) = Some r"
    show "(\<forall>n s. \<exists>s'. g n s = Inr s') \<longrightarrow> t = 0 \<longrightarrow> False"
    proof (intro impI)
      assume g: "\<forall>n s. \<exists>s'. g n s = Inr s'" and t: "t = 0"
      then obtain s' where "g n u = Inr s'" by blast
      then have "loop g (n - 1) 0 s' = Some r" using eq t by simp
      then show False using IH [of g "n - 1" 0 s' r] g by blast
    qed
  qed
  then show False using assms by blast
qed

section \<open>Decimal numbers of strconv\<close>

definition digit_char :: "nat \<Rightarrow> char" where
  "digit_char d = char_of (48 + d)"

definition char_digit :: "char \<Rightarrow> nat option" where
  "char_digit c = (let v = of_char c :: nat in if 48 \<le> v \<and> v \<le> 57 then Some (v - 48) else None)"

fun dec_digits :: "nat \<Rightarrow> string" where
  "dec_digits n = (if n < 10 then [digit_char n] else dec_digits (n div 10) @ [digit_char (n mod 10)])"

declare dec_digits.simps [simp del]

text \<open>\<open>strconv.FormatUint(n, 10)\<close>, and \<open>fmt.Sprintf("%d", n)\<close> of an unsigned number.\<close>

definition FormatUint :: "u64 \<Rightarrow> string" where
  "FormatUint n = dec_digits (unat n)"

fun parse_dec :: "nat \<Rightarrow> string \<Rightarrow> nat option" where
  "parse_dec acc [] = Some acc"
| "parse_dec acc (c # cs) =
     (case char_digit c of None \<Rightarrow> None | Some d \<Rightarrow> parse_dec (10 * acc + d) cs)"

text \<open>\<open>strconv.ParseUint(s, 10, 64)\<close>: a syntax or a range error is \<open>None\<close>.\<close>

definition ParseUint :: "string \<Rightarrow> u64 option" where
  "ParseUint s =
     (if s = [] then None
      else case parse_dec 0 s of
             None \<Rightarrow> None
           | Some v \<Rightarrow> if v < 2 ^ 64 then Some (of_nat v) else None)"

lemma char_digit_digit_char: "d < 10 \<Longrightarrow> char_digit (digit_char d) = Some d"
  by (simp add: char_digit_def digit_char_def Let_def take_bit_nat_eq_self)

lemma parse_dec_append:
  "parse_dec a (xs @ ys) = (case parse_dec a xs of None \<Rightarrow> None | Some b \<Rightarrow> parse_dec b ys)"
  by (induction xs arbitrary: a) (auto split: option.splits)

lemma parse_dec_digits: "parse_dec 0 (dec_digits n) = Some n"
proof (induction n rule: dec_digits.induct)
  case (1 n)
  show ?case
  proof (cases "n < 10")
    case True
    then show ?thesis by (simp add: dec_digits.simps [of n] char_digit_digit_char)
  next
    case False
    then show ?thesis using 1
      by (simp add: dec_digits.simps [of n] parse_dec_append char_digit_digit_char)
  qed
qed

lemma dec_digits_nonempty: "dec_digits n \<noteq> []"
  by (subst dec_digits.simps) simp

lemma ParseUint_FormatUint [simp]: "ParseUint (FormatUint n) = Some n"
  using unat_less64 [of n] by (simp add: ParseUint_def FormatUint_def parse_dec_digits dec_digits_nonempty)

lemma FormatUint_inject [simp]: "FormatUint a = FormatUint b \<longleftrightarrow> a = b"
  by (metis ParseUint_FormatUint option.inject)

lemma FormatUint_nonempty [simp]: "FormatUint n \<noteq> []"
  by (simp add: FormatUint_def dec_digits_nonempty)

section \<open>Signed reading of a block number\<close>

text \<open>
  \<open>int64(n)\<close> and \<open>sortedset.SCORE(n)\<close> reinterpret the 64 bits as two's complement. Below
  \<open>2^63\<close> the value is the number itself; a number that an unsigned subtraction wrapped past
  zero reads as negative.
\<close>

lemma sint_small:
  assumes "unat n < 2 ^ 63"
  shows "sint (n :: u64) = int (unat n)"
proof -
  have "sint n = signed_take_bit 63 (int (unat n))"
    by (simp add: sint_uint)
  also have "\<dots> = int (unat n)"
    using assms by (intro signed_take_bit_int_eq_self) (auto simp del: of_nat_unat)
  finally show ?thesis .
qed

lemma sint_wrapped_sub:
  assumes "unat a < unat b" "unat b \<le> 2 ^ 63"
  shows "sint (a - b :: u64) = int (unat a) - int (unat b)"
proof -
  have "uint (a - b) = take_bit 64 (int (unat a) - int (unat b))"
    by (simp add: uint_word_ariths take_bit_eq_mod)
  then have "sint (a - b) = signed_take_bit 63 (int (unat a) - int (unat b))"
    by (simp add: sint_uint signed_take_bit_take_bit)
  also have "\<dots> = int (unat a) - int (unat b)"
    using assms by (intro signed_take_bit_int_eq_self) (auto simp del: of_nat_unat)
  finally show ?thesis .
qed

lemma unat_diff_le: "b \<le> a \<Longrightarrow> unat (a - b :: u64) = unat a - unat b"
  by (rule unat_sub)

lemma unat_add_small: "unat a + unat b < 2 ^ 64 \<Longrightarrow> unat (a + b :: u64) = unat a + unat b"
  by (simp add: unat_word_ariths)

lemma unat_Suc_small: "unat a + 1 < 2 ^ 64 \<Longrightarrow> unat (a + 1 :: u64) = unat a + 1"
  by (simp add: unat_word_ariths)

lemma length_u64_range:
  assumes "a \<le> b" "b \<noteq> - 1"
  shows "length (u64_range a b) = unat (b - a + 1)"
proof -
  have top: "b + 1 \<noteq> 0" using assms(2) by (metis add.commute add_eq_0_iff)
  then have "unat (b + 1) = unat b + 1" by (metis Suc_eq_plus1 add.commute unatSuc)
  then have "unat b + 1 < 2 ^ 64" using unat_less64 [of "b + 1"] by simp
  then have "unat (b - a + 1) = unat b - unat a + 1"
    using unat_Suc_small [of "b - a"] unat_diff_le [OF assms(1)] by simp
  then show ?thesis using assms(1) by (simp add: u64_range_def word_le_nat_alt)
qed

end
