(* ===== verification/Watcher_Lib.thy ===== *)
theory Watcher_Lib
  imports Go_Prelude
begin

text \<open>
  The functions of third-party packages the program calls, gathered in a record that every
  definition using them takes as an argument, and the locale \<open>lib_spec\<close> of what their
  documentation promises: \<open>gsl\<close> (minimum, maximum, membership, filtering, lower-case printing),
  \<open>go-ethereum\<close> (hashes and their hexadecimal form), \<open>gsl/concurrent\<close> (error collection) and
  the seeded generator of \<open>math/rand\<close>. The last section gives a concrete library.
\<close>

section \<open>Ethereum data\<close>

type_synonym hash = "256 word"
type_synonym address = "160 word"

text \<open>The fields of \<open>types.Log\<close> that the program reads.\<close>

record eth_log =
  log_Address :: address
  log_Topics :: "hash list"
  log_Data :: "8 word list"
  log_BlockNumber :: u64
  log_TxHash :: hash
  log_BlockHash :: hash

section \<open>The library functions\<close>

record lib =
  gsl_Min :: "u64 \<Rightarrow> u64 \<Rightarrow> u64"
  gsl_Max :: "u8 \<Rightarrow> u8 \<Rightarrow> u8"
  gsl_Contains_u64 :: "u64 list \<Rightarrow> u64 \<Rightarrow> bool"
  gsl_Contains_hash :: "hash list \<Rightarrow> hash \<Rightarrow> bool"
  gsl_Contains_address :: "address list \<Rightarrow> address \<Rightarrow> bool"
  gsl_FilterSlice :: "(eth_log \<Rightarrow> bool) \<Rightarrow> eth_log list \<Rightarrow> eth_log list"
  gsl_StringerToLowerString :: "hash \<Rightarrow> string"
  HexToHash :: "string \<Rightarrow> hash"
  BigToHash :: "int \<Rightarrow> hash"
  EncodeBig :: "int \<Rightarrow> string"
  DecodeBig :: "string \<Rightarrow> int option"
  WaitAndCollectErrors :: "go_error list \<Rightarrow> err"
  rand_Int63 :: "int \<Rightarrow> u64"

locale lib_spec =
  fixes L :: lib
  assumes Min: "gsl_Min L a b = min a b"
    and Max: "gsl_Max L x y = max x y"
    and Contains_u64: "gsl_Contains_u64 L ns n \<longleftrightarrow> n \<in> set ns"
    and Contains_hash: "gsl_Contains_hash L hs h \<longleftrightarrow> h \<in> set hs"
    and Contains_address: "gsl_Contains_address L as c \<longleftrightarrow> c \<in> set as"
    and FilterSlice: "gsl_FilterSlice L P ls = filter P ls"
    and HexToHash_lower: "HexToHash L (gsl_StringerToLowerString L h) = h"
    and BigToHash_nonneg: "0 \<le> i \<Longrightarrow> BigToHash L i = word_of_int i"
    and DecodeBig_EncodeBig: "0 \<le> i \<Longrightarrow> DecodeBig L (EncodeBig L i) = Some i"
    and Collect_None: "WaitAndCollectErrors L es = None \<longleftrightarrow> es = []"
    and Int63_bound: "unat (rand_Int63 L seed) < 2 ^ 63"
begin

lemmas lib_simps = Min Max Contains_u64 Contains_hash Contains_address FilterSlice HexToHash_lower

lemma lower_inject:
  "gsl_StringerToLowerString L h = gsl_StringerToLowerString L h' \<longleftrightarrow> h = h'"
  by (metis HexToHash_lower)

end

section \<open>A concrete library\<close>

fun nibbles :: "nat \<Rightarrow> nat \<Rightarrow> nat list" where
  "nibbles 0 n = []"
| "nibbles (Suc k) n = nibbles k (n div 16) @ [n mod 16]"

definition hex_char :: "nat \<Rightarrow> char" where
  "hex_char d = (if d < 10 then char_of (48 + d) else char_of (87 + d))"

definition hex_value :: "char \<Rightarrow> nat" where
  "hex_value c = (let v = of_char c :: nat in if v \<le> 57 then v - 48 else v - 87)"

definition hex_print :: "nat \<Rightarrow> nat \<Rightarrow> string" where
  "hex_print k n = ''0x'' @ map hex_char (nibbles k n)"

definition hex_parse :: "string \<Rightarrow> nat" where
  "hex_parse s = foldl (\<lambda>a c. 16 * a + hex_value c) 0 (drop 2 s)"

lemma hex_value_hex_char: "d < 16 \<Longrightarrow> hex_value (hex_char d) = d"
  by (auto simp: hex_value_def hex_char_def Let_def take_bit_nat_eq_self)

lemma set_nibbles: "d \<in> set (nibbles k n) \<Longrightarrow> d < 16"
  by (induction k arbitrary: n) auto

lemma foldl_nibbles: "n < 16 ^ k \<Longrightarrow> foldl (\<lambda>a d. 16 * a + d) 0 (nibbles k n) = n"
  by (induction k arbitrary: n) (auto simp: less_mult_imp_div_less mult.commute)

lemma foldl_hex_chars:
  "\<forall>d\<in>set ds. d < 16 \<Longrightarrow>
   foldl (\<lambda>a c. 16 * a + hex_value c) 0 (map hex_char ds) = foldl (\<lambda>a d. 16 * a + d) 0 ds"
  by (induction ds rule: rev_induct) (auto simp: hex_value_hex_char)

lemma hex_parse_print: "n < 16 ^ k \<Longrightarrow> hex_parse (hex_print k n) = n"
  using foldl_hex_chars [of "nibbles k n"] foldl_nibbles [of n k] set_nibbles [of _ k n]
  by (simp add: hex_parse_def hex_print_def)

text \<open>\<open>big.Int\<close> printing takes as many digits as the number needs.\<close>

fun hex_width :: "nat \<Rightarrow> nat" where
  "hex_width n = (if n < 16 then 1 else Suc (hex_width (n div 16)))"

declare hex_width.simps [simp del]

lemma hex_width_enough: "n < 16 ^ hex_width n"
proof (induction n rule: hex_width.induct)
  case (1 n)
  show ?case
  proof (cases "n < 16")
    case True
    then show ?thesis by (simp add: hex_width.simps [of n])
  next
    case False
    then have "n div 16 < 16 ^ hex_width (n div 16)" using 1 by simp
    then have "n < 16 * 16 ^ hex_width (n div 16)" by (simp add: div_less_iff_less_mult mult.commute)
    then show ?thesis using False by (simp add: hex_width.simps [of n])
  qed
qed

definition std_Contains :: "'a list \<Rightarrow> 'a \<Rightarrow> bool" where
  "std_Contains xs x = List.member xs x"

definition std_lower :: "hash \<Rightarrow> string" where
  "std_lower h = hex_print 64 (unat h)"

definition std_HexToHash :: "string \<Rightarrow> hash" where
  "std_HexToHash s = of_nat (hex_parse s)"

definition std_EncodeBig :: "int \<Rightarrow> string" where
  "std_EncodeBig i = hex_print (hex_width (nat i)) (nat i)"

definition std_DecodeBig :: "string \<Rightarrow> int option" where
  "std_DecodeBig s = Some (int (hex_parse s))"

definition std_Collect :: "go_error list \<Rightarrow> err" where
  "std_Collect es = (case es of [] \<Rightarrow> None | e # _ \<Rightarrow> Some e)"

definition std_Int63 :: "int \<Rightarrow> u64" where
  "std_Int63 seed = take_bit 63 (of_int (1000 * (seed + 1)))"

definition std_lib :: lib where
  "std_lib = \<lparr>
     gsl_Min = min, gsl_Max = max,
     gsl_Contains_u64 = std_Contains, gsl_Contains_hash = std_Contains, gsl_Contains_address = std_Contains,
     gsl_FilterSlice = filter, gsl_StringerToLowerString = std_lower, HexToHash = std_HexToHash, BigToHash = word_of_int,
     EncodeBig = std_EncodeBig, DecodeBig = std_DecodeBig,
     WaitAndCollectErrors = std_Collect, rand_Int63 = std_Int63\<rparr>"

lemmas std_defs = std_lib_def std_Contains_def std_lower_def std_HexToHash_def std_EncodeBig_def
  std_DecodeBig_def std_Collect_def std_Int63_def

interpretation std: lib_spec std_lib
proof unfold_locales
  fix h :: hash
  have "unat h < 2 ^ LENGTH(256)" by (rule unsigned_less)
  then have "unat h < 16 ^ 64" by simp
  then have "hex_parse (hex_print 64 (unat h)) = unat h" by (rule hex_parse_print)
  then show "HexToHash std_lib (gsl_StringerToLowerString std_lib h) = h"
    by (simp add: std_defs)
next
  fix i :: int
  assume "0 \<le> i"
  then show "DecodeBig std_lib (EncodeBig std_lib i) = Some i"
    by (simp add: std_defs hex_parse_print hex_width_enough)
  show "BigToHash std_lib i = word_of_int i" by (simp add: std_defs)
next
  fix seed :: int
  show "unat (rand_Int63 std_lib seed) < 2 ^ 63"
    using take_bit_nat_less_exp [of 63 "unat (of_int (1000 * (seed + 1)) :: u64)"]
    by (simp add: std_defs unsigned_take_bit_eq del: of_int_mult of_int_add)
next
  fix es :: "go_error list"
  show "WaitAndCollectErrors std_lib es = None \<longleftrightarrow> es = []"
    by (cases es) (simp_all add: std_defs)
qed (simp_all add: std_defs)

end
