(* ===== verification/Watcher_Types.thy ===== *)
theory Watcher_Types
  imports Watcher_Lib
begin

text \<open>
  The top-level package: blocks and headers (\<open>block.go\<close>), the configuration (\<open>config.go\<close>), the
  policies (\<open>emitter_poller.go\<close>), the sentinel errors (\<open>errors.go\<close>, \<open>datagateway.go\<close>), the
  Ethereum client interface and its wrapper (\<open>ethclient.go\<close>), the function-backed data gateway
  (\<open>datagateway.go\<close>), and \<open>PollerResult\<close> with \<open>LastGoodBlock\<close> (\<open>poll_result.go\<close>).
\<close>

section \<open>Blocks and headers (block.go)\<close>

text \<open>What the methods of the interface \<open>BlockHeader\<close> return.\<close>

record block_header =
  hd_Number :: u64
  hd_Hash :: hash
  hd_Nonce :: u64
  hd_Time :: u64
  hd_GasLimit :: u64
  hd_GasUsed :: u64

text \<open>A nil \<open>Header\<close> is \<open>None\<close>; a nil slice of logs is \<open>[]\<close>.\<close>

record block =
  LogsMigrated :: bool
  Number :: u64
  Hash :: hash
  Header :: "block_header option"
  Logs :: "eth_log list"

definition Block_String :: "lib \<Rightarrow> block \<Rightarrow> string" where
  "Block_String L b = gsl_StringerToLowerString L (Hash b)"

text \<open>
  The fields of \<open>types.Header\<close> the wrapper reads, and the wrapper's six methods gathered in one
  value. \<open>big.Int.Uint64\<close> takes the low 64 bits.
\<close>

record types_header =
  th_Number :: int
  th_Hash :: hash
  th_Nonce :: u64
  th_Time :: u64
  th_GasLimit :: u64
  th_GasUsed :: u64

definition BlockHeaderWrapper :: "types_header \<Rightarrow> block_header" where
  "BlockHeaderWrapper h = \<lparr>
     hd_Number = word_of_int (th_Number h),
     hd_Hash = th_Hash h,
     hd_Nonce = th_Nonce h,
     hd_Time = th_Time h,
     hd_GasLimit = th_GasLimit h,
     hd_GasUsed = th_GasUsed h\<rparr>"

section \<open>Policies (emitter_poller.go)\<close>

type_synonym policy = u8

definition PolicyFast :: policy where "PolicyFast = 0"
definition PolicyNormal :: policy where "PolicyNormal = 1"
definition PolicyExpensive :: policy where "PolicyExpensive = 2"
definition PolicyExpensiveBlock :: policy where "PolicyExpensiveBlock = 3"

lemmas policy_defs = PolicyFast_def PolicyNormal_def PolicyExpensive_def PolicyExpensiveBlock_def

lemma policy_order:
  "PolicyFast < PolicyNormal" "PolicyNormal < PolicyExpensive" "PolicyExpensive < PolicyExpensiveBlock"
  by (simp_all add: policy_defs)

lemma policy_cases: "PolicyExpensiveBlock \<le> pol \<or> pol = PolicyExpensive \<or> pol \<le> PolicyNormal"
proof -
  have "unat PolicyNormal = 1" "unat PolicyExpensive = 2" "unat PolicyExpensiveBlock = 3" by (simp_all add: policy_defs)
  then show ?thesis by (auto simp: word_le_nat_alt word_unat_eq_iff)
qed

definition Policy_String :: "policy \<Rightarrow> string" where
  "Policy_String level =
     (if level = PolicyFast then ''FAST''
      else if level = PolicyNormal then ''NORMAL''
      else if level = PolicyExpensive then ''EXPENSIVE''
      else if level = PolicyExpensiveBlock then ''EXPENSIVE_BLOCK''
      else ''UNKNOWN LEVEL '' @ dec_digits (unat level))"

section \<open>Configuration (config.go)\<close>

record config =
  NodeURL :: string
  StartBlock :: u64
  FilterRange :: u64
  cfg_DoReorg :: bool
  cfg_DoHeader :: bool
  MaxGoBackRetries :: u64
  LoopInterval :: u64
  LogLevel :: u8
  cfg_Policy :: policy

section \<open>Sentinel errors (errors.go, datagateway.go)\<close>

definition ErrFetchError :: go_error where
  "ErrFetchError = ErrNew ''fetch from ethclient failed''"

definition ErrChainIsReorging :: go_error where
  "ErrChainIsReorging = ErrNew ''chain is reorging and data is not usable for now''"

definition ErrFromBlockReorged :: go_error where
  "ErrFromBlockReorged = ErrWrap ErrChainIsReorging ''fromBlock reorged''"

definition ErrSuperwatcherBug :: go_error where
  "ErrSuperwatcherBug = ErrNew ''superwatcher bug''"

definition ErrProcessReorg :: go_error where
  "ErrProcessReorg = ErrWrap ErrSuperwatcherBug ''error in emitter reorg detection logic''"

definition ErrUserError :: go_error where
  "ErrUserError = ErrNew ''user error''"

definition ErrBadPolicy :: go_error where
  "ErrBadPolicy = ErrWrap ErrUserError ''invalid policy''"

definition ErrRecordNotFound :: go_error where
  "ErrRecordNotFound = ErrNew ''record not found''"

lemmas error_defs =
  ErrFetchError_def ErrChainIsReorging_def ErrFromBlockReorged_def ErrSuperwatcherBug_def
  ErrProcessReorg_def ErrUserError_def ErrBadPolicy_def ErrRecordNotFound_def

text \<open>\<open>WrapErrRecordNotFound\<close> drops the given error but for its message.\<close>

definition WrapErrRecordNotFound :: "string \<Rightarrow> go_error" where
  "WrapErrRecordNotFound msg = ErrWrap (ErrWrap ErrRecordNotFound msg) ''key %s not found''"

lemma WrapErrRecordNotFound_Is: "errors_Is (WrapErrRecordNotFound msg) ErrRecordNotFound"
  by (simp add: WrapErrRecordNotFound_def)

section \<open>The Ethereum client (ethclient.go)\<close>

record filter_query =
  q_FromBlock :: "int option"
  q_ToBlock :: "int option"
  q_Addresses :: "address list option"
  q_Topics :: "hash list list option"

text \<open>
  One element of a batch call: the method, the block-number argument as it is encoded, and the
  result, which is a \<open>*types.Header\<close>, some other implementation of \<open>BlockHeader\<close>, or anything
  else (its type's name).
\<close>

datatype batch_result = ResHeader types_header | ResBlockHeader block_header | ResOther string

record batch_elem =
  be_Method :: string
  be_Arg :: string
  be_Result :: batch_result

text \<open>
  A client is stateful: each method takes the state and returns its answer with the new state.
  \<open>ec_TypeName\<close> is \<open>reflect.TypeOf(client).String()\<close>.
\<close>

record 'c eth_client =
  ec_TypeName :: string
  ec_BlockNumber :: "'c \<Rightarrow> ((u64 \<times> err) \<times> 'c) go"
  ec_FilterLogs :: "filter_query \<Rightarrow> 'c \<Rightarrow> ((eth_log list \<times> err) \<times> 'c) go"
  ec_HeaderByNumber :: "int \<Rightarrow> 'c \<Rightarrow> ((block_header option \<times> err) \<times> 'c) go"
  ec_BatchCallContext :: "batch_elem list \<Rightarrow> 'c \<Rightarrow> ((batch_elem list \<times> err) \<times> 'c) go"

text \<open>
  \<open>ethClientWrapper\<close> over the methods of a real client: every method passes through but
  \<open>HeaderByNumber\<close>, which wraps the header it gets.
\<close>

record 'c raw_client =
  raw_BlockNumber :: "'c \<Rightarrow> ((u64 \<times> err) \<times> 'c) go"
  raw_FilterLogs :: "filter_query \<Rightarrow> 'c \<Rightarrow> ((eth_log list \<times> err) \<times> 'c) go"
  raw_HeaderByNumber :: "int \<Rightarrow> 'c \<Rightarrow> ((types_header option \<times> err) \<times> 'c) go"
  raw_BatchCallContext :: "batch_elem list \<Rightarrow> 'c \<Rightarrow> ((batch_elem list \<times> err) \<times> 'c) go"

definition wrapper_HeaderByNumber ::
    "'c raw_client \<Rightarrow> int \<Rightarrow> 'c \<Rightarrow> ((block_header option \<times> err) \<times> 'c) go" where
  "wrapper_HeaderByNumber c n s =
     go_bind (raw_HeaderByNumber c n s) (\<lambda>((h, e), s').
       if e \<noteq> None then Ret ((None, e), s')
       else Ret ((map_option BlockHeaderWrapper h, None), s'))"

definition ethClientWrapper :: "'c raw_client \<Rightarrow> 'c eth_client" where
  "ethClientWrapper c = \<lparr>
     ec_TypeName = ''*superwatcher.ethClientWrapper'',
     ec_BlockNumber = raw_BlockNumber c,
     ec_FilterLogs = raw_FilterLogs c,
     ec_HeaderByNumber = wrapper_HeaderByNumber c,
     ec_BatchCallContext = raw_BatchCallContext c\<rparr>"

section \<open>The state data gateway (datagateway.go)\<close>

text \<open>The two interfaces, over the gateway's own state.\<close>

record 'g data_gateway =
  GetLastRecordedBlock :: "'g \<Rightarrow> ((u64 \<times> err) \<times> 'g) go"
  SetLastRecordedBlock :: "u64 \<Rightarrow> 'g \<Rightarrow> (err \<times> 'g) go"

text \<open>\<open>dataGatewayWrapper\<close>: a field left out is a nil function, and calling it panics.\<close>

record 'g dataGatewayWrapper =
  getFunc :: "('g \<Rightarrow> ((u64 \<times> err) \<times> 'g) go) option"
  setFunc :: "(u64 \<Rightarrow> 'g \<Rightarrow> (err \<times> 'g) go) option"

definition nil_call :: "'a go" where
  "nil_call = Panic ''invalid memory address or nil pointer dereference''"

definition wrapper_gateway :: "'g dataGatewayWrapper \<Rightarrow> 'g data_gateway" where
  "wrapper_gateway w = \<lparr>
     GetLastRecordedBlock = (\<lambda>s. case getFunc w of None \<Rightarrow> nil_call | Some f \<Rightarrow> f s),
     SetLastRecordedBlock = (\<lambda>n s. case setFunc w of None \<Rightarrow> nil_call | Some f \<Rightarrow> f n s)\<rparr>"

definition GetStateDataGatewayFunc :: "('g \<Rightarrow> ((u64 \<times> err) \<times> 'g) go) \<Rightarrow> 'g data_gateway" where
  "GetStateDataGatewayFunc f = wrapper_gateway \<lparr>getFunc = Some f, setFunc = None\<rparr>"

definition SetStateDataGatewayFunc :: "(u64 \<Rightarrow> 'g \<Rightarrow> (err \<times> 'g) go) \<Rightarrow> 'g data_gateway" where
  "SetStateDataGatewayFunc f = wrapper_gateway \<lparr>getFunc = None, setFunc = Some f\<rparr>"

section \<open>Poll results (poll_result.go)\<close>

record poller_result =
  FromBlock :: u64
  ToBlock :: u64
  res_LastGoodBlock :: u64
  GoodBlocks :: "block list"
  ReorgedBlocks :: "block list"

definition new_PollerResult :: poller_result where
  "new_PollerResult = \<lparr>FromBlock = 0, ToBlock = 0, res_LastGoodBlock = 0, GoodBlocks = [], ReorgedBlocks = []\<rparr>"

definition LastGoodBlock :: "poller_result \<Rightarrow> u64" where
  "LastGoodBlock result =
     (if length (ReorgedBlocks result) \<noteq> 0 then
        (if length (GoodBlocks result) \<noteq> 0 then
           (let lastGood = Number (last (GoodBlocks result));
                firstReorg = Number (hd (ReorgedBlocks result))
            in if lastGood > firstReorg then firstReorg - 1 else lastGood)
         else FromBlock result - 1)
      else ToBlock result)"

lemma LastGoodBlock_no_reorg: "ReorgedBlocks r = [] \<Longrightarrow> LastGoodBlock r = ToBlock r"
  by (simp add: LastGoodBlock_def)

lemma u64_pred_le: "0 < n \<Longrightarrow> n - 1 \<le> (n :: u64)"
  by (simp add: word_le_nat_alt unat_minus_one word_neq_0_conv)

lemma LastGoodBlock_le_first_reorged:
  assumes "ReorgedBlocks r \<noteq> []" "GoodBlocks r \<noteq> []" "0 < Number (hd (ReorgedBlocks r))"
  shows "LastGoodBlock r \<le> Number (hd (ReorgedBlocks r))"
  using assms u64_pred_le [OF assms(3)] by (auto simp: LastGoodBlock_def Let_def not_less)

lemma LastGoodBlock_le_to:
  assumes "\<forall>b\<in>set (GoodBlocks r). Number b \<le> ToBlock r" "0 < FromBlock r" "FromBlock r \<le> ToBlock r"
    "\<forall>b\<in>set (ReorgedBlocks r). FromBlock r \<le> Number b \<and> Number b \<le> ToBlock r"
  shows "LastGoodBlock r \<le> ToBlock r"
proof (cases "ReorgedBlocks r = [] \<or> GoodBlocks r = []")
  case True
  then show ?thesis using assms(2,3) u64_pred_le [of "FromBlock r"]
    by (auto simp: LastGoodBlock_def)
next
  case False
  then have "Number (hd (ReorgedBlocks r)) \<le> ToBlock r" "0 < Number (hd (ReorgedBlocks r))"
    using assms(2,4) by (auto dest!: bspec [where x = "hd (ReorgedBlocks r)"])
  then show ?thesis using False LastGoodBlock_le_first_reorged [of r] by (meson order_trans)
qed

text \<open>The recorded number never falls below the block before the polled range.\<close>

lemma LastGoodBlock_ge_from:
  assumes "\<forall>b\<in>set (GoodBlocks r). FromBlock r \<le> Number b" "0 < FromBlock r" "FromBlock r \<le> ToBlock r"
    "\<forall>b\<in>set (ReorgedBlocks r). FromBlock r \<le> Number b"
  shows "FromBlock r - 1 \<le> LastGoodBlock r"
proof -
  have pred: "FromBlock r - 1 \<le> FromBlock r" using assms(2) by (rule u64_pred_le)
  have mono: "FromBlock r - 1 \<le> n - 1" if "FromBlock r \<le> n" for n
    using that assms(2) by (simp add: word_le_nat_alt unat_minus_one word_neq_0_conv word_less_nat_alt)
  show ?thesis using assms pred mono [of "Number (hd (ReorgedBlocks r))"]
    by (auto simp: LastGoodBlock_def Let_def intro: order_trans [OF pred])
qed

end
