(* ===== verification/Sorted_Set.thy ===== *)
theory Sorted_Set
  imports Go_Prelude
begin

text \<open>
  The third-party container \<open>github.com/wangjia184/sortedset\<close>, which both trackers keep their
  blocks in. Its code is not part of the repository, so it is a parameter: a record of the
  operations the trackers call. The locale \<open>sorted_set\<close> states what its documentation promises,
  a map from string keys to a score and a value from which the entry of least score can be
  taken. The loop both trackers clear old blocks with is modelled here once, and proved to end
  and to keep exactly the entries above the bound. The last section gives a concrete
  implementation on sorted lists, so that the promises are known to be satisfiable.
\<close>

section \<open>The operations\<close>

record 'v ss_node =
  node_key :: string
  node_score :: int
  node_value :: 'v

record ('s, 'v) sortedset =
  ss_New :: 's
  ss_AddOrUpdate :: "'s \<Rightarrow> string \<Rightarrow> int \<Rightarrow> 'v \<Rightarrow> 's"
  ss_GetByKey :: "'s \<Rightarrow> string \<Rightarrow> 'v ss_node option"
  ss_Remove :: "'s \<Rightarrow> string \<Rightarrow> 'v ss_node option \<times> 's"
  ss_PeekMin :: "'s \<Rightarrow> 'v ss_node option"
  ss_PopMin :: "'s \<Rightarrow> 'v ss_node option \<times> 's"
  ss_GetCount :: "'s \<Rightarrow> nat"

text \<open>
  The loop shared by \<open>blockTracker.clearUntil\<close> and \<open>metadataTrackerImpl.ClearUntil\<close>:
  pop the least entry until there is none or its score exceeds the bound.
\<close>

partial_function (option) clear_loop :: "('s, 'v) sortedset \<Rightarrow> int \<Rightarrow> 's \<Rightarrow> 's option" where
  "clear_loop S bound s =
     (case ss_PeekMin S s of
        None \<Rightarrow> Some s
      | Some oldest \<Rightarrow>
          if bound < node_score oldest then Some s
          else clear_loop S bound (snd (ss_PopMin S s)))"

declare clear_loop.simps [code]

section \<open>What the container promises\<close>

locale sorted_set =
  fixes S :: "('s, 'v) sortedset"
    and ss_map :: "'s \<Rightarrow> string \<Rightarrow> (int \<times> 'v) option"
    and ss_ok :: "'s \<Rightarrow> bool"
  assumes ok_New: "ss_ok (ss_New S)"
    and map_New: "ss_map (ss_New S) = Map.empty"
    and ok_Add: "ss_ok s \<Longrightarrow> ss_ok (ss_AddOrUpdate S s k sc v)"
    and map_Add: "ss_ok s \<Longrightarrow> ss_map (ss_AddOrUpdate S s k sc v) = (ss_map s)(k \<mapsto> (sc, v))"
    and Get: "ss_ok s \<Longrightarrow> ss_GetByKey S s k =
        map_option (\<lambda>p. \<lparr>node_key = k, node_score = fst p, node_value = snd p\<rparr>) (ss_map s k)"
    and ok_Remove: "ss_ok s \<Longrightarrow> ss_ok (snd (ss_Remove S s k))"
    and map_Remove: "ss_ok s \<Longrightarrow> ss_map (snd (ss_Remove S s k)) = (ss_map s)(k := None)"
    and Remove_found: "ss_ok s \<Longrightarrow> fst (ss_Remove S s k) = ss_GetByKey S s k"
    and PeekMin_None: "ss_ok s \<Longrightarrow> ss_PeekMin S s = None \<longleftrightarrow> ss_map s = Map.empty"
    and PeekMin_entry: "ss_ok s \<Longrightarrow> ss_PeekMin S s = Some n \<Longrightarrow>
        ss_map s (node_key n) = Some (node_score n, node_value n)"
    and PeekMin_least: "ss_ok s \<Longrightarrow> ss_PeekMin S s = Some n \<Longrightarrow> ss_map s k = Some (sc, v) \<Longrightarrow>
        node_score n \<le> sc"
    and ok_PopMin: "ss_ok s \<Longrightarrow> ss_ok (snd (ss_PopMin S s))"
    and map_PopMin: "ss_ok s \<Longrightarrow> ss_PeekMin S s = Some n \<Longrightarrow>
        ss_map (snd (ss_PopMin S s)) = (ss_map s)(node_key n := None)"
    and finite_map: "ss_ok s \<Longrightarrow> finite (dom (ss_map s))"
    and Count: "ss_ok s \<Longrightarrow> ss_GetCount S s = card (dom (ss_map s))"
begin

lemmas ss_rules = ok_New ok_Add ok_Remove ok_PopMin

lemmas ss_maps = map_New map_Add map_Remove Get Remove_found

definition above :: "int \<Rightarrow> 's \<Rightarrow> string \<Rightarrow> (int \<times> 'v) option" where
  "above bound s k = (case ss_map s k of Some (sc, v) \<Rightarrow> if bound < sc then Some (sc, v) else None
                      | None \<Rightarrow> None)"

text \<open>The clearing loop ends, and what it leaves is exactly what lies above the bound.\<close>

lemma clear_loop_total:
  assumes "ss_ok s"
  shows "\<exists>s'. clear_loop S bound s = Some s' \<and> ss_ok s' \<and> ss_map s' = above bound s"
  using assms
proof (induction "card (dom (ss_map s))" arbitrary: s rule: less_induct)
  case less
  note ok = \<open>ss_ok s\<close>
  show ?case
  proof (cases "ss_PeekMin S s")
    case None
    then have "ss_map s = Map.empty" using PeekMin_None [OF ok] by simp
    then have "ss_map s = above bound s" by (auto simp: above_def)
    then show ?thesis using None ok by (simp add: clear_loop.simps [of S bound s])
  next
    case (Some n)
    note entry = PeekMin_entry [OF ok Some]
    show ?thesis
    proof (cases "bound < node_score n")
      case True
      have "ss_map s = above bound s"
        using PeekMin_least [OF ok Some] True by (fastforce simp: above_def split: option.splits)
      then show ?thesis using Some True ok by (simp add: clear_loop.simps [of S bound s])
    next
      case False
      let ?t = "snd (ss_PopMin S s)"
      have t: "ss_ok ?t" "ss_map ?t = (ss_map s)(node_key n := None)"
        using ok_PopMin [OF ok] map_PopMin [OF ok Some] by auto
      have "card (dom (ss_map ?t)) < card (dom (ss_map s))"
        using entry finite_map [OF ok] t(2) by (intro psubset_card_mono) auto
      then obtain s' where s': "clear_loop S bound ?t = Some s'" "ss_ok s'"
          "ss_map s' = above bound ?t"
        using less.hyps [of ?t] t(1) by blast
      have "above bound ?t = above bound s"
        using t(2) entry False by (auto simp: above_def fun_eq_iff)
      then show ?thesis using s' Some False by (simp add: clear_loop.simps [of S bound s])
    qed
  qed
qed

end

section \<open>An implementation on sorted lists\<close>

definition lss_Add :: "'v ss_node list \<Rightarrow> string \<Rightarrow> int \<Rightarrow> 'v \<Rightarrow> 'v ss_node list" where
  "lss_Add s k sc v = insort_key node_score
     \<lparr>node_key = k, node_score = sc, node_value = v\<rparr> (filter (\<lambda>n. node_key n \<noteq> k) s)"

definition lss_Get :: "'v ss_node list \<Rightarrow> string \<Rightarrow> 'v ss_node option" where
  "lss_Get s k = find (\<lambda>n. node_key n = k) s"

definition lss_Remove :: "'v ss_node list \<Rightarrow> string \<Rightarrow> 'v ss_node option \<times> 'v ss_node list" where
  "lss_Remove s k = (find (\<lambda>n. node_key n = k) s, filter (\<lambda>n. node_key n \<noteq> k) s)"

definition lss_PeekMin :: "'v ss_node list \<Rightarrow> 'v ss_node option" where
  "lss_PeekMin s = (case s of [] \<Rightarrow> None | n # _ \<Rightarrow> Some n)"

definition lss_PopMin :: "'v ss_node list \<Rightarrow> 'v ss_node option \<times> 'v ss_node list" where
  "lss_PopMin s = (case s of [] \<Rightarrow> (None, []) | n # ns \<Rightarrow> (Some n, ns))"

definition list_ss :: "('v ss_node list, 'v) sortedset" where
  "list_ss = \<lparr>ss_New = [], ss_AddOrUpdate = lss_Add, ss_GetByKey = lss_Get, ss_Remove = lss_Remove,
     ss_PeekMin = lss_PeekMin, ss_PopMin = lss_PopMin, ss_GetCount = length\<rparr>"

lemmas list_ss_defs = list_ss_def lss_Add_def lss_Get_def lss_Remove_def lss_PeekMin_def lss_PopMin_def

definition list_ss_map :: "'v ss_node list \<Rightarrow> string \<Rightarrow> (int \<times> 'v) option" where
  "list_ss_map s k = map_of (map (\<lambda>n. (node_key n, (node_score n, node_value n))) s) k"

definition list_ss_ok :: "'v ss_node list \<Rightarrow> bool" where
  "list_ss_ok s \<longleftrightarrow> sorted (map node_score s) \<and> distinct (map node_key s)"

lemma list_ss_find:
  "find (\<lambda>n. node_key n = k) s =
   map_option (\<lambda>p. \<lparr>node_key = k, node_score = fst p, node_value = snd p\<rparr>) (list_ss_map s k)"
  by (induction s) (auto simp: list_ss_map_def)

lemma list_ss_map_filter:
  "list_ss_map (filter (\<lambda>n. node_key n \<noteq> k) s) = (list_ss_map s)(k := None)"
  by (induction s) (auto simp: list_ss_map_def fun_eq_iff)

lemma list_ss_map_insort:
  "node_key n \<notin> node_key ` set s \<Longrightarrow>
   list_ss_map (insort_key node_score n s) = (list_ss_map s)(node_key n \<mapsto> (node_score n, node_value n))"
  by (induction s) (auto simp: list_ss_map_def fun_eq_iff)

lemma dom_list_ss_map: "dom (list_ss_map s) = node_key ` set s"
  unfolding list_ss_map_def by (simp add: dom_map_of_conv_image_fst image_image)

lemma list_ss_map_set:
  "list_ss_map s k = Some (sc, v) \<Longrightarrow> \<lparr>node_key = k, node_score = sc, node_value = v\<rparr> \<in> set s"
  by (induction s) (auto simp: list_ss_map_def split: if_splits)

lemma sorted_filter_scores: "sorted (map node_score s) \<Longrightarrow> sorted (map node_score (filter P s))"
  by (simp add: sorted_filter)

interpretation lss: sorted_set list_ss list_ss_map list_ss_ok
proof unfold_locales
  show "list_ss_ok (ss_New list_ss)" and "list_ss_map (ss_New list_ss) = Map.empty"
    by (simp_all add: list_ss_defs list_ss_ok_def list_ss_map_def fun_eq_iff)
next
  fix s :: "'v ss_node list" and k :: string and sc :: int and v :: 'v
  assume ok: "list_ss_ok s"
  let ?n = "\<lparr>node_key = k, node_score = sc, node_value = v\<rparr>"
  let ?r = "filter (\<lambda>n. node_key n \<noteq> k) s"
  have fresh: "node_key ?n \<notin> node_key ` set ?r" by auto
  then show "list_ss_ok (ss_AddOrUpdate list_ss s k sc v)"
    using ok by (auto simp: list_ss_defs list_ss_ok_def sorted_insort_key sorted_filter_scores
        distinct_map distinct_insort set_insort_key inj_on_def)
  show "list_ss_map (ss_AddOrUpdate list_ss s k sc v) = (list_ss_map s)(k \<mapsto> (sc, v))"
    using list_ss_map_insort [OF fresh] by (simp add: list_ss_defs list_ss_map_filter)
next
  fix s :: "'v ss_node list" and k :: string
  assume ok: "list_ss_ok s"
  show "ss_GetByKey list_ss s k =
      map_option (\<lambda>p. \<lparr>node_key = k, node_score = fst p, node_value = snd p\<rparr>) (list_ss_map s k)"
    by (simp add: list_ss_defs list_ss_find)
  show "list_ss_ok (snd (ss_Remove list_ss s k))"
    using ok by (simp add: list_ss_defs list_ss_ok_def sorted_filter_scores distinct_map_filter)
  show "list_ss_map (snd (ss_Remove list_ss s k)) = (list_ss_map s)(k := None)"
    by (simp add: list_ss_defs list_ss_map_filter)
  show "fst (ss_Remove list_ss s k) = ss_GetByKey list_ss s k"
    by (simp add: list_ss_defs)
  show "finite (dom (list_ss_map s))" and "ss_GetCount list_ss s = card (dom (list_ss_map s))"
    using ok by (auto simp: list_ss_defs list_ss_ok_def dom_list_ss_map card_image distinct_map distinct_card)
  show "list_ss_ok (snd (ss_PopMin list_ss s))"
    using ok by (cases s) (auto simp: list_ss_defs list_ss_ok_def)
  show "ss_PeekMin list_ss s = None \<longleftrightarrow> list_ss_map s = Map.empty"
    using dom_list_ss_map [of s] by (cases s) (auto simp: list_ss_defs list_ss_map_def fun_eq_iff)
next
  fix s :: "'v ss_node list" and n k sc v
  assume ok: "list_ss_ok s" and peek: "ss_PeekMin list_ss s = Some n"
  then obtain ns where s: "s = n # ns" by (auto simp: list_ss_defs split: list.splits)
  show "list_ss_map s (node_key n) = Some (node_score n, node_value n)"
    by (simp add: s list_ss_map_def)
  show "list_ss_map s k = Some (sc, v) \<Longrightarrow> node_score n \<le> sc"
    using ok list_ss_map_set [of s k sc v] by (auto simp: s list_ss_ok_def)
  have "node_key n \<notin> dom (list_ss_map ns)" using ok by (simp add: s list_ss_ok_def dom_list_ss_map)
  then have "list_ss_map ns (node_key n) = None" by (simp only: domIff not_not)
  then show "list_ss_map (snd (ss_PopMin list_ss s)) = (list_ss_map s)(node_key n := None)"
    by (auto simp: s list_ss_defs list_ss_map_def fun_eq_iff)
qed

end
