(* ===== verification/Block_Tracker.thy ===== *)
theory Block_Tracker
  imports Watcher_Types Sorted_Set
begin

text \<open>
  The poller's block tracker (\<open>internal/poller/tracker.go\<close>): the blocks of earlier polls, keyed by
  the decimal form of their number and scored by the number as a signed integer. The locale
  \<open>block_tracker\<close> is the contract the poller relies on: over any container that keeps the
  promises of \<open>sorted_set\<close>, a well-formed tracker behaves as a finite map from block numbers
  to blocks. The values the Go code stores are pointers; the poller keeps no other pointer to
  a stored block but the one it mutates in place, which is modelled as storing the mutated
  block back under its key.
\<close>

section \<open>Operations\<close>

record 's blockTracker =
  sortedSet :: 's
  user :: string

definition newTracker :: "('s, block) sortedset \<Rightarrow> string \<Rightarrow> 's blockTracker" where
  "newTracker S usr = \<lparr>sortedSet = ss_New S, user = usr\<rparr>"

definition addTrackerBlock :: "('s, block) sortedset \<Rightarrow> 's blockTracker \<Rightarrow> block \<Rightarrow> 's blockTracker" where
  "addTrackerBlock S t b =
     (let k = FormatUint (Number b)
      in t\<lparr>sortedSet := ss_AddOrUpdate S (sortedSet t) k (sint (Number b)) b\<rparr>)"

definition getTrackerBlock :: "('s, block) sortedset \<Rightarrow> 's blockTracker \<Rightarrow> u64 \<Rightarrow> block option" where
  "getTrackerBlock S t blockNumber =
     (case ss_GetByKey S (sortedSet t) (FormatUint blockNumber) of
        None \<Rightarrow> None
      | Some node \<Rightarrow> Some (node_value node))"

definition removeBlock :: "('s, block) sortedset \<Rightarrow> 's blockTracker \<Rightarrow> u64 \<Rightarrow> err \<times> 's blockTracker" where
  "removeBlock S t blockNumber =
     (let (del, s') = ss_Remove S (sortedSet t) (FormatUint blockNumber)
      in (if del = None then Some (ErrNew ''node key %s was not in set'') else None,
          t\<lparr>sortedSet := s'\<rparr>))"

definition clearUntil :: "('s, block) sortedset \<Rightarrow> 's blockTracker \<Rightarrow> u64 \<Rightarrow> 's blockTracker go" where
  "clearUntil S t blockNumber =
     go_bind (go_loop (clear_loop S (sint blockNumber) (sortedSet t)))
       (\<lambda>s'. Ret (t\<lparr>sortedSet := s'\<rparr>))"

definition tracker_Len :: "('s, block) sortedset \<Rightarrow> 's blockTracker \<Rightarrow> nat" where
  "tracker_Len S t = ss_GetCount S (sortedSet t)"

section \<open>The contract\<close>

locale block_tracker = sorted_set S ss_map ss_ok
  for S :: "('s, block) sortedset" and ss_map and ss_ok
begin

text \<open>Every entry is stored under its own number, with that number as its score.\<close>

definition tracker_ok :: "'s blockTracker \<Rightarrow> bool" where
  "tracker_ok t \<longleftrightarrow> ss_ok (sortedSet t) \<and>
     (\<forall>k sc b. ss_map (sortedSet t) k = Some (sc, b) \<longrightarrow>
        k = FormatUint (Number b) \<and> sc = sint (Number b))"

lemma entry:
  assumes "tracker_ok t" "ss_map (sortedSet t) (FormatUint n) = Some (sc, b)"
  shows "Number b = n" "sc = sint n"
proof -
  have "FormatUint n = FormatUint (Number b) \<and> sc = sint (Number b)"
    using assms unfolding tracker_ok_def by blast
  then show "Number b = n" "sc = sint n" by simp_all
qed

lemma get_map:
  "tracker_ok t \<Longrightarrow> getTrackerBlock S t n = map_option snd (ss_map (sortedSet t) (FormatUint n))"
  by (cases "ss_map (sortedSet t) (FormatUint n)") (auto simp: tracker_ok_def getTrackerBlock_def Get)

lemma get_Number: "tracker_ok t \<Longrightarrow> getTrackerBlock S t n = Some b \<Longrightarrow> Number b = n"
  by (auto simp: get_map entry)

lemma ok_newTracker: "tracker_ok (newTracker S u)"
  by (simp add: tracker_ok_def newTracker_def ok_New map_New)

lemma get_newTracker: "getTrackerBlock S (newTracker S u) n = None"
  by (simp add: get_map ok_newTracker) (simp add: newTracker_def map_New)

lemma ok_addTrackerBlock: "tracker_ok t \<Longrightarrow> tracker_ok (addTrackerBlock S t b)"
  by (auto simp: tracker_ok_def addTrackerBlock_def Let_def ok_Add map_Add split: if_splits)

lemma get_addTrackerBlock:
  "tracker_ok t \<Longrightarrow>
   getTrackerBlock S (addTrackerBlock S t b) n = (if n = Number b then Some b else getTrackerBlock S t n)"
  by (simp add: get_map ok_addTrackerBlock)
    (simp add: addTrackerBlock_def Let_def tracker_ok_def map_Add)

lemma ok_removeBlock: "tracker_ok t \<Longrightarrow> tracker_ok (snd (removeBlock S t n))"
  using map_Remove [of "sortedSet t" "FormatUint n"] ok_Remove [of "sortedSet t" "FormatUint n"]
  by (auto simp: tracker_ok_def removeBlock_def split: prod.splits if_splits)

lemma get_removeBlock:
  "tracker_ok t \<Longrightarrow>
   getTrackerBlock S (snd (removeBlock S t m)) n = (if n = m then None else getTrackerBlock S t n)"
  using map_Remove [of "sortedSet t" "FormatUint m"]
  by (simp add: get_map ok_removeBlock)
    (auto simp: removeBlock_def tracker_ok_def split: prod.splits)

lemma removeBlock_err:
  "tracker_ok t \<Longrightarrow> fst (removeBlock S t n) = None \<longleftrightarrow> getTrackerBlock S t n \<noteq> None"
  using Remove_found [of "sortedSet t" "FormatUint n"]
  by (cases "ss_map (sortedSet t) (FormatUint n)")
    (auto simp: get_map removeBlock_def tracker_ok_def Get split: prod.splits)

text \<open>
  Clearing ends and keeps exactly the blocks whose number, read as a signed integer, lies
  above the bound read as a signed integer.
\<close>

lemma clearUntil_total:
  assumes "tracker_ok t"
  shows "\<exists>t'. clearUntil S t bound = Ret t' \<and> tracker_ok t' \<and>
    (\<forall>n. getTrackerBlock S t' n =
       (if sint bound < sint n then getTrackerBlock S t n else None))"
proof -
  have ok: "ss_ok (sortedSet t)" using assms by (simp add: tracker_ok_def)
  obtain s' where s': "clear_loop S (sint bound) (sortedSet t) = Some s'" "ss_ok s'"
      "ss_map s' = above (sint bound) (sortedSet t)"
    using clear_loop_total [OF ok] by blast
  let ?t = "t\<lparr>sortedSet := s'\<rparr>"
  have okt: "tracker_ok ?t" using assms s'
    by (auto simp: tracker_ok_def above_def split: option.splits if_splits)
  moreover have "getTrackerBlock S ?t n = (if sint bound < sint n then getTrackerBlock S t n else None)" for n
  proof (cases "ss_map (sortedSet t) (FormatUint n)")
    case None
    then show ?thesis using s' by (simp add: get_map okt assms above_def)
  next
    case (Some p)
    then have "fst p = sint n" using entry(2) [OF assms, of n "fst p" "snd p"] by simp
    then show ?thesis using s' Some by (cases p) (simp add: get_map okt assms above_def)
  qed
  ultimately show ?thesis using s'(1) by (auto simp: clearUntil_def)
qed

end

interpretation lbt: block_tracker list_ss list_ss_map list_ss_ok
  by unfold_locales

end
