(* ===== verification/Poll_Collect.thy ===== *)
theory Poll_Collect
  imports Watcher_Types "HOL-Library.AList"
begin

text \<open>
  What the poller does with the data of one poll: the batch call (\<open>pkg/batch/batch.go\<close>) with
  which it fetches headers (\<open>internal/poller/header_by_number_batch.go\<close>), and the two collectors
  (\<open>internal/poller/utils.go\<close>) that gather logs and headers by block and refuse blocks whose
  data disagree on the block hash. The lemmas say what the collectors return: the logs grouped
  by block number in their order, or an error exactly when two data of one block disagree.
\<close>

section \<open>Batch calls (pkg/batch/batch.go)\<close>

definition MethodGetBlockByNumber :: string where
  "MethodGetBlockByNumber = ''eth_getBlockByNumber''"

text \<open>
  The client writes its answers into the slice it is given, so elements it does not write stay
  as they were and the slice keeps its length.
\<close>

fun write_back :: "'a list \<Rightarrow> 'a list \<Rightarrow> 'a list" where
  "write_back [] rs = []"
| "write_back es [] = es"
| "write_back (e # es) (r # rs) = r # write_back es rs"

fun marshal_all :: "('call \<Rightarrow> batch_elem \<times> err) \<Rightarrow> 'call list \<Rightarrow> err + batch_elem list" where
  "marshal_all marshal [] = Inr []"
| "marshal_all marshal (c # cs) =
     (case marshal c of
        (elem, Some e) \<Rightarrow> Inl (Some (ErrWrap e ''failed to marshal calls[%d]''))
      | (elem, None) \<Rightarrow> (case marshal_all marshal cs of Inl e \<Rightarrow> Inl e | Inr es \<Rightarrow> Inr (elem # es)))"

fun unmarshal_all :: "(batch_elem \<Rightarrow> 'call \<Rightarrow> 'call \<times> err) \<Rightarrow> 'call list \<Rightarrow> batch_elem list \<Rightarrow> 'call list \<times> err" where
  "unmarshal_all unmarshal (c # cs) (e # es) =
     (case unmarshal e c of
        (c', Some x) \<Rightarrow> (c' # cs, Some (ErrWrap x ''failed to marshal calls[%d]''))
      | (c', None) \<Rightarrow> (case unmarshal_all unmarshal cs es of (cs', x) \<Rightarrow> (c' # cs', x)))"
| "unmarshal_all unmarshal cs es = (cs, None)"

definition CallBatch ::
    "('call \<Rightarrow> batch_elem \<times> err) \<Rightarrow> (batch_elem \<Rightarrow> 'call \<Rightarrow> 'call \<times> err) \<Rightarrow>
     'c eth_client \<Rightarrow> 'call list \<Rightarrow> 'c \<Rightarrow> (('call list \<times> err) \<times> 'c) go" where
  "CallBatch marshal unmarshal client batchCalls s =
     (case marshal_all marshal batchCalls of
        Inl e \<Rightarrow> Ret ((batchCalls, e), s)
      | Inr batchElems \<Rightarrow>
          go_bind (ec_BatchCallContext client batchElems s) (\<lambda>((answer, e), s').
            if e \<noteq> None then Ret ((batchCalls, errors_Wrap e ''BatchCallContext failed''), s')
            else Ret (unmarshal_all unmarshal batchCalls (write_back batchElems answer), s')))"

section \<open>Headers in batch (header_by_number_batch.go)\<close>

record headerByNumberBatch =
  hb_client :: string
  hb_number :: u64
  hb_header :: "block_header option"

definition zero_types_header :: types_header where
  "zero_types_header = \<lparr>th_Number = 0, th_Hash = 0, th_Nonce = 0, th_Time = 0, th_GasLimit = 0, th_GasUsed = 0\<rparr>"

definition zero_block_header :: block_header where
  "zero_block_header = \<lparr>hd_Number = 0, hd_Hash = 0, hd_Nonce = 0, hd_Time = 0, hd_GasLimit = 0, hd_GasUsed = 0\<rparr>"

definition Marshal :: "lib \<Rightarrow> headerByNumberBatch \<Rightarrow> batch_elem \<times> err" where
  "Marshal L h =
     (if hb_client h = ''*reorgsim.ReorgSim'' then
        (\<lparr>be_Method = MethodGetBlockByNumber, be_Arg = EncodeBig L (sint (hb_number h)),
          be_Result = ResBlockHeader zero_block_header\<rparr>, None)
      else
        (\<lparr>be_Method = MethodGetBlockByNumber, be_Arg = EncodeBig L (sint (hb_number h)),
          be_Result = ResHeader zero_types_header\<rparr>, None))"

definition Unmarshal :: "batch_elem \<Rightarrow> headerByNumberBatch \<Rightarrow> headerByNumberBatch \<times> err" where
  "Unmarshal elem h =
     (case be_Result elem of
        ResHeader th \<Rightarrow> (h\<lparr>hb_header := Some (BlockHeaderWrapper th)\<rparr>, None)
      | ResBlockHeader bh \<Rightarrow> (h\<lparr>hb_header := Some bh\<rparr>, None)
      | ResOther ty \<Rightarrow> (h, Some (ErrNew ''unexpected result type for HeaderByNumberBatch: %s'')))"

text \<open>
  The header map is an association list with distinct keys. A call whose header was never
  filled cannot occur once \<open>CallBatch\<close> has succeeded (\<open>unmarshal_all_headers\<close>).
\<close>

definition getHeadersByNumbers ::
    "lib \<Rightarrow> 'c eth_client \<Rightarrow> u64 list \<Rightarrow> 'c \<Rightarrow> (((u64 \<times> block_header) list \<times> err) \<times> 'c) go" where
  "getHeadersByNumbers L client numbers s =
     (let elems = map (\<lambda>n. \<lparr>hb_client = ec_TypeName client, hb_number = n, hb_header = None\<rparr>) numbers
      in go_bind (CallBatch (Marshal L) Unmarshal client elems s) (\<lambda>((calls, e), s').
           if e \<noteq> None then Ret (([], errors_Wrap e ''failed to batch get block headers''), s')
           else Ret ((fold (\<lambda>c results. case hb_header c of
                                None \<Rightarrow> results
                              | Some h \<Rightarrow> AList.update (hb_number c) h results) calls [], None), s')))"

lemma length_write_back [simp]: "length (write_back es rs) = length es"
  by (induction es rs rule: write_back.induct) auto

lemma marshal_all_Marshal:
  "marshal_all (Marshal L) cs = Inr (map (\<lambda>c. fst (Marshal L c)) cs)"
  by (induction cs) (auto simp: Marshal_def)

text \<open>A batch that unmarshals without error filled every header and kept every number.\<close>

lemma unmarshal_all_headers:
  "unmarshal_all Unmarshal cs es = (cs', None) \<Longrightarrow> length es = length cs \<Longrightarrow>
   map hb_number cs' = map hb_number cs \<and> (\<forall>c\<in>set cs'. hb_header c \<noteq> None)"
proof (induction Unmarshal cs es arbitrary: cs' rule: unmarshal_all.induct)
  case (1 c cs e es)
  then show ?case
    by (auto simp: Unmarshal_def split: prod.splits option.splits batch_result.splits)
qed auto

lemma fold_headers:
  assumes "\<forall>c\<in>set cs. hb_header c \<noteq> None" "distinct (map fst hs)"
  shows "distinct (map fst (fold (\<lambda>c r. case hb_header c of None \<Rightarrow> r | Some h \<Rightarrow> AList.update (hb_number c) h r) cs hs))
    \<and> fst ` set (fold (\<lambda>c r. case hb_header c of None \<Rightarrow> r | Some h \<Rightarrow> AList.update (hb_number c) h r) cs hs)
      = fst ` set hs \<union> hb_number ` set cs"
  using assms
proof (induction cs arbitrary: hs)
  case (Cons c cs)
  then obtain h where h: "hb_header c = Some h" by auto
  have "distinct (map fst (AList.update (hb_number c) h hs))"
    using Cons.prems by (simp add: distinct_update)
  moreover have "fst ` set (AList.update (hb_number c) h hs) = insert (hb_number c) (fst ` set hs)"
    using dom_update [of "hb_number c" h hs] by (simp add: dom_map_of_conv_image_fst [symmetric] update_conv' )
  ultimately show ?case using Cons.IH [of "AList.update (hb_number c) h hs"] Cons.prems h by auto
qed simp

text \<open>On success there is a header for exactly the requested numbers.\<close>

lemma getHeadersByNumbers_keys:
  assumes "getHeadersByNumbers L client numbers s = Ret ((headers, None), s')"
  shows "distinct (map fst headers)" "fst ` set headers = set numbers"
proof -
  let ?elems = "map (\<lambda>n. \<lparr>hb_client = ec_TypeName client, hb_number = n, hb_header = None\<rparr>) numbers"
  from assms obtain es calls where calls:
      "unmarshal_all Unmarshal ?elems es = (calls, None)" "length es = length ?elems"
      "headers = fold (\<lambda>c r. case hb_header c of None \<Rightarrow> r | Some h \<Rightarrow> AList.update (hb_number c) h r) calls []"
    by (auto simp: getHeadersByNumbers_def CallBatch_def Let_def marshal_all_Marshal
        go_bind_Ret_iff split: if_splits prod.splits)
  have u: "map hb_number calls = numbers" "\<forall>c\<in>set calls. hb_header c \<noteq> None"
    using unmarshal_all_headers [OF calls(1,2)] by (simp_all add: comp_def)
  have "hb_number ` set calls = set numbers" using u(1) by (metis list.set_map)
  then show "distinct (map fst headers)" "fst ` set headers = set numbers"
    using fold_headers [OF u(2), of "[]"] calls(3) by simp_all
qed

section \<open>Collecting logs and headers (utils.go)\<close>

text \<open>\<open>errHashesDiffer\<close> of \<open>internal/poller/errors.go\<close>.\<close>

definition errHashesDiffer :: go_error where
  "errHashesDiffer = ErrWrap ErrChainIsReorging ''blockHashes differ''"

record mapLogsResult =
  forked :: bool
  res_Block :: block

type_synonym poll_results = "u64 \<Rightarrow> mapLogsResult option"

definition new_logs_result :: "eth_log \<Rightarrow> mapLogsResult" where
  "new_logs_result log = \<lparr>forked = False,
     res_Block = \<lparr>LogsMigrated = False, Number = log_BlockNumber log, Hash = log_BlockHash log,
                  Header = None, Logs = [log]\<rparr>\<rparr>"

definition collectLogs_body ::
    "eth_log \<Rightarrow> poll_results \<Rightarrow> ((u64 \<times> err) \<times> poll_results) + poll_results" where
  "collectLogs_body log m =
     (let number = log_BlockNumber log; hash = log_BlockHash log
      in case m number of
           None \<Rightarrow> Inr (m(number \<mapsto> new_logs_result log))
         | Some result \<Rightarrow>
             if Hash (res_Block result) \<noteq> hash
             then Inl ((number, Some (ErrWrap errHashesDiffer ''logs in block %d has different hashes: %s vs %s'')), m)
             else Inr (m(number \<mapsto> result\<lparr>res_Block := (res_Block result)\<lparr>Logs := Logs (res_Block result) @ [log]\<rparr>\<rparr>)))"

definition collectLogs :: "poll_results \<Rightarrow> eth_log list \<Rightarrow> (u64 \<times> err) \<times> poll_results" where
  "collectLogs m logs =
     (case for_each collectLogs_body logs m of Inl r \<Rightarrow> r | Inr m' \<Rightarrow> ((0, None), m'))"

definition collectHeaders_body ::
    "(u64 \<times> block_header) list \<Rightarrow> u64 \<Rightarrow> u64 \<times> poll_results \<Rightarrow>
     ((u64 \<times> err) \<times> poll_results) + (u64 \<times> poll_results)" where
  "collectHeaders_body headers n st =
     (let (lst, m) = st in
      case map_of headers n of
        None \<Rightarrow> Inr (lst, m)
      | Some header \<Rightarrow>
          (case m n of
             Some result \<Rightarrow>
               if Hash (res_Block result) \<noteq> hd_Hash header
               then Inl ((n, Some (ErrWrap errHashesDiffer ''block %d resultHash differs from headerHash: %s vs %s'')), m)
               else Inr (n, m)
           | None \<Rightarrow>
               Inr (n, m(n \<mapsto> \<lparr>forked = False,
                 res_Block = \<lparr>LogsMigrated = False, Number = n, Hash = hd_Hash header,
                              Header = Some header, Logs = []\<rparr>\<rparr>))))"

definition collectHeaders ::
    "poll_results \<Rightarrow> u64 \<Rightarrow> u64 \<Rightarrow> (u64 \<times> block_header) list \<Rightarrow> ((u64 \<times> err) \<times> poll_results) go" where
  "collectHeaders m fromBlock toBlock headers =
     go_bind (go_loop (for_up (collectHeaders_body headers) fromBlock toBlock (fromBlock, m)))
       (\<lambda>r. case r of Inl x \<Rightarrow> Ret x | Inr (lst, m') \<Rightarrow> Ret ((lst, None), m'))"

lemma errHashesDiffer_reorging: "errors_Is errHashesDiffer ErrChainIsReorging"
  by (simp add: errHashesDiffer_def)

section \<open>What collecting logs computes\<close>

definition logs_of :: "u64 \<Rightarrow> eth_log list \<Rightarrow> eth_log list" where
  "logs_of n logs = filter (\<lambda>l. log_BlockNumber l = n) logs"

text \<open>No two logs of one block carry different block hashes.\<close>

definition logs_agree :: "eth_log list \<Rightarrow> bool" where
  "logs_agree logs \<longleftrightarrow>
     (\<forall>l\<in>set logs. \<forall>l'\<in>set logs. log_BlockNumber l = log_BlockNumber l' \<longrightarrow> log_BlockHash l = log_BlockHash l')"

text \<open>The grouping the loop is meant to compute.\<close>

definition group_logs :: "eth_log list \<Rightarrow> poll_results" where
  "group_logs logs n =
     (case logs_of n logs of
        [] \<Rightarrow> None
      | l # ls \<Rightarrow> Some \<lparr>forked = False,
          res_Block = \<lparr>LogsMigrated = False, Number = n, Hash = log_BlockHash l, Header = None, Logs = l # ls\<rparr>\<rparr>)"

lemma logs_of_snoc: "logs_of n (ls @ [l]) = logs_of n ls @ (if log_BlockNumber l = n then [l] else [])"
  by (simp add: logs_of_def)

lemma logs_of_set: "l \<in> set (logs_of n ls) \<longleftrightarrow> l \<in> set ls \<and> log_BlockNumber l = n"
  by (auto simp: logs_of_def)

lemma group_logs_None: "group_logs logs n = None \<longleftrightarrow> logs_of n logs = []"
  by (auto simp: group_logs_def split: list.splits)

lemma group_logs_Some:
  "group_logs logs n = Some r \<Longrightarrow>
   \<not> forked r \<and> \<not> LogsMigrated (res_Block r) \<and> Number (res_Block r) = n \<and> Header (res_Block r) = None \<and>
   Logs (res_Block r) = logs_of n logs \<and> logs_of n logs \<noteq> [] \<and>
   Hash (res_Block r) = log_BlockHash (hd (logs_of n logs))"
  by (auto simp: group_logs_def split: list.splits)

lemma group_logs_snoc:
  "collectLogs_body l (group_logs ls) =
    (if logs_of (log_BlockNumber l) ls \<noteq> [] \<and> log_BlockHash (hd (logs_of (log_BlockNumber l) ls)) \<noteq> log_BlockHash l
     then Inl ((log_BlockNumber l, Some (ErrWrap errHashesDiffer ''logs in block %d has different hashes: %s vs %s'')), group_logs ls)
     else Inr (group_logs (ls @ [l])))"
  by (cases "logs_of (log_BlockNumber l) ls")
    (auto simp: collectLogs_body_def Let_def group_logs_def new_logs_result_def logs_of_snoc fun_eq_iff)

lemma logs_agree_snoc:
  "logs_agree (ls @ [l]) \<longleftrightarrow> logs_agree ls \<and>
     (\<forall>l'\<in>set (logs_of (log_BlockNumber l) ls). log_BlockHash l' = log_BlockHash l)"
  by (auto simp: logs_agree_def logs_of_set)

lemma logs_agree_hd:
  "logs_agree ls \<Longrightarrow> logs_of n ls \<noteq> [] \<Longrightarrow>
   (\<forall>l'\<in>set (logs_of n ls). log_BlockHash l' = h) \<longleftrightarrow> log_BlockHash (hd (logs_of n ls)) = h"
  unfolding logs_agree_def
  by (metis (mono_tags, lifting) list.set_sel(1) logs_of_set)

lemma collectLogs_loop:
  "(logs_agree logs \<longrightarrow> for_each collectLogs_body logs Map.empty = Inr (group_logs logs)) \<and>
   (\<not> logs_agree logs \<longrightarrow> (\<exists>n m. for_each collectLogs_body logs Map.empty =
      Inl ((n, Some (ErrWrap errHashesDiffer ''logs in block %d has different hashes: %s vs %s'')), m)))"
proof (induction logs rule: rev_induct)
  case Nil
  then show ?case by (auto simp: logs_agree_def group_logs_def logs_of_def fun_eq_iff)
next
  case (snoc l ls)
  show ?case
  proof (cases "logs_agree ls")
    case False
    then show ?thesis using snoc by (auto simp: for_each_append logs_agree_snoc)
  next
    case True
    then have run: "for_each collectLogs_body (ls @ [l]) Map.empty = (case collectLogs_body l (group_logs ls) of
        Inl r \<Rightarrow> Inl r | Inr m \<Rightarrow> Inr m)"
      using snoc by (simp add: for_each_append split: sum.splits)
    show ?thesis
    proof (cases "logs_of (log_BlockNumber l) ls = []")
      case True
      then show ?thesis using \<open>logs_agree ls\<close>
        by (simp add: run group_logs_snoc logs_agree_snoc)
    next
      case False
      then show ?thesis using \<open>logs_agree ls\<close> logs_agree_hd [OF \<open>logs_agree ls\<close> False, of "log_BlockHash l"]
        by (simp add: run group_logs_snoc logs_agree_snoc)
    qed
  qed
qed

lemma collectLogs_ok: "logs_agree logs \<Longrightarrow> collectLogs Map.empty logs = ((0, None), group_logs logs)"
  using collectLogs_loop [of logs] by (simp add: collectLogs_def)

lemma collectLogs_disagree:
  "\<not> logs_agree logs \<Longrightarrow> \<exists>n e m. collectLogs Map.empty logs = ((n, Some e), m) \<and> errors_Is e errHashesDiffer"
  using collectLogs_loop [of logs] by (auto simp: collectLogs_def)

text \<open>
  Collecting the logs of a poll into an empty map groups them by block number, in the
  order the node returned them, with the hash they carry; it fails with \<open>errHashesDiffer\<close>
  exactly when two logs of one block carry different block hashes.
\<close>

theorem collectLogs_groups:
  "(snd (fst (collectLogs Map.empty logs)) = None \<longleftrightarrow> logs_agree logs) \<and>
   (snd (fst (collectLogs Map.empty logs)) = None \<longrightarrow> snd (collectLogs Map.empty logs) = group_logs logs) \<and>
   (snd (fst (collectLogs Map.empty logs)) \<noteq> None \<longrightarrow>
      err_Is (snd (fst (collectLogs Map.empty logs))) errHashesDiffer)"
  using collectLogs_ok [of logs] collectLogs_disagree [of logs] by (cases "logs_agree logs") auto

theorem collectLogs_groups_witness:
  "let l = (\<lambda>h. \<lparr>log_Address = 1, log_Topics = [], log_Data = [], log_BlockNumber = 7, log_TxHash = 0, log_BlockHash = h\<rparr>)
   in snd (collectLogs Map.empty [l 5, l 5]) = group_logs [l 5, l 5] \<and>
      err_Is (snd (fst (collectLogs Map.empty [l 5, l 6]))) errHashesDiffer"
proof -
  define l :: "hash \<Rightarrow> eth_log" where
    "l h = \<lparr>log_Address = 1, log_Topics = [], log_Data = [], log_BlockNumber = 7, log_TxHash = 0, log_BlockHash = h\<rparr>" for h
  have "logs_agree [l 5, l 5]" "\<not> logs_agree [l 5, l 6]" by (simp_all add: logs_agree_def l_def)
  then show ?thesis using collectLogs_groups [of "[l 5, l 5]"] collectLogs_groups [of "[l 5, l 6]"]
    unfolding Let_def l_def by blast
qed

section \<open>What collecting headers computes\<close>

text \<open>Every header in the range agrees with the hash already collected for its block.\<close>

definition headers_agree :: "poll_results \<Rightarrow> u64 \<Rightarrow> u64 \<Rightarrow> (u64 \<times> block_header) list \<Rightarrow> bool" where
  "headers_agree m a b headers \<longleftrightarrow>
     (\<forall>n\<in>set (u64_range a b). \<forall>h r. map_of headers n = Some h \<longrightarrow> m n = Some r \<longrightarrow> Hash (res_Block r) = hd_Hash h)"

definition header_result :: "u64 \<Rightarrow> block_header \<Rightarrow> mapLogsResult" where
  "header_result n h = \<lparr>forked = False,
     res_Block = \<lparr>LogsMigrated = False, Number = n, Hash = hd_Hash h, Header = Some h, Logs = []\<rparr>\<rparr>"

text \<open>The results after the headers are added: a block with a header and no result gets an empty one.\<close>

definition add_headers :: "poll_results \<Rightarrow> u64 list \<Rightarrow> (u64 \<times> block_header) list \<Rightarrow> poll_results" where
  "add_headers m ns headers n =
     (case m n of
        Some r \<Rightarrow> Some r
      | None \<Rightarrow> if n \<in> set ns then map_option (header_result n) (map_of headers n) else None)"

abbreviation headers_agree_on :: "poll_results \<Rightarrow> u64 list \<Rightarrow> (u64 \<times> block_header) list \<Rightarrow> bool" where
  "headers_agree_on m ns headers \<equiv>
     (\<forall>n\<in>set ns. \<forall>h r. map_of headers n = Some h \<longrightarrow> m n = Some r \<longrightarrow> Hash (res_Block r) = hd_Hash h)"

lemma headers_agree_add:
  "headers_agree_on (add_headers m [n] headers) ns headers \<longleftrightarrow> headers_agree_on m ns headers"
proof -
  let ?m = "add_headers m [n] headers"
  have keep: "?m k = Some r" if "m k = Some r" for k r using that by (simp add: add_headers_def)
  have new: "m k = Some r \<or> Hash (res_Block r) = hd_Hash h" if "?m k = Some r" "map_of headers k = Some h" for k r h
    using that by (auto simp: add_headers_def header_result_def split: option.splits if_splits)
  show ?thesis using keep new by metis
qed

lemma add_headers_Cons: "add_headers (add_headers m [n] headers) ns headers = add_headers m (n # ns) headers"
  by (auto simp: add_headers_def fun_eq_iff split: option.splits)

lemma collectHeaders_step:
  assumes "headers_agree_on m [n] headers"
  shows "\<exists>l. collectHeaders_body headers n (lst, m) = Inr (l, add_headers m [n] headers)"
  using assms by (cases "map_of headers n"; cases "m n")
    (auto simp: collectHeaders_body_def add_headers_def header_result_def fun_eq_iff split: option.splits)

lemma collectHeaders_loop:
  "(headers_agree_on m ns headers \<longrightarrow>
     (\<exists>l. for_each (collectHeaders_body headers) ns (lst, m) = Inr (l, add_headers m ns headers))) \<and>
   (\<not> headers_agree_on m ns headers \<longrightarrow>
     (\<exists>n m'. for_each (collectHeaders_body headers) ns (lst, m) =
       Inl ((n, Some (ErrWrap errHashesDiffer ''block %d resultHash differs from headerHash: %s vs %s'')), m')))"
proof (induction ns arbitrary: lst m)
  case Nil
  show ?case by (auto simp: add_headers_def fun_eq_iff split: option.splits)
next
  case (Cons n ns)
  show ?case
  proof (cases "headers_agree_on m [n] headers")
    case True
    then obtain l where l: "collectHeaders_body headers n (lst, m) = Inr (l, add_headers m [n] headers)"
      using collectHeaders_step by blast
    show ?thesis
      using Cons.IH [of "add_headers m [n] headers" l] True
      by (simp only: for_each.simps l sum.case headers_agree_add add_headers_Cons) auto
  next
    case False
    then show ?thesis by (auto simp: collectHeaders_body_def)
  qed
qed

lemma collectHeaders_ok:
  assumes "b \<noteq> - 1" "headers_agree m a b headers"
  shows "\<exists>l. collectHeaders m a b headers = Ret ((l, None), add_headers m (u64_range a b) headers)"
  using collectHeaders_loop [of "u64_range a b" headers m a] assms
  unfolding headers_agree_def by (auto simp: collectHeaders_def for_up_range)

lemma collectHeaders_disagree:
  assumes "b \<noteq> - 1" "\<not> headers_agree m a b headers"
  shows "\<exists>n e m'. collectHeaders m a b headers = Ret ((n, Some e), m') \<and> errors_Is e errHashesDiffer"
  using collectHeaders_loop [of "u64_range a b" headers m a] assms
  unfolding headers_agree_def by (auto simp: collectHeaders_def for_up_range)

end
