(* ===== verification/Poller.thy ===== *)
theory Poller
  imports Block_Tracker Poll_Collect
begin

text \<open>
  The poller (\<open>internal/poller/poller.go\<close>, \<open>poll.go\<close>, \<open>poll_policy.go\<close>): its state, constructor
  and setters, and one call of \<open>Poll\<close> with the four stages it runs (\<open>poll\<close>, \<open>pollMissing\<close>,
  \<open>findReorg\<close>, \<open>processResult\<close>). Every definition takes the library functions \<open>L\<close> and, where it
  touches the tracker, the container operations \<open>S\<close>. Logging is not modelled, except where
  evaluating the arguments of a log call can panic. This theory holds the definitions; the
  theory \<open>Poller_Correct\<close> proves what they do.
\<close>

section \<open>State, constructor and setters (poller.go)\<close>

text \<open>A nil slice is \<open>None\<close>, a nil tracker is \<open>None\<close>.\<close>

record ('s, 'c) poller =
  addresses :: "address list option"
  topics :: "hash list list option"
  lastRecordedBlock :: u64
  filterRange :: u64
  client :: "'c eth_client"
  doReorg :: bool
  doHeader :: bool
  p_policy :: policy
  tracker :: "'s blockTracker option"

definition poller_New ::
    "('s, block) sortedset \<Rightarrow> address list option \<Rightarrow> hash list list option \<Rightarrow> bool \<Rightarrow> bool \<Rightarrow> u64 \<Rightarrow>
     'c eth_client \<Rightarrow> policy \<Rightarrow> ('s, 'c) poller" where
  "poller_New S as ts reorg hdr rng cl pol = \<lparr>
     addresses = as, topics = ts, lastRecordedBlock = 0, filterRange = rng, client = cl,
     doReorg = reorg, doHeader = hdr, p_policy = pol,
     tracker = (if reorg then Some (newTracker S ''poller'') else None)\<rparr>"

text \<open>\<open>p.tracker.clearUntil(n)\<close>: the method dereferences its receiver, so a nil tracker panics.\<close>

definition tracker_clearUntil ::
    "('s, block) sortedset \<Rightarrow> u64 \<Rightarrow> ('s, 'c) poller \<Rightarrow> ('s, 'c) poller go" where
  "tracker_clearUntil S n p =
     (case tracker p of
        None \<Rightarrow> nil_call
      | Some t \<Rightarrow> go_bind (clearUntil S t n) (\<lambda>t'. Ret (p\<lparr>tracker := Some t'\<rparr>)))"

definition SetDoReorg :: "('s, block) sortedset \<Rightarrow> bool \<Rightarrow> ('s, 'c) poller \<Rightarrow> ('s, 'c) poller go" where
  "SetDoReorg S reorg p =
     (if doReorg p then
        (if reorg then Ret p
         else go_bind (tracker_clearUntil S (lastRecordedBlock p) p)
                (\<lambda>p'. Ret (p'\<lparr>tracker := None, doReorg := reorg\<rparr>)))
      else
        (if \<not> reorg then Ret p
         else Ret (p\<lparr>tracker := (case tracker p of None \<Rightarrow> Some (newTracker S ''poller'') | Some t \<Rightarrow> Some t),
                     doReorg := reorg\<rparr>)))"

definition DoReorg :: "('s, 'c) poller \<Rightarrow> bool" where
  "DoReorg p = doReorg p"

definition SetDoHeader :: "bool \<Rightarrow> ('s, 'c) poller \<Rightarrow> ('s, 'c) poller" where
  "SetDoHeader hdr p = p\<lparr>doHeader := hdr\<rparr>"

definition DoHeader :: "('s, 'c) poller \<Rightarrow> bool" where
  "DoHeader p = doHeader p"

definition Addresses :: "('s, 'c) poller \<Rightarrow> address list option" where
  "Addresses p = addresses p"

definition Topics :: "('s, 'c) poller \<Rightarrow> hash list list option" where
  "Topics p = topics p"

text \<open>The length and the elements of a slice that may be nil.\<close>

definition slice :: "'a list option \<Rightarrow> 'a list" where
  "slice xs = (case xs of None \<Rightarrow> [] | Some ys \<Rightarrow> ys)"

definition AddAddresses :: "address list option \<Rightarrow> ('s, 'c) poller \<Rightarrow> ('s, 'c) poller" where
  "AddAddresses as p =
     (if length (slice (addresses p)) = 0 then p\<lparr>addresses := as\<rparr>
      else p\<lparr>addresses := Some (slice (addresses p) @ slice as)\<rparr>)"

definition AddTopics :: "hash list list option \<Rightarrow> ('s, 'c) poller \<Rightarrow> ('s, 'c) poller" where
  "AddTopics ts p =
     (if length (slice (topics p)) = 0 then p\<lparr>topics := ts\<rparr>
      else p\<lparr>topics := Some (slice (topics p) @ slice ts)\<rparr>)"

definition SetAddresses :: "address list option \<Rightarrow> ('s, 'c) poller \<Rightarrow> ('s, 'c) poller" where
  "SetAddresses as p = p\<lparr>addresses := as\<rparr>"

definition SetTopics :: "hash list list option \<Rightarrow> ('s, 'c) poller \<Rightarrow> ('s, 'c) poller" where
  "SetTopics ts p = p\<lparr>topics := ts\<rparr>"

definition SetPolicy :: "policy \<Rightarrow> ('s, 'c) poller \<Rightarrow> err \<times> ('s, 'c) poller" where
  "SetPolicy level p = (Some (ErrNew ''poller.SetPolicy not implemented''), p)"

definition poller_Policy :: "('s, 'c) poller \<Rightarrow> policy" where
  "poller_Policy p = p_policy p"

section \<open>Fetching (poll_policy.go)\<close>

record poll_param =
  fromBlock :: u64
  toBlock :: u64
  policy :: policy

definition poll_query :: "u64 \<Rightarrow> u64 \<Rightarrow> address list option \<Rightarrow> hash list list option \<Rightarrow> filter_query" where
  "poll_query a b as ts = \<lparr>q_FromBlock = Some (sint a), q_ToBlock = Some (sint b), q_Addresses = as, q_Topics = ts\<rparr>"

text \<open>
  What both fetchers do with a collector's error: results whose hashes differ are returned
  with the error, on any other error there are no results.
\<close>

definition collect_failed ::
    "string \<Rightarrow> go_error \<Rightarrow> poll_results \<Rightarrow> poll_results option \<times> err" where
  "collect_failed msg e m =
     (if errors_Is e errHashesDiffer then (Some m, Some e) else (None, Some (ErrWrap e msg)))"

text \<open>
  \<open>blockNumbers\<close> of \<open>pollExpensive\<close>: a slice of \<open>toBlock - fromBlock + 1\<close> elements filled by a
  counting loop; writing past its end panics, and so does making one of a length that a
  wrapped subtraction gave.
\<close>

definition expensive_block_numbers :: "u64 \<Rightarrow> u64 \<Rightarrow> u64 list go" where
  "expensive_block_numbers a b =
     (let numBlocks = b - a + 1 in
      if b < a then (if numBlocks = 0 then Ret [] else Panic ''makeslice: len out of range'')
      else go_bind (go_loop (for_up (\<lambda>n ns. if unat numBlocks \<le> length ns
                                            then Inl (Panic ''index out of range'')
                                            else Inr (ns @ [n])) a b []))
             (\<lambda>r. case r of Inl x \<Rightarrow> x | Inr ns \<Rightarrow> Ret ns))"

text \<open>
  The two goroutines of \<open>pollExpensive\<close> may call the client in either order: the first argument
  says whether the logs are fetched first.
\<close>

definition fetch_concurrently ::
    "bool \<Rightarrow> lib \<Rightarrow> 'c eth_client \<Rightarrow> filter_query \<Rightarrow> u64 list \<Rightarrow> 'c \<Rightarrow>
     ((eth_log list \<times> (u64 \<times> block_header) list \<times> go_error list) \<times> 'c) go" where
  "fetch_concurrently logs_first L cl q ns s =
     (let logs_err = (\<lambda>e. case e of None \<Rightarrow> [] | Some _ \<Rightarrow> [ErrWrap ErrFetchError ''filterLogs returned error'']);
          hdrs_err = (\<lambda>e. case e of None \<Rightarrow> [] | Some x \<Rightarrow> [ErrWrap x ''getHeadersByNumbers returned error''])
      in if logs_first then
           go_bind (ec_FilterLogs cl q s) (\<lambda>((logs, e1), s1).
             go_bind (getHeadersByNumbers L cl ns s1) (\<lambda>((hs, e2), s2).
               Ret ((logs, hs, logs_err e1 @ hdrs_err e2), s2)))
         else
           go_bind (getHeadersByNumbers L cl ns s) (\<lambda>((hs, e2), s1).
             go_bind (ec_FilterLogs cl q s1) (\<lambda>((logs, e1), s2).
               Ret ((logs, hs, hdrs_err e2 @ logs_err e1), s2))))"

definition pollExpensive ::
    "bool \<Rightarrow> lib \<Rightarrow> u64 \<Rightarrow> u64 \<Rightarrow> address list option \<Rightarrow> hash list list option \<Rightarrow>
     'c eth_client \<Rightarrow> poll_results \<Rightarrow> 'c \<Rightarrow> ((poll_results option \<times> err) \<times> 'c) go" where
  "pollExpensive logs_first L a b as ts cl m s =
     go_bind (expensive_block_numbers a b) (\<lambda>blockNumbers.
     go_bind (fetch_concurrently logs_first L cl (poll_query a b as ts) blockNumbers s) (\<lambda>((logs, headers, es), s').
       case WaitAndCollectErrors L es of
         Some e \<Rightarrow> Ret ((None, Some (ErrWrap e ''concurrent fetch error'')), s')
       | None \<Rightarrow>
           if length blockNumbers \<noteq> length headers
           then Ret ((None, Some (ErrWrap ErrFetchError ''headers and blockNumbers length not matched'')), s')
           else case collectLogs m logs of
                  ((_, Some e), m1) \<Rightarrow> Ret (collect_failed ''collectLogs found error'' e m1, s')
                | ((_, None), m1) \<Rightarrow>
                    go_bind (collectHeaders m1 a b headers) (\<lambda>((_, e), m2).
                      case e of
                        Some x \<Rightarrow> Ret (collect_failed ''collectHeaders found error'' x m2, s')
                      | None \<Rightarrow> Ret ((Some m2, None), s'))))"

definition pollCheap ::
    "lib \<Rightarrow> u64 \<Rightarrow> u64 \<Rightarrow> address list option \<Rightarrow> hash list list option \<Rightarrow>
     'c eth_client \<Rightarrow> poll_results \<Rightarrow> 'c \<Rightarrow> ((poll_results option \<times> err) \<times> 'c) go" where
  "pollCheap L a b as ts cl m s =
     go_bind (ec_FilterLogs cl (poll_query a b as ts) s) (\<lambda>((logs, e), s1).
       if e \<noteq> None then Ret ((None, Some (ErrWrap ErrFetchError ''%s'')), s1)
       else case collectLogs m logs of
         ((_, Some x), m1) \<Rightarrow> Ret (collect_failed ''collectLogs error'' x m1, s1)
       | ((_, None), m1) \<Rightarrow>
           go_bind (go_loop (for_up (\<lambda>n ts. Inr (if m1 n = None then ts else ts @ [n])) a b []))
             (\<lambda>r. let targetBlocks = (case r of Inl x \<Rightarrow> x | Inr ts \<Rightarrow> ts) in
           go_bind (getHeadersByNumbers L cl targetBlocks s1) (\<lambda>((headers, e2), s2).
             if e2 \<noteq> None
             then Ret ((None, Some (ErrWrap ErrFetchError ''failed to get headers for resultBlocks'')), s2)
             else go_bind (collectHeaders m1 a b headers) (\<lambda>((_, e3), m2).
               case e3 of
                 Some x \<Rightarrow> Ret (collect_failed ''collectHeaders error'' x m2, s2)
               | None \<Rightarrow> Ret ((Some m2, None), s2)))))"

section \<open>The stages of a poll (poll.go)\<close>

definition poll ::
    "bool \<Rightarrow> lib \<Rightarrow> poll_param \<Rightarrow> address list option \<Rightarrow> hash list list option \<Rightarrow>
     'c eth_client \<Rightarrow> 'c \<Rightarrow> ((poll_results option \<times> err) \<times> 'c) go" where
  "poll logs_first L param as ts cl s =
     (if policy param \<ge> PolicyExpensiveBlock
      then Ret ((None, Some (ErrNew ''PolicyExpensiveBlock not implemented'')), s)
      else if policy param = PolicyExpensive
      then pollExpensive logs_first L (fromBlock param) (toBlock param) as ts cl Map.empty s
      else if policy param \<le> PolicyNormal
      then pollCheap L (fromBlock param) (toBlock param) as ts cl Map.empty s
      else Panic ''invalid policy: user error'')"

definition find_missing ::
    "('s, block) sortedset \<Rightarrow> 's blockTracker \<Rightarrow> poll_results \<Rightarrow> u64 \<Rightarrow> u64 list \<Rightarrow> u64 list + u64 list" where
  "find_missing S t m n missing =
     (if getTrackerBlock S t n = None then Inr missing
      else if m n \<noteq> None then Inr missing
      else Inr (missing @ [n]))"

definition pollMissing ::
    "('s, block) sortedset \<Rightarrow> lib \<Rightarrow> poll_param \<Rightarrow> 'c eth_client \<Rightarrow> 's blockTracker option \<Rightarrow> poll_results \<Rightarrow> 'c \<Rightarrow>
     ((poll_results option \<times> u64 list \<times> err) \<times> 'c) go" where
  "pollMissing S L param cl trk m s =
     (case trk of
        None \<Rightarrow> Ret ((Some m, [], None), s)
      | Some t \<Rightarrow>
          go_bind (go_loop (for_down (find_missing S t m) (toBlock param) (fromBlock param) [])) (\<lambda>r.
            let blocksMissing = (case r of Inl x \<Rightarrow> x | Inr ns \<Rightarrow> ns) in
            if length blocksMissing = 0 then Ret ((Some m, blocksMissing, None), s)
            else go_bind (getHeadersByNumbers L cl blocksMissing s) (\<lambda>((headers, e), s1).
              if e \<noteq> None
              then Ret ((None, blocksMissing, Some (ErrWrap ErrFetchError ''failed to get block headers in mapLogsNg'')), s1)
              else if length headers \<noteq> length blocksMissing
              then Ret ((None, blocksMissing, Some (ErrWrap ErrFetchError ''expecting %d headers, got %d'')), s1)
              else go_bind (collectHeaders m (fromBlock param) (toBlock param) headers) (\<lambda>((_, e2), m2).
                case e2 of
                  Some x \<Rightarrow>
                    if errors_Is x errHashesDiffer then Ret ((Some m2, blocksMissing, Some x), s1)
                    else Ret ((None, [], Some (ErrWrap x ''collectHeaders error'')), s1)
                | None \<Rightarrow> Ret ((Some m2, blocksMissing, None), s1)))))"

text \<open>One round of the loop of \<open>findReorg\<close>.\<close>

definition findReorg_body ::
    "('s, block) sortedset \<Rightarrow> lib \<Rightarrow> u64 list \<Rightarrow> 's blockTracker \<Rightarrow> u64 \<Rightarrow> poll_results \<Rightarrow> go_error + poll_results" where
  "findReorg_body S L blocksMissing t n m =
     (case getTrackerBlock S t n of
        None \<Rightarrow> Inr m
      | Some trackerBlock \<Rightarrow>
          (case m n of
             None \<Rightarrow> Inl (ErrWrap ErrProcessReorg ''pollResult missing for trackerBlock %d'')
           | Some pollResult \<Rightarrow>
               if Hash trackerBlock = Hash (res_Block pollResult) \<and>
                  length (Logs trackerBlock) = length (Logs (res_Block pollResult))
               then Inr m
               else let pollResult' =
                          (if gsl_Contains_u64 L blocksMissing n
                           then pollResult\<lparr>res_Block := (res_Block pollResult)\<lparr>LogsMigrated := True\<rparr>\<rparr>
                           else pollResult)
                    in Inr (m(n \<mapsto> pollResult'\<lparr>forked := True\<rparr>))))"

definition findReorg ::
    "('s, block) sortedset \<Rightarrow> lib \<Rightarrow> poll_param \<Rightarrow> u64 list \<Rightarrow> 's blockTracker option \<Rightarrow> poll_results \<Rightarrow>
     (poll_results option \<times> err) go" where
  "findReorg S L param blocksMissing trk m =
     (case trk of
        None \<Rightarrow> Ret (Some m, None)
      | Some t \<Rightarrow>
          go_bind (go_loop (for_up (findReorg_body S L blocksMissing t) (fromBlock param) (toBlock param) m))
            (\<lambda>r. case r of Inl e \<Rightarrow> Ret (None, Some e) | Inr m' \<Rightarrow> Ret (Some m', None)))"

definition handleBlocksMissingPolicy ::
    "('s, block) sortedset \<Rightarrow> u64 \<Rightarrow> 's blockTracker \<Rightarrow> block \<Rightarrow> hash \<Rightarrow> policy \<Rightarrow> err \<times> 's blockTracker" where
  "handleBlocksMissingPolicy S number t trackerBlock freshHash pol =
     (if pol = PolicyFast then
        (case removeBlock S t number of
           (Some e, t') \<Rightarrow> (Some (ErrWrap ErrProcessReorg ''%s''), t')
         | (None, t') \<Rightarrow> (None, t'))
      else (None, addTrackerBlock S t (trackerBlock\<lparr>Hash := freshHash, Logs := []\<rparr>)))"

definition addTrackerBlockPolicy ::
    "('s, block) sortedset \<Rightarrow> 's blockTracker option \<Rightarrow> block \<Rightarrow> policy \<Rightarrow> 's blockTracker option" where
  "addTrackerBlockPolicy S trk b pol =
     (case trk of
        None \<Rightarrow> None
      | Some t \<Rightarrow>
          if pol = PolicyFast \<and> length (Logs b) = 0 then Some t
          else Some (addTrackerBlock S t b))"

text \<open>
  One round of the loop of \<open>processResult\<close>. The branch for a forked block that the tracker does
  not hold logs \<open>trackerBlock.String()\<close> of a nil pointer before it returns, so it panics.
\<close>

definition processResult_body ::
    "('s, block) sortedset \<Rightarrow> poll_param \<Rightarrow> poll_results \<Rightarrow> u64 \<Rightarrow> 's blockTracker option \<times> poller_result \<Rightarrow>
     (err \<times> 's blockTracker option) go + ('s blockTracker option \<times> poller_result)" where
  "processResult_body S param m number st =
     (let (trk, result) = st in
      case m number of
        None \<Rightarrow> Inr (trk, result)
      | Some pollResult \<Rightarrow>
          let good = (\<lambda>(trk', result').
                let freshBlock = res_Block pollResult
                in Inr (addTrackerBlockPolicy S trk' freshBlock (policy param),
                        result'\<lparr>GoodBlocks := GoodBlocks result' @ [freshBlock]\<rparr>))
          in (case (forked pollResult, trk) of
                (True, Some t) \<Rightarrow>
                  (case getTrackerBlock S t number of
                     None \<Rightarrow> Inl nil_call
                   | Some trackerBlock \<Rightarrow>
                       let freshHash = Hash (res_Block pollResult);
                           result1 = result\<lparr>ReorgedBlocks := ReorgedBlocks result @ [trackerBlock]\<rparr>
                       in if LogsMigrated (res_Block pollResult)
                          then (case handleBlocksMissingPolicy S number t trackerBlock freshHash (policy param) of
                                  (Some e, t') \<Rightarrow> Inl (Ret (Some (ErrWrap ErrProcessReorg ''%s''), Some t'))
                                | (None, t') \<Rightarrow> good (Some t', result1))
                          else good (trk, result1))
              | _ \<Rightarrow> good (trk, result)))"

definition processResult ::
    "('s, block) sortedset \<Rightarrow> poll_param \<Rightarrow> 's blockTracker option \<Rightarrow> poll_results \<Rightarrow>
     ((poller_result option \<times> err) \<times> 's blockTracker option) go" where
  "processResult S param trk m =
     go_bind (go_loop (for_up (processResult_body S param m) (fromBlock param) (toBlock param) (trk, new_PollerResult)))
       (\<lambda>r. case r of
          Inl x \<Rightarrow> go_bind x (\<lambda>(e, trk'). Ret ((None, e), trk'))
        | Inr (trk', result) \<Rightarrow> Ret ((Some result, None), trk'))"

section \<open>Poll\<close>

text \<open>A nil map reads as an empty one.\<close>

definition map_value :: "poll_results option \<Rightarrow> poll_results" where
  "map_value m = (case m of None \<Rightarrow> Map.empty | Some x \<Rightarrow> x)"

text \<open>The second half of \<open>Poll\<close>, once all data are fetched.\<close>

definition Poll_process ::
    "('s, block) sortedset \<Rightarrow> lib \<Rightarrow> poll_param \<Rightarrow> u64 list \<Rightarrow> poll_results \<Rightarrow> ('s, 'c) poller \<Rightarrow>
     ((poller_result option \<times> err) \<times> ('s, 'c) poller) go" where
  "Poll_process S L param blocksMissing m2 p =
     go_bind (findReorg S L param blocksMissing (tracker p) m2) (\<lambda>(m3, e3).
       if e3 \<noteq> None then Ret ((None, e3), p) else
     go_bind (processResult S param (tracker p) (map_value m3)) (\<lambda>((res, e4), trk').
       let p2 = p\<lparr>tracker := trk'\<rparr> in
       if e4 \<noteq> None then Ret ((res, e4), p2) else
       case res of None \<Rightarrow> nil_call | Some result \<Rightarrow>
       let r1 = result\<lparr>FromBlock := fromBlock param, ToBlock := toBlock param\<rparr>;
           r2 = r1\<lparr>res_LastGoodBlock := LastGoodBlock r1\<rparr>;
           p3 = p2\<lparr>lastRecordedBlock := res_LastGoodBlock r2\<rparr>
       in (case map_value m3 (fromBlock param) of
             Some fromBlockResult \<Rightarrow>
               if forked fromBlockResult \<and> doReorg p3
               then Ret ((Some r2, Some (ErrWrap ErrFromBlockReorged ''fromBlock %d was removed/reorged'')), p3)
               else Ret ((Some r2, None), p3)
           | None \<Rightarrow> Ret ((Some r2, None), p3))))"

definition Poll ::
    "bool \<Rightarrow> ('s, block) sortedset \<Rightarrow> lib \<Rightarrow> u64 \<Rightarrow> u64 \<Rightarrow> ('s, 'c) poller \<Rightarrow> 'c \<Rightarrow>
     (((poller_result option \<times> err) \<times> ('s, 'c) poller) \<times> 'c) go" where
  "Poll logs_first S L a b p s =
     go_bind (if tracker p \<noteq> None \<or> lastRecordedBlock p \<noteq> 0
              then tracker_clearUntil S (lastRecordedBlock p - filterRange p) p
              else Ret p) (\<lambda>p1.
     let param = \<lparr>fromBlock = a, toBlock = b, policy = p_policy p1\<rparr> in
     go_bind (poll logs_first L param (addresses p1) (topics p1) (client p1) s) (\<lambda>((m1, e1), s1).
       if e1 \<noteq> None then Ret (((None, e1), p1), s1) else
     go_bind (pollMissing S L param (client p1) (tracker p1) (map_value m1) s1) (\<lambda>((m2, blocksMissing, e2), s2).
       if e2 \<noteq> None then Ret (((None, e2), p1), s2) else
     go_bind (Poll_process S L param blocksMissing (map_value m2) p1) (\<lambda>r. Ret (r, s2)))))"

end
