(* ===== verification/Poller_Correct.thy ===== *)
theory Poller_Correct
  imports Poller
begin

text \<open>
  What one call of \<open>Poll\<close> does, stage by stage, over any container and library that keep their
  promises (the locale \<open>poller_env\<close>), and the properties of whole polls and of sequences of
  polls that follow.
\<close>

section \<open>The stages\<close>

text \<open>Results as the fetchers leave them: filed under their number, not marked in any way.\<close>

definition results_fresh :: "poll_results \<Rightarrow> bool" where
  "results_fresh m \<longleftrightarrow> (\<forall>n r. m n = Some r \<longrightarrow>
     Number (res_Block r) = n \<and> \<not> forked r \<and> \<not> LogsMigrated (res_Block r))"

lemma results_fresh_group: "results_fresh (group_logs logs)"
  by (auto simp: results_fresh_def dest: group_logs_Some)

lemma results_fresh_add: "results_fresh m \<Longrightarrow> results_fresh (add_headers m ns headers)"
  by (auto simp: results_fresh_def add_headers_def header_result_def split: option.splits if_splits)

text \<open>The tracked block of a number differs from its fresh result.\<close>

definition differs :: "block \<Rightarrow> block \<Rightarrow> bool" where
  "differs old fresh \<longleftrightarrow> Hash old \<noteq> Hash fresh \<or> length (Logs old) \<noteq> length (Logs fresh)"

text \<open>The logs a result holds for a block, and the answer of a node to a log query.\<close>

definition result_logs :: "poll_results \<Rightarrow> u64 \<Rightarrow> eth_log list" where
  "result_logs m n = (case m n of None \<Rightarrow> [] | Some r \<Rightarrow> Logs (res_Block r))"

definition answered :: "'c eth_client \<Rightarrow> filter_query \<Rightarrow> 'c \<Rightarrow> eth_log list \<Rightarrow> bool" where
  "answered cl q s logs \<longleftrightarrow> (\<exists>s'. ec_FilterLogs cl q s = Ret ((logs, None), s'))"

lemma result_logs_group: "result_logs (group_logs logs) n = logs_of n logs"
  by (simp add: result_logs_def group_logs_def split: list.split)

lemma result_logs_add: "result_logs (add_headers m ns headers) n = result_logs m n"
  by (auto simp: result_logs_def add_headers_def header_result_def split: option.split)

text \<open>What \<open>findReorg\<close> marks: exactly the results that differ from the tracked block.\<close>

definition mark :: "u64 list \<Rightarrow> (u64 \<Rightarrow> block option) \<Rightarrow> u64 list \<Rightarrow> poll_results \<Rightarrow> poll_results" where
  "mark bm old ns m n =
     (case (old n, m n) of
        (Some tb, Some r) \<Rightarrow>
          if n \<in> set ns \<and> differs tb (res_Block r)
          then Some (r\<lparr>forked := True, res_Block := (res_Block r)\<lparr>LogsMigrated := LogsMigrated (res_Block r) \<or> n \<in> set bm\<rparr>\<rparr>)
          else Some r
      | _ \<Rightarrow> m n)"

text \<open>The tracker entry of a block after its result was processed.\<close>

definition tracked_after :: "policy \<Rightarrow> mapLogsResult \<Rightarrow> block option \<Rightarrow> block option" where
  "tracked_after pol r old =
     (if pol = PolicyFast \<and> Logs (res_Block r) = []
      then (if forked r \<and> LogsMigrated (res_Block r) then None else old)
      else Some (res_Block r))"

text \<open>What a poller knows of a block when it starts to poll, once old blocks are cleared.\<close>

definition watched :: "('s, block) sortedset \<Rightarrow> ('s, 'c) poller \<Rightarrow> u64 \<Rightarrow> block option" where
  "watched S p n =
     (case tracker p of
        None \<Rightarrow> None
      | Some t \<Rightarrow> if sint (lastRecordedBlock p - filterRange p) < sint n then getTrackerBlock S t n else None)"

locale poller_env = block_tracker S ss_map ss_ok + lib_spec L
  for S :: "('s, block) sortedset" and ss_map and ss_ok and L :: lib
begin

definition missing :: "'s blockTracker \<Rightarrow> poll_results \<Rightarrow> u64 \<Rightarrow> u64 \<Rightarrow> u64 list" where
  "missing t m a b = filter (\<lambda>n. getTrackerBlock S t n \<noteq> None \<and> m n = None) (rev (u64_range a b))"

lemma find_missing_loop:
  "for_each (find_missing S t m) ns acc =
   Inr (acc @ filter (\<lambda>n. getTrackerBlock S t n \<noteq> None \<and> m n = None) ns)"
  by (induction ns arbitrary: acc) (auto simp: find_missing_def)

lemma for_down_missing:
  "0 < a \<Longrightarrow> for_down (find_missing S t m) b a [] = Some (Inr (missing t m a b))"
  by (simp add: for_down_range find_missing_loop missing_def)

lemma missing_set:
  "n \<in> set (missing t m a b) \<longleftrightarrow> a \<le> n \<and> n \<le> b \<and> getTrackerBlock S t n \<noteq> None \<and> m n = None"
  by (auto simp: missing_def set_u64_range)

text \<open>
  After \<open>pollMissing\<close> succeeds every tracked block of the range has a result: the ones that lost
  all their logs got an empty one from their header.
\<close>

lemma pollMissing_ok:
  assumes "pollMissing S L \<lparr>fromBlock = a, toBlock = b, policy = pol\<rparr> cl (Some t) m s = Ret ((m2, bm, None), s')"
    "0 < a" "b \<noteq> - 1" "results_fresh m"
  shows "\<exists>m'. m2 = Some m' \<and> bm = missing t m a b \<and> results_fresh m' \<and>
    (\<forall>n r. m n = Some r \<longrightarrow> m' n = Some r) \<and>
    (\<forall>n. a \<le> n \<and> n \<le> b \<and> getTrackerBlock S t n \<noteq> None \<longrightarrow> m' n \<noteq> None) \<and>
    (\<forall>n r. m n = None \<longrightarrow> m' n = Some r \<longrightarrow> n \<in> set bm \<and> Logs (res_Block r) = [])"
proof (cases "missing t m a b = []")
  case True
  then have none: "\<And>n. a \<le> n \<Longrightarrow> n \<le> b \<Longrightarrow> getTrackerBlock S t n \<noteq> None \<Longrightarrow> m n \<noteq> None"
    using missing_set by (metis empty_iff list.set(1))
  have "m2 = Some m" "bm = []"
    using assms(1,2) True by (auto simp: pollMissing_def for_down_missing)
  then show ?thesis using none assms(4) True by auto
next
  case False
  from False assms(1,2) obtain headers s1 l e2 mm
    where h: "getHeadersByNumbers L cl (missing t m a b) s = Ret ((headers, None), s1)"
    and c: "collectHeaders m a b headers = Ret ((l, e2), mm)"
    and bm: "bm = missing t m a b" and e2: "e2 = None" and mm: "m2 = Some mm"
    by (simp add: pollMissing_def for_down_missing Let_def go_bind_Ret_iff split: if_splits prod.splits)
      (auto split: option.splits if_splits, metis option.exhaust)
  have keys: "fst ` set headers = set bm" using getHeadersByNumbers_keys(2) [OF h] bm by simp
  have agree: "headers_agree m a b headers"
  proof (rule ccontr)
    assume "\<not> headers_agree m a b headers"
    then obtain n e m' where "collectHeaders m a b headers = Ret ((n, Some e), m')" "errors_Is e errHashesDiffer"
      using collectHeaders_disagree [OF assms(3)] by blast
    then show False using c e2 by simp
  qed
  then have m2: "m2 = Some (add_headers m (u64_range a b) headers)"
    using collectHeaders_ok [OF assms(3)] c mm by fastforce
  have hdom: "map_of headers n \<noteq> None \<longleftrightarrow> n \<in> set bm" for n
    using keys by (metis map_of_eq_None_iff)
  have "m' n \<noteq> None" if "a \<le> n" "n \<le> b" "getTrackerBlock S t n \<noteq> None" "m' = add_headers m (u64_range a b) headers" for n m'
    using that hdom [of n] bm missing_set [of n t m a b]
    by (cases "m n") (auto simp: add_headers_def set_u64_range)
  moreover have "n \<in> set bm \<and> Logs (res_Block r) = []"
    if "m n = None" "add_headers m (u64_range a b) headers n = Some r" for n r
    using that hdom [of n] by (auto simp: add_headers_def header_result_def split: if_splits)
  ultimately show ?thesis using m2 bm results_fresh_add [OF assms(4)]
    by (auto simp: add_headers_def)
qed

lemma mark_step:
  assumes "getTrackerBlock S t n \<noteq> None \<Longrightarrow> m n \<noteq> None"
  shows "findReorg_body S L bm t n m = Inr (mark bm (getTrackerBlock S t) [n] m)"
proof (cases "getTrackerBlock S t n")
  case None
  then have "mark bm (getTrackerBlock S t) [n] m = m" by (auto simp: mark_def fun_eq_iff split: option.splits)
  then show ?thesis using None by (simp add: findReorg_body_def)
next
  case (Some tb)
  then obtain r where r: "m n = Some r" using assms by auto
  show ?thesis
  proof (cases "differs tb (res_Block r)")
    case True
    then show ?thesis using Some r
      by (auto simp: findReorg_body_def mark_def differs_def Contains_u64 Let_def fun_eq_iff split: option.splits)
  next
    case False
    then have "mark bm (getTrackerBlock S t) [n] m = m" using Some r by (auto simp: mark_def fun_eq_iff split: option.splits)
    then show ?thesis using False Some r by (simp add: findReorg_body_def differs_def)
  qed
qed

lemma mark_Cons: "n \<notin> set ns \<Longrightarrow> mark bm (getTrackerBlock S t) ns (mark bm (getTrackerBlock S t) [n] m) = mark bm (getTrackerBlock S t) (n # ns) m"
  by (auto simp: mark_def fun_eq_iff split: option.splits if_splits)

lemma mark_None: "mark bm old ns m n = None \<longleftrightarrow> m n = None"
  by (auto simp: mark_def split: option.splits)

lemma findReorg_loop:
  assumes "distinct ns" "\<forall>n\<in>set ns. getTrackerBlock S t n \<noteq> None \<longrightarrow> m n \<noteq> None"
  shows "for_each (findReorg_body S L bm t) ns m = Inr (mark bm (getTrackerBlock S t) ns m)"
  using assms
proof (induction ns arbitrary: m)
  case Nil
  show ?case by (auto simp: mark_def fun_eq_iff split: option.splits)
next
  case (Cons n ns)
  have "findReorg_body S L bm t n m = Inr (mark bm (getTrackerBlock S t) [n] m)"
    by (rule mark_step) (use Cons.prems in auto)
  moreover have "for_each (findReorg_body S L bm t) ns (mark bm (getTrackerBlock S t) [n] m) = Inr (mark bm (getTrackerBlock S t) ns (mark bm (getTrackerBlock S t) [n] m))"
    by (rule Cons.IH) (use Cons.prems in \<open>auto simp: mark_None\<close>)
  ultimately show ?case using Cons.prems mark_Cons [of n ns bm t m] by simp
qed

lemma findReorg_ok:
  assumes "b \<noteq> - 1" "\<forall>n. a \<le> n \<and> n \<le> b \<and> getTrackerBlock S t n \<noteq> None \<longrightarrow> m n \<noteq> None"
  shows "findReorg S L \<lparr>fromBlock = a, toBlock = b, policy = pol\<rparr> bm (Some t) m =
    Ret (Some (mark bm (getTrackerBlock S t) (u64_range a b) m), None)"
  using findReorg_loop [OF distinct_u64_range, of a b t m bm] assms
  by (auto simp: findReorg_def for_up_range set_u64_range)

lemma processResult_step:
  assumes "tracker_ok t" "forked r \<longrightarrow> getTrackerBlock S t n = Some tb" "m n = Some r" "Number (res_Block r) = n"
  shows "\<exists>t'. processResult_body S \<lparr>fromBlock = a, toBlock = b, policy = pol\<rparr> m n (Some t, res) =
      Inr (Some t', res\<lparr>GoodBlocks := GoodBlocks res @ [res_Block r],
                         ReorgedBlocks := ReorgedBlocks res @ (if forked r then [tb] else [])\<rparr>) \<and>
    tracker_ok t' \<and>
    (\<forall>k. getTrackerBlock S t' k = (if k = n then tracked_after pol r (getTrackerBlock S t n) else getTrackerBlock S t k))"
proof -
  have add: "\<exists>t'. addTrackerBlockPolicy S (Some u) (res_Block r) pol = Some t' \<and> tracker_ok t' \<and>
      (\<forall>k. getTrackerBlock S t' k =
        (if k = n \<and> \<not> (pol = PolicyFast \<and> Logs (res_Block r) = []) then Some (res_Block r) else getTrackerBlock S u k))"
    if "tracker_ok u" for u
    using that assms(4) by (auto simp: addTrackerBlockPolicy_def ok_addTrackerBlock get_addTrackerBlock)
  show ?thesis
  proof (cases "forked r")
    case False
    then show ?thesis using add [OF assms(1)] assms(3)
      by (auto simp: processResult_body_def tracked_after_def)
  next
    case fk: True
    then have tb: "getTrackerBlock S t n = Some tb" using assms(2) by simp
    show ?thesis
    proof (cases "LogsMigrated (res_Block r)")
      case False
      then show ?thesis using add [OF assms(1)] assms(3) fk tb
        by (auto simp: processResult_body_def tracked_after_def Let_def)
    next
      case lm: True
      let ?h = "handleBlocksMissingPolicy S n t tb (Hash (res_Block r)) pol"
      have num: "Number tb = n" using get_Number [OF assms(1) tb] .
      have h: "fst ?h = None \<and> tracker_ok (snd ?h) \<and>
          (\<forall>k. k \<noteq> n \<longrightarrow> getTrackerBlock S (snd ?h) k = getTrackerBlock S t k) \<and>
          (pol = PolicyFast \<longrightarrow> getTrackerBlock S (snd ?h) n = None)"
      proof (cases "pol = PolicyFast")
        case True
        then show ?thesis
          using ok_removeBlock [OF assms(1), of n] get_removeBlock [OF assms(1), of n] removeBlock_err [OF assms(1), of n] tb
          by (cases "removeBlock S t n") (auto simp: handleBlocksMissingPolicy_def split: option.splits)
      next
        case False
        then show ?thesis using assms(1) num
          by (simp add: handleBlocksMissingPolicy_def ok_addTrackerBlock get_addTrackerBlock)
      qed
      obtain u where u: "?h = (None, u)" using h by (cases ?h) auto
      then have hu: "tracker_ok u" "\<And>k. k \<noteq> n \<Longrightarrow> getTrackerBlock S u k = getTrackerBlock S t k"
          "pol = PolicyFast \<Longrightarrow> getTrackerBlock S u n = None"
        using h by auto
      obtain t' where t': "addTrackerBlockPolicy S (Some u) (res_Block r) pol = Some t'" "tracker_ok t'"
          "\<And>k. getTrackerBlock S t' k =
            (if k = n \<and> \<not> (pol = PolicyFast \<and> Logs (res_Block r) = []) then Some (res_Block r) else getTrackerBlock S u k)"
        using add [OF hu(1)] by blast
      have "getTrackerBlock S t' k = (if k = n then tracked_after pol r (getTrackerBlock S t n) else getTrackerBlock S t k)" for k
        using t'(3) [of k] hu(2) [of k] hu(3) fk lm by (auto simp: tracked_after_def)
      then show ?thesis using t'(1,2) u fk lm tb assms(3)
        by (auto simp: processResult_body_def Let_def)
    qed
  qed
qed

lemma processResult_loop:
  assumes "distinct ns" "tracker_ok t"
    "\<forall>n\<in>set ns. \<forall>r. m n = Some r \<longrightarrow> Number (res_Block r) = n \<and> (forked r \<longrightarrow> getTrackerBlock S t n \<noteq> None)"
  shows "\<exists>t'. for_each (processResult_body S \<lparr>fromBlock = a, toBlock = b, policy = pol\<rparr> m) ns (Some t, res) =
      Inr (Some t', res\<lparr>GoodBlocks := GoodBlocks res @ map (\<lambda>n. res_Block (the (m n))) (filter (\<lambda>n. m n \<noteq> None) ns),
         ReorgedBlocks := ReorgedBlocks res @ map (\<lambda>n. the (getTrackerBlock S t n)) (filter (\<lambda>n. \<exists>r. m n = Some r \<and> forked r) ns)\<rparr>) \<and>
    tracker_ok t' \<and>
    (\<forall>k. getTrackerBlock S t' k =
       (case m k of Some r \<Rightarrow> if k \<in> set ns then tracked_after pol r (getTrackerBlock S t k) else getTrackerBlock S t k
                  | None \<Rightarrow> getTrackerBlock S t k))"
  using assms
proof (induction ns arbitrary: t res)
  case Nil
  then show ?case by (auto split: option.splits)
next
  case (Cons n ns)
  show ?case
  proof (cases "m n")
    case None
    then have "processResult_body S \<lparr>fromBlock = a, toBlock = b, policy = pol\<rparr> m n (Some t, res) = Inr (Some t, res)"
      by (simp add: processResult_body_def)
    then show ?thesis using Cons.IH [of t res] Cons.prems None by (fastforce split: option.splits)
  next
    case (Some r)
    then have r: "Number (res_Block r) = n" "forked r \<longrightarrow> getTrackerBlock S t n = Some (the (getTrackerBlock S t n))"
      using Cons.prems(3) by auto
    let ?res = "res\<lparr>GoodBlocks := GoodBlocks res @ [res_Block r],
        ReorgedBlocks := ReorgedBlocks res @ (if forked r then [the (getTrackerBlock S t n)] else [])\<rparr>"
    obtain t1 where t1: "processResult_body S \<lparr>fromBlock = a, toBlock = b, policy = pol\<rparr> m n (Some t, res) = Inr (Some t1, ?res)"
        "tracker_ok t1"
        "\<And>k. getTrackerBlock S t1 k = (if k = n then tracked_after pol r (getTrackerBlock S t n) else getTrackerBlock S t k)"
      using processResult_step [where tb = "the (getTrackerBlock S t n)" and m = m and n = n, OF Cons.prems(2) r(2) Some r(1)] by blast
    have same: "getTrackerBlock S t1 k = getTrackerBlock S t k" if "k \<in> set ns" for k
      using t1(3) [of k] Cons.prems(1) that by auto
    have prem: "\<forall>n\<in>set ns. \<forall>r. m n = Some r \<longrightarrow> Number (res_Block r) = n \<and> (forked r \<longrightarrow> getTrackerBlock S t1 n \<noteq> None)"
      using Cons.prems(3) same by auto
    obtain t' where t': "for_each (processResult_body S \<lparr>fromBlock = a, toBlock = b, policy = pol\<rparr> m) ns (Some t1, ?res) =
      Inr (Some t', ?res\<lparr>GoodBlocks := GoodBlocks ?res @ map (\<lambda>n. res_Block (the (m n))) (filter (\<lambda>n. m n \<noteq> None) ns),
         ReorgedBlocks := ReorgedBlocks ?res @ map (\<lambda>n. the (getTrackerBlock S t1 n)) (filter (\<lambda>n. \<exists>r. m n = Some r \<and> forked r) ns)\<rparr>)"
      "tracker_ok t'" "\<And>k. getTrackerBlock S t' k =
       (case m k of Some r \<Rightarrow> if k \<in> set ns then tracked_after pol r (getTrackerBlock S t1 k) else getTrackerBlock S t1 k
                  | None \<Rightarrow> getTrackerBlock S t1 k)"
      using Cons.IH [OF _ t1(2) prem, of ?res] Cons.prems(1) by (fastforce)
    have old: "map (\<lambda>n. the (getTrackerBlock S t1 n)) (filter (\<lambda>n. \<exists>r. m n = Some r \<and> forked r) ns) =
        map (\<lambda>n. the (getTrackerBlock S t n)) (filter (\<lambda>n. \<exists>r. m n = Some r \<and> forked r) ns)"
      using same by auto
    have after: "getTrackerBlock S t' k =
       (case m k of Some r \<Rightarrow> if k \<in> set (n # ns) then tracked_after pol r (getTrackerBlock S t k) else getTrackerBlock S t k
                  | None \<Rightarrow> getTrackerBlock S t k)" for k
      using t'(3) [of k] t1(3) [of k] Some Cons.prems(1) by (auto split: option.splits)
    show ?thesis using t'(1,2) t1(1) Some after by (intro exI [of _ t']) (simp add: old)
  qed
qed

text \<open>
  What fetching gives. Under the cheap policies a result is exactly the logs of one block; under
  \<open>PolicyExpensive\<close> every block of the range has one. No result is marked yet.
\<close>

lemma pollCheap_ok:
  assumes "pollCheap L a b as ts cl Map.empty s = Ret ((m1, None), s1)" "b \<noteq> - 1"
  shows "\<exists>logs s0. ec_FilterLogs cl (poll_query a b as ts) s = Ret ((logs, None), s0) \<and>
    logs_agree logs \<and> m1 = Some (group_logs logs)"
proof -
  from assms(1) obtain logs s0 where logs: "ec_FilterLogs cl (poll_query a b as ts) s = Ret ((logs, None), s0)"
    by (auto simp: pollCheap_def go_bind_Ret_iff split: if_splits)
  have agree: "logs_agree logs"
  proof (rule ccontr)
    assume "\<not> logs_agree logs"
    then obtain n e m where "collectLogs Map.empty logs = ((n, Some e), m)" using collectLogs_disagree by blast
    then show False using assms(1) logs by (auto simp: pollCheap_def collect_failed_def split: if_splits)
  qed
  let ?m = "group_logs logs"
  have ns: "for_up (\<lambda>n ts. Inr (if ?m n = None then ts else ts @ [n])) a b [] =
      Some (Inr (filter (\<lambda>n. ?m n \<noteq> None) (u64_range a b)) :: u64 list + u64 list)"
  proof -
    have "for_each (\<lambda>n ts. Inr (if ?m n = None then ts else ts @ [n])) xs acc =
        (Inr (acc @ filter (\<lambda>n. ?m n \<noteq> None) xs) :: u64 list + u64 list)" for xs acc
      by (induction xs arbitrary: acc) auto
    then show ?thesis using assms(2) by (simp add: for_up_range)
  qed
  from assms(1) obtain headers s2 where
      h: "getHeadersByNumbers L cl (filter (\<lambda>n. ?m n \<noteq> None) (u64_range a b)) s0 = Ret ((headers, None), s2)"
    and c: "go_bind (collectHeaders ?m a b headers) (\<lambda>((_, e3), m2).
        case e3 of Some x \<Rightarrow> Ret (collect_failed ''collectHeaders error'' x m2, s2)
                 | None \<Rightarrow> Ret ((Some m2, None), s2)) = Ret ((m1, None), s1)"
    by (auto simp: pollCheap_def logs collectLogs_ok [OF agree] ns go_bind_Ret_iff Let_def split: if_splits)
  have "headers_agree ?m a b headers"
  proof (rule ccontr)
    assume "\<not> headers_agree ?m a b headers"
    then obtain n e m' where "collectHeaders ?m a b headers = Ret ((n, Some e), m')"
      using collectHeaders_disagree [OF assms(2)] by blast
    then show False using c by (auto simp: collect_failed_def split: if_splits)
  qed
  then obtain l where "collectHeaders ?m a b headers = Ret ((l, None), add_headers ?m (u64_range a b) headers)"
    using collectHeaders_ok [OF assms(2)] by blast
  then have "m1 = Some (add_headers ?m (u64_range a b) headers)" using c by simp
  moreover have "map_of headers n = None" if "?m n = None" for n
    using getHeadersByNumbers_keys(2) [OF h] that by (auto simp: map_of_eq_None_iff)
  then have "add_headers ?m (u64_range a b) headers = ?m"
    by (auto simp: add_headers_def fun_eq_iff split: option.splits)
  ultimately show ?thesis using logs agree by auto
qed

lemma expensive_block_numbers_le:
  assumes "a \<le> b" "b \<noteq> - 1"
  shows "expensive_block_numbers a b = Ret (u64_range a b)"
proof -
  have len: "length (u64_range a b) = unat (b - a + 1)"
    using assms by (rule length_u64_range)
  let ?f = "\<lambda>n ns. if unat (b - a + 1) \<le> length ns then Inl (Panic ''index out of range'') else Inr (ns @ [n])"
  have "for_each ?f xs acc = (Inr (acc @ xs) :: u64 list go + u64 list)"
    if "length acc + length xs \<le> unat (b - a + 1)" for xs acc
    using that by (induction xs arbitrary: acc) auto
  then have "for_each ?f (u64_range a b) [] = (Inr (u64_range a b) :: u64 list go + u64 list)"
    using len by simp
  moreover have "\<not> b < a" using assms(1) by simp
  ultimately show ?thesis using assms(2) by (simp add: expensive_block_numbers_def for_up_range Let_def)
qed

lemma pollExpensive_ok:
  assumes "pollExpensive lf L a b as ts cl Map.empty s = Ret ((m1, None), s1)" "b \<noteq> - 1"
  shows "\<exists>m logs s0. m1 = Some m \<and> results_fresh m \<and> answered cl (poll_query a b as ts) s0 logs \<and>
    (\<forall>n. result_logs m n = logs_of n logs)"
proof -
  from assms obtain ns logs headers es s' where
      f: "fetch_concurrently lf L cl (poll_query a b as ts) ns s = Ret ((logs, headers, es), s')"
    and es: "WaitAndCollectErrors L es = None"
    and c: "(case collectLogs Map.empty logs of
                  ((_, Some e), m1) \<Rightarrow> Ret (collect_failed ''collectLogs found error'' e m1, s')
                | ((_, None), m1) \<Rightarrow>
                    go_bind (collectHeaders m1 a b headers) (\<lambda>((_, e), m2).
                      case e of
                        Some x \<Rightarrow> Ret (collect_failed ''collectHeaders found error'' x m2, s')
                      | None \<Rightarrow> Ret ((Some m2, None), s'))) = Ret ((m1, None), s1)"
    by (auto simp: pollExpensive_def go_bind_Ret_iff split: if_splits option.splits)
  have agree: "logs_agree logs"
  proof (rule ccontr)
    assume "\<not> logs_agree logs"
    then obtain n e m where "collectLogs Map.empty logs = ((n, Some e), m)" using collectLogs_disagree by blast
    then show False using c by (auto simp: collect_failed_def split: if_splits)
  qed
  let ?m = "group_logs logs"
  have "headers_agree ?m a b headers"
  proof (rule ccontr)
    assume "\<not> headers_agree ?m a b headers"
    then obtain n e m' where "collectHeaders ?m a b headers = Ret ((n, Some e), m')"
      using collectHeaders_disagree [OF assms(2)] by blast
    then show False using c by (auto simp: collect_failed_def collectLogs_ok [OF agree] split: if_splits)
  qed
  then obtain l where "collectHeaders ?m a b headers = Ret ((l, None), add_headers ?m (u64_range a b) headers)"
    using collectHeaders_ok [OF assms(2)] by blast
  then have m1: "m1 = Some (add_headers ?m (u64_range a b) headers)" using c by (simp add: collectLogs_ok [OF agree])
  have "es = []" using es Collect_None by simp
  then obtain s0 where "answered cl (poll_query a b as ts) s0 logs"
    using f by (auto simp: fetch_concurrently_def answered_def Let_def go_bind_Ret_iff split: if_splits option.splits)
  then show ?thesis using m1 results_fresh_add [OF results_fresh_group]
    by (auto simp: result_logs_add result_logs_group)
qed

lemma poll_ok:
  assumes "poll lf L \<lparr>fromBlock = a, toBlock = b, policy = pol\<rparr> as ts cl s = Ret ((m1, None), s1)" "b \<noteq> - 1"
  shows "\<exists>m logs s0. m1 = Some m \<and> results_fresh m \<and>
    answered cl (poll_query a b as ts) s0 logs \<and> (\<forall>n. result_logs m n = logs_of n logs) \<and>
    (pol \<le> PolicyNormal \<longrightarrow> s0 = s) \<and> (pol \<le> PolicyNormal \<longrightarrow> (\<forall>n r. m n = Some r \<longrightarrow> Logs (res_Block r) \<noteq> []))"
proof (cases "pol = PolicyExpensive")
  case True
  have "\<not> PolicyExpensiveBlock \<le> PolicyExpensive" using policy_order(3) by (simp add: not_le)
  then have "pollExpensive lf L a b as ts cl Map.empty s = Ret ((m1, None), s1)"
    using True assms(1) by (simp add: poll_def)
  from pollExpensive_ok [OF this assms(2)] obtain m logs s0 where
    "m1 = Some m" "results_fresh m" "answered cl (poll_query a b as ts) s0 logs" "\<forall>n. result_logs m n = logs_of n logs"
    by blast
  moreover have "\<not> pol \<le> PolicyNormal" using True policy_order(2) by (simp add: not_le)
  ultimately show ?thesis by (intro exI [of _ m] exI [of _ logs] exI [of _ s0]) simp
next
  case False
  then have "pollCheap L a b as ts cl Map.empty s = Ret ((m1, None), s1)"
    using assms(1) by (simp add: poll_def split: if_splits)
  from pollCheap_ok [OF this assms(2)] obtain logs where
    "m1 = Some (group_logs logs)" "answered cl (poll_query a b as ts) s logs" by (auto simp: answered_def)
  then show ?thesis using results_fresh_group [of logs] group_logs_Some [of logs]
    by (intro exI [of _ "group_logs logs"] exI [of _ logs] exI [of _ s]) (simp add: result_logs_group)
qed

lemma processResult_ok:
  assumes "b \<noteq> - 1" "tracker_ok t"
    "\<forall>n r. m n = Some r \<longrightarrow> Number (res_Block r) = n \<and> (a \<le> n \<longrightarrow> n \<le> b \<longrightarrow> forked r \<longrightarrow> getTrackerBlock S t n \<noteq> None)"
  shows "\<exists>t'. processResult S \<lparr>fromBlock = a, toBlock = b, policy = pol\<rparr> (Some t) m =
      Ret ((Some (new_PollerResult\<lparr>
          GoodBlocks := map (\<lambda>n. res_Block (the (m n))) (filter (\<lambda>n. m n \<noteq> None) (u64_range a b)),
          ReorgedBlocks := map (\<lambda>n. the (getTrackerBlock S t n)) (filter (\<lambda>n. \<exists>r. m n = Some r \<and> forked r) (u64_range a b))\<rparr>), None), Some t') \<and>
    tracker_ok t' \<and>
    (\<forall>k. getTrackerBlock S t' k =
       (case m k of Some r \<Rightarrow> if a \<le> k \<and> k \<le> b then tracked_after pol r (getTrackerBlock S t k) else getTrackerBlock S t k
                  | None \<Rightarrow> getTrackerBlock S t k))"
proof -
  have prem: "\<forall>n\<in>set (u64_range a b). \<forall>r. m n = Some r \<longrightarrow> Number (res_Block r) = n \<and> (forked r \<longrightarrow> getTrackerBlock S t n \<noteq> None)"
    using assms(3) by (auto simp: set_u64_range)
  obtain t' where loop: "for_each (processResult_body S \<lparr>fromBlock = a, toBlock = b, policy = pol\<rparr> m) (u64_range a b) (Some t, new_PollerResult) =
      Inr (Some t', new_PollerResult\<lparr>
          GoodBlocks := map (\<lambda>n. res_Block (the (m n))) (filter (\<lambda>n. m n \<noteq> None) (u64_range a b)),
          ReorgedBlocks := map (\<lambda>n. the (getTrackerBlock S t n)) (filter (\<lambda>n. \<exists>r. m n = Some r \<and> forked r) (u64_range a b))\<rparr>)"
    and ok: "tracker_ok t'"
    and get: "\<And>k. getTrackerBlock S t' k =
       (case m k of Some r \<Rightarrow> if k \<in> set (u64_range a b) then tracked_after pol r (getTrackerBlock S t k) else getTrackerBlock S t k
                  | None \<Rightarrow> getTrackerBlock S t k)"
    using processResult_loop [OF distinct_u64_range assms(2) prem, of a b pol new_PollerResult]
    by (auto simp: new_PollerResult_def)
  show ?thesis
  proof (intro exI [of _ t'] conjI allI ok)
    show "getTrackerBlock S t' k =
       (case m k of Some r \<Rightarrow> if a \<le> k \<and> k \<le> b then tracked_after pol r (getTrackerBlock S t k) else getTrackerBlock S t k
                  | None \<Rightarrow> getTrackerBlock S t k)" for k
      using get [of k] by (cases "m k") (simp_all add: set_u64_range)
  qed (use loop assms(1) in \<open>simp add: processResult_def for_up_range\<close>)
qed

text \<open>A whole poll, from the stages.\<close>

lemma Poll_clears:
  assumes "tracker p = Some t" "tracker_ok t"
  shows "\<exists>t1. tracker_clearUntil S (lastRecordedBlock p - filterRange p) p = Ret (p\<lparr>tracker := Some t1\<rparr>) \<and>
    tracker_ok t1 \<and> getTrackerBlock S t1 = watched S p"
  using clearUntil_total [OF assms(2), of "lastRecordedBlock p - filterRange p"] assms(1)
  by (auto simp: tracker_clearUntil_def watched_def fun_eq_iff)

definition good_of :: "poll_results \<Rightarrow> u64 \<Rightarrow> u64 \<Rightarrow> block list" where
  "good_of m a b = map (\<lambda>n. res_Block (the (m n))) (filter (\<lambda>n. m n \<noteq> None) (u64_range a b))"

definition reorged_of :: "(u64 \<Rightarrow> block option) \<Rightarrow> poll_results \<Rightarrow> u64 \<Rightarrow> u64 \<Rightarrow> block list" where
  "reorged_of old m a b = map (\<lambda>n. the (old n)) (filter (\<lambda>n. \<exists>r. m n = Some r \<and> forked r) (u64_range a b))"

definition from_forked :: "poll_results \<Rightarrow> u64 \<Rightarrow> bool" where
  "from_forked m a \<longleftrightarrow> (\<exists>r. m a = Some r \<and> forked r)"

definition poll_outcome :: "u64 \<Rightarrow> u64 \<Rightarrow> ('s, 'c) poller \<Rightarrow> poll_results \<Rightarrow> 's blockTracker \<Rightarrow>
    poller_result \<Rightarrow> err \<Rightarrow> ('s, 'c) poller \<Rightarrow> bool" where
  "poll_outcome a b p m t' r e p' \<longleftrightarrow>
     FromBlock r = a \<and> ToBlock r = b \<and> res_LastGoodBlock r = LastGoodBlock r \<and>
     GoodBlocks r = good_of m a b \<and> ReorgedBlocks r = reorged_of (watched S p) m a b \<and>
     p' = p\<lparr>tracker := Some t', lastRecordedBlock := LastGoodBlock r\<rparr> \<and> tracker_ok t' \<and>
     (\<forall>k. getTrackerBlock S t' k =
       (case m k of Some r \<Rightarrow> if a \<le> k \<and> k \<le> b then tracked_after (p_policy p) r (watched S p k) else watched S p k
                  | None \<Rightarrow> watched S p k)) \<and>
     e = (if from_forked m a \<and> doReorg p
          then Some (ErrWrap ErrFromBlockReorged ''fromBlock %d was removed/reorged'') else None)"

lemma mark_fresh:
  assumes "results_fresh m" "mark bm old ns m n = Some r"
  shows "Number (res_Block r) = n" "forked r \<Longrightarrow> old n \<noteq> None"
  using assms by (auto simp: mark_def results_fresh_def split: option.splits if_splits)

lemma Poll_process_ok:
  fixes bm
  assumes "tracker_ok t1" "getTrackerBlock S t1 = watched S p"
    "b \<noteq> - 1" "results_fresh m2"
    "\<forall>n. a \<le> n \<and> n \<le> b \<and> watched S p n \<noteq> None \<longrightarrow> m2 n \<noteq> None"
  defines "m3 \<equiv> mark bm (watched S p) (u64_range a b) m2"
  shows "\<exists>r e p' t'.
    Poll_process S L \<lparr>fromBlock = a, toBlock = b, policy = p_policy p\<rparr> bm m2 (p\<lparr>tracker := Some t1\<rparr>) = Ret ((Some r, e), p') \<and>
    poll_outcome a b p m3 t' r e p'"
proof -
  have f: "findReorg S L \<lparr>fromBlock = a, toBlock = b, policy = p_policy p\<rparr> bm (Some t1) m2 = Ret (Some m3, None)"
    using findReorg_ok [OF assms(3), of a t1 m2 "p_policy p" bm] assms(2,5) by (simp add: m3_def)
  have "\<forall>n r. m3 n = Some r \<longrightarrow> Number (res_Block r) = n \<and> (a \<le> n \<longrightarrow> n \<le> b \<longrightarrow> forked r \<longrightarrow> getTrackerBlock S t1 n \<noteq> None)"
    using mark_fresh [OF assms(4)] assms(2) unfolding m3_def by metis
  from processResult_ok [OF assms(3,1) this, of "p_policy p", unfolded assms(2)] obtain t' where
    pr: "processResult S \<lparr>fromBlock = a, toBlock = b, policy = p_policy p\<rparr> (Some t1) m3 =
      Ret ((Some (new_PollerResult\<lparr>GoodBlocks := good_of m3 a b, ReorgedBlocks := reorged_of (watched S p) m3 a b\<rparr>), None), Some t')"
    and t': "tracker_ok t'" "\<And>k. getTrackerBlock S t' k =
       (case m3 k of Some r \<Rightarrow> if a \<le> k \<and> k \<le> b then tracked_after (p_policy p) r (watched S p k) else watched S p k
                  | None \<Rightarrow> watched S p k)"
    unfolding good_of_def reorged_of_def by blast
  let ?r1 = "\<lparr>FromBlock = a, ToBlock = b, res_LastGoodBlock = 0, GoodBlocks = good_of m3 a b, ReorgedBlocks = reorged_of (watched S p) m3 a b\<rparr>"
  let ?r = "?r1\<lparr>res_LastGoodBlock := LastGoodBlock ?r1\<rparr>"
  have lgb: "LastGoodBlock ?r = LastGoodBlock ?r1" by (simp add: LastGoodBlock_def)
  let ?e = "if from_forked m3 a \<and> doReorg p then Some (ErrWrap ErrFromBlockReorged ''fromBlock %d was removed/reorged'') else None"
  let ?p' = "p\<lparr>tracker := Some t', lastRecordedBlock := LastGoodBlock ?r1\<rparr>"
  have out: "poll_outcome a b p m3 t' ?r ?e ?p'"
    using t' lgb by (simp add: poll_outcome_def)
  show ?thesis
    by (intro exI [of _ ?r] exI [of _ ?e] exI [of _ ?p'] exI [of _ t'] conjI out)
      (simp add: Poll_process_def f map_value_def pr Let_def new_PollerResult_def from_forked_def split: option.split)
qed

text \<open>
  The results a successful poll works on: fresh, with an entry for every watched block of the
  range, and, under the cheap policies, without logs only for the blocks that were missing.
\<close>

definition fetched :: "'c \<Rightarrow> u64 \<Rightarrow> u64 \<Rightarrow> ('s, 'c) poller \<Rightarrow> u64 list \<Rightarrow> poll_results \<Rightarrow> bool" where
  "fetched s a b p bm m \<longleftrightarrow> results_fresh m \<and>
     (\<forall>n. a \<le> n \<and> n \<le> b \<and> watched S p n \<noteq> None \<longrightarrow> m n \<noteq> None) \<and>
     (p_policy p \<le> PolicyNormal \<longrightarrow> (\<forall>n r. m n = Some r \<longrightarrow> Logs (res_Block r) = [] \<longrightarrow> n \<in> set bm)) \<and>
     (\<forall>n\<in>set bm. watched S p n \<noteq> None) \<and>
     (\<exists>logs s0. answered (client p) (poll_query a b (addresses p) (topics p)) s0 logs \<and>
        (p_policy p \<le> PolicyNormal \<longrightarrow> s0 = s) \<and> (\<forall>n. result_logs m n = logs_of n logs))"

lemma Poll_ok:
  assumes "tracker p = Some t" "tracker_ok t" "0 < a" "b \<noteq> - 1"
    "Poll lf S L a b p s = Ret (((res, e), p'), s')"
  shows "(\<exists>r m bm t'. res = Some r \<and> fetched s a b p bm m \<and>
            poll_outcome a b p (mark bm (watched S p) (u64_range a b) m) t' r e p') \<or>
         (res = None \<and> e \<noteq> None \<and> (\<exists>t'. p' = p\<lparr>tracker := Some t'\<rparr> \<and> tracker_ok t' \<and> getTrackerBlock S t' = watched S p) \<and>
          ((\<exists>m1 s1. poll lf L \<lparr>fromBlock = a, toBlock = b, policy = p_policy p\<rparr> (addresses p) (topics p) (client p) s = Ret ((m1, e), s1)) \<or>
           (\<exists>t1 m s1 m2 bm s2. pollMissing S L \<lparr>fromBlock = a, toBlock = b, policy = p_policy p\<rparr> (client p) (Some t1) m s1 = Ret ((m2, bm, e), s2))))"
proof -
  from Poll_clears [OF assms(1,2)] obtain t1 where
    t1: "tracker_clearUntil S (lastRecordedBlock p - filterRange p) p = Ret (p\<lparr>tracker := Some t1\<rparr>)"
    "tracker_ok t1" "getTrackerBlock S t1 = watched S p" by blast
  let ?p = "p\<lparr>tracker := Some t1\<rparr>" and ?par = "\<lparr>fromBlock = a, toBlock = b, policy = p_policy p\<rparr>"
  let ?k = "\<lambda>m1 s1. go_bind (pollMissing S L ?par (client p) (Some t1) (map_value m1) s1) (\<lambda>((m2, blocksMissing, e2), s2).
          if e2 \<noteq> None then Ret (((None, e2), ?p), s2) else
          go_bind (Poll_process S L ?par blocksMissing (map_value m2) ?p) (\<lambda>r. Ret (r, s2)))"
  have "Poll lf S L a b p s = go_bind (poll lf L ?par (addresses p) (topics p) (client p) s)
      (\<lambda>((m1, e1), s1). if e1 \<noteq> None then Ret (((None, e1), ?p), s1) else ?k m1 s1)"
    by (simp add: Poll_def assms(1) t1(1) Let_def cong: if_cong)
  from assms(5) [unfolded this] show ?thesis
  proof (cases rule: go_bind_checkE)
    case (err m1 e1 s1)
    then show ?thesis using t1(2,3) by auto
  next
    case (ok m1 s1)
    from poll_ok [OF ok(1) assms(4)] obtain m logs s0 where
        m: "m1 = Some m" "results_fresh m" "p_policy p \<le> PolicyNormal \<Longrightarrow> \<forall>n r. m n = Some r \<longrightarrow> Logs (res_Block r) \<noteq> []"
      and logs: "answered (client p) (poll_query a b (addresses p) (topics p)) s0 logs"
        "p_policy p \<le> PolicyNormal \<longrightarrow> s0 = s" "\<forall>n. result_logs m n = logs_of n logs"
      by blast
    have mv: "map_value m1 = m" by (simp add: m(1) map_value_def)
    from ok(2) obtain m2 bm e2 s2 where
        pm: "pollMissing S L ?par (client p) (Some t1) m s1 = Ret ((m2, bm, e2), s2)"
      unfolding go_bind_Ret_iff mv by auto
    from ok(2) have k2: "(if e2 \<noteq> None then Ret (((None, e2), ?p), s2) else
          go_bind (Poll_process S L ?par bm (map_value m2) ?p) (\<lambda>r. Ret (r, s2))) = Ret (((res, e), p'), s')"
      unfolding mv pm by simp
    show ?thesis
    proof (cases e2)
      case (Some x)
      then show ?thesis using k2 t1(2,3) pm by auto
    next
      case None
      from pollMissing_ok [OF pm [unfolded None] assms(3,4) m(2)] obtain m' where
        m': "m2 = Some m'" "bm = missing t1 m a b" "results_fresh m'" "\<forall>n r. m n = Some r \<longrightarrow> m' n = Some r"
          "\<forall>n. a \<le> n \<and> n \<le> b \<and> watched S p n \<noteq> None \<longrightarrow> m' n \<noteq> None"
          "\<forall>n r. m n = None \<longrightarrow> m' n = Some r \<longrightarrow> n \<in> set bm \<and> Logs (res_Block r) = []"
        unfolding t1(3) by blast
      have "n \<in> set bm" if "p_policy p \<le> PolicyNormal" "m' n = Some r" "Logs (res_Block r) = []" for n r
        using that m(3) m'(4,6) by (cases "m n") auto
      moreover have "\<forall>n\<in>set bm. watched S p n \<noteq> None"
        using missing_set [of _ t1 m a b] by (simp add: m'(2) t1(3))
      moreover have "result_logs m' n = result_logs m n" for n
        using m'(4,6) by (cases "m n"; cases "m' n") (auto simp: result_logs_def)
      ultimately have "fetched s a b p bm m'" unfolding fetched_def
        using m'(3,5) logs by (intro conjI exI [of _ logs] exI [of _ s0]) simp_all
      moreover obtain r e' p'' t' where
          "Poll_process S L ?par bm m' ?p = Ret ((Some r, e'), p'')"
          "poll_outcome a b p (mark bm (watched S p) (u64_range a b) m') t' r e' p''"
        using Poll_process_ok [OF t1(2,3) assms(4) m'(3,5)] by blast
      moreover from this k2 None m'(1) have "res = Some r" "e = e'" "p' = p''"
        by (auto simp: map_value_def)
      ultimately show ?thesis by blast
    qed
  qed
qed

text \<open>What the marked results say about the blocks of the report.\<close>

lemma good_of_numbers:
  assumes "\<And>n r. m n = Some r \<Longrightarrow> Number (res_Block r) = n"
  shows "map Number (good_of m a b) = filter (\<lambda>n. m n \<noteq> None) (u64_range a b)"
proof -
  have "map (Number \<circ> (\<lambda>n. res_Block (the (m n)))) (filter (\<lambda>n. m n \<noteq> None) ns) = filter (\<lambda>n. m n \<noteq> None) ns" for ns
    using assms by (induction ns) auto
  then show ?thesis by (simp add: good_of_def)
qed

lemma good_of_set:
  "g \<in> set (good_of m a b) \<longleftrightarrow> (\<exists>n r. a \<le> n \<and> n \<le> b \<and> m n = Some r \<and> g = res_Block r)"
  by (force simp: good_of_def set_u64_range)

lemma forked_iff_differs:
  assumes "results_fresh m" "a \<le> n" "n \<le> b"
  shows "(\<exists>r. mark bm old (u64_range a b) m n = Some r \<and> forked r) \<longleftrightarrow>
    (\<exists>tb g. old n = Some tb \<and> g \<in> set (good_of (mark bm old (u64_range a b) m) a b) \<and> Number g = n \<and> differs tb g)"
proof -
  let ?m = "mark bm old (u64_range a b) m"
  have num: "Number (res_Block r) = k" if "?m k = Some r" for k r using mark_fresh(1) [OF assms(1) that] .
  have "(\<exists>r. ?m n = Some r \<and> forked r) \<longleftrightarrow> (\<exists>tb r. old n = Some tb \<and> ?m n = Some r \<and> differs tb (res_Block r))"
    using assms by (auto simp: mark_def results_fresh_def differs_def set_u64_range split: option.splits)
  also have "\<dots> \<longleftrightarrow> (\<exists>tb g. old n = Some tb \<and> g \<in> set (good_of ?m a b) \<and> Number g = n \<and> differs tb g)"
    using num assms(2,3) unfolding good_of_set by metis
  finally show ?thesis .
qed

lemma reorged_of_differs:
  assumes "results_fresh m"
  shows "reorged_of old (mark bm old (u64_range a b) m) a b =
    map (\<lambda>n. the (old n)) (filter (\<lambda>n. \<exists>tb g. old n = Some tb \<and>
      g \<in> set (good_of (mark bm old (u64_range a b) m) a b) \<and> Number g = n \<and> differs tb g) (u64_range a b))"
  unfolding reorged_of_def
  by (rule arg_cong [where f = "map _"], rule filter_cong [OF refl], rule forked_iff_differs [OF assms])
    (auto simp: set_u64_range)

lemma report_blocks:
  assumes "fetched s a b p bm m" "poll_outcome a b p (mark bm (watched S p) (u64_range a b) m) t' r e p'"
  shows "ReorgedBlocks r = map (\<lambda>n. the (watched S p n)) (filter (\<lambda>n. \<exists>old g. watched S p n = Some old \<and>
            g \<in> set (GoodBlocks r) \<and> Number g = n \<and> differs old g) (u64_range a b))"
    and "\<forall>n. a \<le> n \<and> n \<le> b \<and> watched S p n \<noteq> None \<longrightarrow> n \<in> Number ` set (GoodBlocks r)"
    and "sorted_wrt (<) (map Number (GoodBlocks r))"
    and "\<forall>g\<in>set (GoodBlocks r). a \<le> Number g \<and> Number g \<le> b"
proof -
  let ?m = "mark bm (watched S p) (u64_range a b) m"
  have fresh: "results_fresh m" and all: "\<forall>n. a \<le> n \<and> n \<le> b \<and> watched S p n \<noteq> None \<longrightarrow> ?m n \<noteq> None"
    using assms(1) unfolding fetched_def mark_None by blast+
  have good: "GoodBlocks r = good_of ?m a b" "ReorgedBlocks r = reorged_of (watched S p) ?m a b"
    using assms(2) by (auto simp: poll_outcome_def)
  have nums: "map Number (GoodBlocks r) = filter (\<lambda>n. ?m n \<noteq> None) (u64_range a b)"
    unfolding good by (rule good_of_numbers) (rule mark_fresh(1) [OF fresh])
  then have set: "Number ` set (GoodBlocks r) = {n. a \<le> n \<and> n \<le> b \<and> ?m n \<noteq> None}"
    unfolding list.set_map [symmetric] nums by (auto simp only: set_filter set_u64_range mem_Collect_eq)
  show "ReorgedBlocks r = map (\<lambda>n. the (watched S p n)) (filter (\<lambda>n. \<exists>old g. watched S p n = Some old \<and>
      g \<in> set (GoodBlocks r) \<and> Number g = n \<and> differs old g) (u64_range a b))"
    unfolding good by (rule reorged_of_differs [OF fresh])
  show "\<forall>n. a \<le> n \<and> n \<le> b \<and> watched S p n \<noteq> None \<longrightarrow> n \<in> Number ` set (GoodBlocks r)"
    using all unfolding set by blast
  show "\<forall>g\<in>set (GoodBlocks r). a \<le> Number g \<and> Number g \<le> b" using set by blast
  have "sorted_wrt (<) (u64_range a b)"
    using sorted_u64_range distinct_u64_range by (simp add: strict_sorted_iff)
  then show "sorted_wrt (<) (map Number (GoodBlocks r))"
    unfolding nums by (rule sorted_wrt_filter)
qed

end

interpretation lpe: poller_env list_ss list_ss_map list_ss_ok std_lib
  by unfold_locales

end
