(* ===== verification/Poller_Theorems.thy ===== *)
theory Poller_Theorems
  imports Poller_Correct
begin

text \<open>
  The properties of whole polls and of sequences of polls, for any sorted set and library that
  keep their promises, and a small simulated node on which each of them is exercised.
\<close>

section \<open>The poller's invariant\<close>

definition poller_ok :: "('s \<Rightarrow> string \<Rightarrow> (int \<times> block) option) \<Rightarrow> ('s \<Rightarrow> bool) \<Rightarrow> ('s, 'c) poller \<Rightarrow> bool" where
  "poller_ok ss_map ss_ok p \<longleftrightarrow> (\<forall>t. tracker p = Some t \<longrightarrow> block_tracker.tracker_ok ss_map ss_ok t)"

text \<open>What a poll returned, read off its outcome.\<close>

definition ok_report :: "(((poller_result option \<times> err) \<times> 'p) \<times> 'c) go \<Rightarrow> bool" where
  "ok_report x = (case x of Ret (((Some _, _), _), _) \<Rightarrow> True | _ \<Rightarrow> False)"

definition report :: "(((poller_result option \<times> err) \<times> 'p) \<times> 'c) go \<Rightarrow> poller_result" where
  "report x = (case x of Ret (((Some r, _), _), _) \<Rightarrow> r | _ \<Rightarrow> new_PollerResult)"

definition report_err :: "(((poller_result option \<times> err) \<times> 'p) \<times> 'c) go \<Rightarrow> err" where
  "report_err x = (case x of Ret (((_, e), _), _) \<Rightarrow> e | _ \<Rightarrow> None)"

definition after :: "'p \<Rightarrow> (((poller_result option \<times> err) \<times> 'p) \<times> 'c) go \<Rightarrow> 'p" where
  "after p x = (case x of Ret ((_, p'), _) \<Rightarrow> p' | _ \<Rightarrow> p)"

definition state_after :: "'c \<Rightarrow> (((poller_result option \<times> err) \<times> 'p) \<times> 'c) go \<Rightarrow> 'c" where
  "state_after s x = (case x of Ret (_, s') \<Rightarrow> s' | _ \<Rightarrow> s)"

lemma ok_report_Ret:
  "ok_report x \<Longrightarrow> x = Ret (((Some (report x), report_err x), after p x), state_after s x)"
  by (auto simp: ok_report_def report_def report_err_def after_def state_after_def split: go.splits option.splits)

context poller_env
begin

lemma poller_ok_tracker: "poller_ok ss_map ss_ok p \<Longrightarrow> tracker p = Some t \<Longrightarrow> tracker_ok t"
  by (simp add: poller_ok_def)

lemma poller_ok_New: "poller_ok ss_map ss_ok (poller_New S as ts reorg hdr rng cl pol)"
  by (simp add: poller_ok_def poller_New_def ok_newTracker)

lemma poller_ok_Poll:
  assumes "poller_ok ss_map ss_ok p" "tracker p \<noteq> None" "0 < a" "b \<noteq> - 1"
    "Poll lf S L a b p s = Ret (((res, e), p'), s')"
  shows "poller_ok ss_map ss_ok p' \<and> tracker p' \<noteq> None"
proof -
  obtain t where t: "tracker p = Some t" using assms(2) by auto
  show ?thesis using Poll_ok [OF t poller_ok_tracker [OF assms(1) t] assms(3-5)]
    by (auto simp: poller_ok_def poll_outcome_def)
qed

lemma Poll_report:
  assumes "poller_ok ss_map ss_ok p" "tracker p \<noteq> None" "0 < a" "b \<noteq> - 1"
    "Poll lf S L a b p s = Ret (((Some r, e), p'), s')"
  obtains m bm t' where "fetched s a b p bm m"
    "poll_outcome a b p (mark bm (watched S p) (u64_range a b) m) t' r e p'"
proof -
  obtain t where t: "tracker p = Some t" using assms(2) by auto
  show ?thesis using that Poll_ok [OF t poller_ok_tracker [OF assms(1) t] assms(3-5)] by auto
qed

end

text \<open>What a poll's outcome says of its error, its bookkeeping and the logs it saw.\<close>

context poller_env
begin

lemma outcome_good:
  assumes "fetched s a b p bm m" "poll_outcome a b p (mark bm (watched S p) (u64_range a b) m) t' r e p'"
  shows "g \<in> set (GoodBlocks r) \<longleftrightarrow>
    (\<exists>x. a \<le> Number g \<and> Number g \<le> b \<and> mark bm (watched S p) (u64_range a b) m (Number g) = Some x \<and> g = res_Block x)"
proof -
  have "results_fresh m" using assms(1) by (simp add: fetched_def)
  then have num: "Number (res_Block x) = n" if "mark bm (watched S p) (u64_range a b) m n = Some x" for n x
    using mark_fresh(1) that by blast
  have "GoodBlocks r = good_of (mark bm (watched S p) (u64_range a b) m) a b"
    using assms(2) by (simp add: poll_outcome_def)
  then show ?thesis using num by (auto simp: good_of_set)
qed

lemma outcome_logs:
  assumes "fetched s a b p bm m" "poll_outcome a b p (mark bm (watched S p) (u64_range a b) m) t' r e p'"
  shows "\<exists>logs s0. answered (client p) (poll_query a b (addresses p) (topics p)) s0 logs \<and>
    (p_policy p \<le> PolicyNormal \<longrightarrow> s0 = s) \<and>
    (\<forall>g\<in>set (GoodBlocks r). Logs g = logs_of (Number g) logs) \<and>
    (\<forall>l\<in>set logs. a \<le> log_BlockNumber l \<and> log_BlockNumber l \<le> b \<longrightarrow> (\<exists>g\<in>set (GoodBlocks r). l \<in> set (Logs g)))"
proof -
  let ?m = "mark bm (watched S p) (u64_range a b) m"
  from assms(1) obtain logs s0 where logs: "answered (client p) (poll_query a b (addresses p) (topics p)) s0 logs"
      "p_policy p \<le> PolicyNormal \<longrightarrow> s0 = s" "\<forall>n. result_logs m n = logs_of n logs"
    unfolding fetched_def by blast
  have "result_logs ?m n = result_logs m n" for n
    by (auto simp: result_logs_def mark_def split: option.split)
  then have rl: "result_logs ?m n = logs_of n logs" for n using logs(3) by simp
  have good: "Logs g = logs_of (Number g) logs" if "g \<in> set (GoodBlocks r)" for g
    using that rl [of "Number g"] unfolding outcome_good [OF assms] by (auto simp: result_logs_def)
  have "\<exists>g\<in>set (GoodBlocks r). l \<in> set (Logs g)"
    if l: "l \<in> set logs" "a \<le> log_BlockNumber l" "log_BlockNumber l \<le> b" for l
  proof -
    have "l \<in> set (result_logs ?m (log_BlockNumber l))" using l(1) rl by (simp add: logs_of_set)
    then obtain x where x: "?m (log_BlockNumber l) = Some x" "l \<in> set (Logs (res_Block x))"
      by (cases "?m (log_BlockNumber l)") (simp_all add: result_logs_def)
    have "results_fresh m" using assms(1) by (simp add: fetched_def)
    then have "Number (res_Block x) = log_BlockNumber l" using mark_fresh(1) x(1) by blast
    then have "res_Block x \<in> set (GoodBlocks r)" using x l(2,3) unfolding outcome_good [OF assms] by auto
    then show ?thesis using x(2) by blast
  qed
  then show ?thesis using logs(1,2) good by blast
qed

lemma reorged_numbers:
  assumes "poller_ok ss_map ss_ok p" "watched S p n = Some old"
  shows "Number old = n"
  using assms get_Number by (auto simp: watched_def poller_ok_def split: option.splits if_splits)

lemma outcome_reorged:
  assumes "fetched s a b p bm m" "poll_outcome a b p (mark bm (watched S p) (u64_range a b) m) t' r e p'"
    "poller_ok ss_map ss_ok p"
  shows "old \<in> set (ReorgedBlocks r) \<longleftrightarrow> a \<le> Number old \<and> Number old \<le> b \<and>
    watched S p (Number old) = Some old \<and> (\<exists>g\<in>set (GoodBlocks r). Number g = Number old \<and> differs old g)"
proof -
  let ?new = "\<lambda>n. \<exists>tb g. watched S p n = Some tb \<and> g \<in> set (GoodBlocks r) \<and> Number g = n \<and> differs tb g"
  have "old \<in> set (ReorgedBlocks r) \<longleftrightarrow> (\<exists>n. a \<le> n \<and> n \<le> b \<and> ?new n \<and> old = the (watched S p n))"
    unfolding report_blocks(1) [OF assms(1,2)] set_map set_filter set_u64_range image_iff by auto
  also have "\<dots> \<longleftrightarrow> (\<exists>n. a \<le> n \<and> n \<le> b \<and> watched S p n = Some old \<and> (\<exists>g\<in>set (GoodBlocks r). Number g = n \<and> differs old g))"
  proof (rule ex_cong1)
    fix n
    show "(a \<le> n \<and> n \<le> b \<and> ?new n \<and> old = the (watched S p n)) =
        (a \<le> n \<and> n \<le> b \<and> watched S p n = Some old \<and> (\<exists>g\<in>set (GoodBlocks r). Number g = n \<and> differs old g))"
      by (cases "watched S p n") auto
  qed
  also have "\<dots> \<longleftrightarrow> a \<le> Number old \<and> Number old \<le> b \<and>
    watched S p (Number old) = Some old \<and> (\<exists>g\<in>set (GoodBlocks r). Number g = Number old \<and> differs old g)"
    (is "?l \<longleftrightarrow> ?r")
  proof
    assume ?l
    then obtain n where n: "a \<le> n" "n \<le> b" "watched S p n = Some old" "\<exists>g\<in>set (GoodBlocks r). Number g = n \<and> differs old g"
      by blast
    show ?r using n unfolding reorged_numbers [OF assms(3) n(3)] by blast
  qed blast
  finally show ?thesis .
qed

lemma outcome_from:
  assumes "fetched s a b p bm m" "poll_outcome a b p (mark bm (watched S p) (u64_range a b) m) t' r e p'"
    "poller_ok ss_map ss_ok p" "a \<le> b"
  shows "e \<noteq> None \<longleftrightarrow> doReorg p \<and> a \<in> Number ` set (ReorgedBlocks r)"
proof -
  have "results_fresh m" using assms(1) by (simp add: fetched_def)
  from forked_iff_differs [OF this order_refl assms(4), of bm "watched S p"]
  have "from_forked (mark bm (watched S p) (u64_range a b) m) a \<longleftrightarrow>
      (\<exists>old g. watched S p a = Some old \<and> g \<in> set (GoodBlocks r) \<and> Number g = a \<and> differs old g)"
    using assms(2) by (simp add: from_forked_def poll_outcome_def)
  also have "\<dots> \<longleftrightarrow> (\<exists>old\<in>set (ReorgedBlocks r). Number old = a)"
  proof
    assume "\<exists>old g. watched S p a = Some old \<and> g \<in> set (GoodBlocks r) \<and> Number g = a \<and> differs old g"
    then obtain old g where o: "watched S p a = Some old" "g \<in> set (GoodBlocks r)" "Number g = a" "differs old g" by blast
    then have "Number old = a" using reorged_numbers [OF assms(3)] by blast
    then show "\<exists>old\<in>set (ReorgedBlocks r). Number old = a"
      using o assms(4) outcome_reorged [OF assms(1-3), of old] by auto
  next
    assume "\<exists>old\<in>set (ReorgedBlocks r). Number old = a"
    then show "\<exists>old g. watched S p a = Some old \<and> g \<in> set (GoodBlocks r) \<and> Number g = a \<and> differs old g"
      using outcome_reorged [OF assms(1-3)] by auto
  qed
  finally show ?thesis using assms(2) by (simp add: poll_outcome_def image_iff) blast
qed

end

section \<open>Runs of a poller\<close>

text \<open>
  A run polls again and again, with any client state, in between which the watched addresses and
  topics may change and reorg detection may be switched; \<open>rs\<close> are the reports so far.
\<close>

inductive poll_run :: "('s, block) sortedset \<Rightarrow> lib \<Rightarrow> ('s, 'c) poller \<Rightarrow> poller_result list \<Rightarrow> bool"
  for S :: "('s, block) sortedset" and L :: lib where
  new: "poll_run S L (poller_New S as ts reorg hdr rng cl pol) []"
| reported: "poll_run S L p rs \<Longrightarrow> tracker p \<noteq> None \<Longrightarrow> 0 < a \<Longrightarrow> a \<le> b \<Longrightarrow> b \<noteq> - 1 \<Longrightarrow>
    Poll lf S L a b p s = Ret (((Some r, e), p'), s') \<Longrightarrow> poll_run S L p' (rs @ [r])"
| failed: "poll_run S L p rs \<Longrightarrow> tracker p \<noteq> None \<Longrightarrow> 0 < a \<Longrightarrow> a \<le> b \<Longrightarrow> b \<noteq> - 1 \<Longrightarrow>
    Poll lf S L a b p s = Ret (((None, e), p'), s') \<Longrightarrow> poll_run S L p' rs"
| addressed: "poll_run S L p rs \<Longrightarrow> p' \<in> {AddAddresses as p, SetAddresses as p} \<Longrightarrow> poll_run S L p' rs"
| topiced: "poll_run S L p rs \<Longrightarrow> p' \<in> {AddTopics ts p, SetTopics ts p} \<Longrightarrow> poll_run S L p' rs"
| headed: "poll_run S L p rs \<Longrightarrow> poll_run S L (SetDoHeader hdr p) rs"
| switched: "poll_run S L p rs \<Longrightarrow> SetDoReorg S reorg p = Ret p' \<Longrightarrow> poll_run S L p' rs"

text \<open>The last good block reported for a number.\<close>

definition last_good :: "poller_result list \<Rightarrow> u64 \<Rightarrow> block option" where
  "last_good rs n =
     (case rev (filter (\<lambda>g. Number g = n) (concat (map GoodBlocks rs))) of [] \<Rightarrow> None | g # _ \<Rightarrow> Some g)"

definition tracked :: "('s, block) sortedset \<Rightarrow> ('s, 'c) poller \<Rightarrow> u64 \<Rightarrow> block option" where
  "tracked S p n = (case tracker p of None \<Rightarrow> None | Some t \<Rightarrow> getTrackerBlock S t n)"

lemma watched_tracked: "watched S p n = Some b \<Longrightarrow> tracked S p n = Some b"
  by (auto simp: watched_def tracked_def split: option.splits if_splits)

lemma last_good_snoc:
  "last_good (rs @ [r]) n =
   (case rev (filter (\<lambda>g. Number g = n) (GoodBlocks r)) of [] \<Rightarrow> last_good rs n | g # _ \<Rightarrow> Some g)"
  by (simp add: last_good_def split: list.split)

lemma last_good_old: "n \<notin> Number ` set (GoodBlocks r) \<Longrightarrow> last_good (rs @ [r]) n = last_good rs n"
proof -
  assume "n \<notin> Number ` set (GoodBlocks r)"
  then have "filter (\<lambda>g. Number g = n) (GoodBlocks r) = []" by (auto simp: filter_empty_conv)
  then show ?thesis by (simp add: last_good_snoc)
qed

lemma last_good_new:
  assumes "g \<in> set (GoodBlocks r)" "sorted_wrt (<) (map Number (GoodBlocks r))"
  shows "last_good (rs @ [r]) (Number g) = Some g"
proof -
  let ?f = "filter (\<lambda>h. Number h = Number g) (GoodBlocks r)"
  have "h = g" if "h \<in> set ?f" for h
    using that assms by (auto simp: sorted_wrt_map strict_sorted_iff in_set_conv_nth sorted_wrt_iff_nth_less)
      (metis less_irrefl linorder_neqE_nat)
  moreover have "g \<in> set (rev ?f)" using assms(1) by simp
  ultimately show ?thesis unfolding last_good_snoc
    by (cases "rev ?f") (metis empty_iff list.set(1), metis list.set_intros(1) list.simps(5) set_rev)
qed

context poller_env
begin

text \<open>
  The invariant of a run: what the tracker holds for a number is the last good block reported
  for it, and under \<open>PolicyFast\<close> it has logs.
\<close>

definition history_ok :: "('s, 'c) poller \<Rightarrow> poller_result list \<Rightarrow> bool" where
  "history_ok p rs \<longleftrightarrow> poller_ok ss_map ss_ok p \<and>
     (\<forall>n g. tracked S p n = Some g \<longrightarrow> last_good rs n = Some g \<and> (p_policy p = PolicyFast \<longrightarrow> Logs g \<noteq> []))"

lemma outcome_tracked:
  assumes "fetched s a b p bm m" "poll_outcome a b p (mark bm (watched S p) (u64_range a b) m) t' r e p'"
  shows "tracked S p' n =
    (case mark bm (watched S p) (u64_range a b) m n of
       Some x \<Rightarrow> if a \<le> n \<and> n \<le> b then tracked_after (p_policy p) x (watched S p n) else watched S p n
     | None \<Rightarrow> watched S p n)"
  using assms(2) by (simp add: poll_outcome_def tracked_def)

lemma fast_empty_removed:
  assumes "fetched s a b p bm m" "mark bm (watched S p) (u64_range a b) m n = Some x" "a \<le> n" "n \<le> b"
    "p_policy p = PolicyFast" "Logs (res_Block x) = []"
    "\<And>g. watched S p n = Some g \<Longrightarrow> Logs g \<noteq> []"
  shows "tracked_after (p_policy p) x (watched S p n) = None"
proof -
  have "PolicyFast \<le> PolicyNormal" using policy_order(1) by simp
  moreover obtain y where y: "m n = Some y" "Logs (res_Block y) = []"
    using assms(2,6) by (auto simp: mark_def split: option.splits if_splits)
  ultimately have bm: "n \<in> set bm" using assms(1,5) by (simp add: fetched_def)
  then have "watched S p n \<noteq> None" using assms(1) unfolding fetched_def by blast
  then show ?thesis using assms(2-7) bm
    by (auto simp: mark_def tracked_after_def differs_def set_u64_range split: option.splits if_splits)
qed

lemma history_reported:
  assumes "fetched s a b p bm m" "poll_outcome a b p (mark bm (watched S p) (u64_range a b) m) t' r e p'"
    "history_ok p rs"
  shows "history_ok p' (rs @ [r])"
proof -
  let ?m = "mark bm (watched S p) (u64_range a b) m"
  have pol: "p_policy p' = p_policy p" and ok: "poller_ok ss_map ss_ok p'"
    using assms(2) by (simp_all add: poll_outcome_def poller_ok_def)
  have old: "last_good rs n = Some g \<and> (p_policy p = PolicyFast \<longrightarrow> Logs g \<noteq> [])" if "watched S p n = Some g" for n g
    using watched_tracked [OF that] assms(3) by (simp add: history_ok_def)
  have "last_good (rs @ [r]) n = Some g \<and> (p_policy p = PolicyFast \<longrightarrow> Logs g \<noteq> [])"
    if g: "tracked S p' n = Some g" for n g
  proof (cases "\<exists>x. ?m n = Some x \<and> a \<le> n \<and> n \<le> b")
    case True
    then obtain x where x: "?m n = Some x" "a \<le> n" "n \<le> b" by blast
    then have ta: "tracked_after (p_policy p) x (watched S p n) = Some g"
      using g outcome_tracked [OF assms(1,2), of n] by simp
    then have "\<not> (p_policy p = PolicyFast \<and> Logs (res_Block x) = [])"
      using fast_empty_removed [OF assms(1) x] old by fastforce
    then have gx: "g = res_Block x" "p_policy p = PolicyFast \<longrightarrow> Logs g \<noteq> []" using ta by (auto simp: tracked_after_def)
    have "results_fresh m" using assms(1) by (simp add: fetched_def)
    then have num: "Number g = n" using mark_fresh(1) x(1) gx by blast
    then have "g \<in> set (GoodBlocks r)" using x gx(1) outcome_good [OF assms(1,2), of g] by auto
    from last_good_new [OF this report_blocks(3) [OF assms(1,2)]] show ?thesis using num gx(2) by simp
  next
    case False
    then have "tracked S p' n = watched S p n"
      using outcome_tracked [OF assms(1,2), of n] by (cases "?m n") auto
    moreover have "n \<notin> Number ` set (GoodBlocks r)" using False outcome_good [OF assms(1,2)] by auto
    ultimately show ?thesis using old [of n g] g last_good_old [of n r rs] by simp
  qed
  then show ?thesis using ok pol by (simp add: history_ok_def)
qed

lemma history_cong:
  assumes "history_ok p rs" "tracker p' = tracker p" "p_policy p' = p_policy p"
  shows "history_ok p' rs"
  using assms by (simp add: history_ok_def poller_ok_def tracked_def)

lemma history_untracked:
  "(\<And>n. tracked S p n = None) \<Longrightarrow> poller_ok ss_map ss_ok p \<Longrightarrow> history_ok p rs"
  by (simp add: history_ok_def)

lemma history_SetDoReorg:
  assumes "history_ok p rs" "SetDoReorg S reorg p = Ret p'"
  shows "history_ok p' rs"
proof (cases "doReorg p = reorg")
  case True
  then have "p' = p" using assms(2) by (auto simp: SetDoReorg_def split: if_splits)
  then show ?thesis using assms(1) by simp
next
  case False
  show ?thesis
  proof (cases "doReorg p")
    case True
    then have "tracker p' = None" using False assms(2)
      by (auto simp: SetDoReorg_def go_bind_Ret_iff)
    then show ?thesis by (auto simp: history_ok_def poller_ok_def tracked_def)
  next
    case f: False
    then have p': "p' = p\<lparr>tracker := (case tracker p of None \<Rightarrow> Some (newTracker S ''poller'') | Some t \<Rightarrow> Some t), doReorg := reorg\<rparr>"
      using False assms(2) by (auto simp: SetDoReorg_def)
    show ?thesis
    proof (cases "tracker p")
      case None
      then show ?thesis using p'
        by (intro history_untracked) (simp_all add: tracked_def get_newTracker poller_ok_def ok_newTracker)
    next
      case (Some t)
      then show ?thesis using p' history_cong [OF assms(1), of p'] by simp
    qed
  qed
qed

lemma poll_run_history: "poll_run S L p rs \<Longrightarrow> history_ok p rs"
proof (induction rule: poll_run.induct)
  case (new as ts reorg hdr rng cl pol)
  show ?case
    by (rule history_untracked [OF _ poller_ok_New]) (simp add: tracked_def poller_New_def get_newTracker)
next
  case (reported p rs a b lf s r e p' s')
  then have ok: "poller_ok ss_map ss_ok p" by (simp add: history_ok_def)
  obtain m bm t' where "fetched s a b p bm m"
      "poll_outcome a b p (mark bm (watched S p) (u64_range a b) m) t' r e p'"
    using Poll_report [OF ok reported.hyps(2,3,5,6)] .
  from history_reported [OF this reported.IH] show ?case .
next
  case (failed p rs a b lf s e p' s')
  then obtain t where t: "tracker p = Some t" "poller_ok ss_map ss_ok p" by (auto simp: history_ok_def)
  from Poll_ok [OF t(1) poller_ok_tracker [OF t(2,1)] failed.hyps(3,5,6)]
  obtain t' where "p' = p\<lparr>tracker := Some t'\<rparr>" "tracker_ok t'" "getTrackerBlock S t' = watched S p" by auto
  then have "tracked S p' n = watched S p n" "poller_ok ss_map ss_ok p'" "p_policy p' = p_policy p" for n
    by (simp_all add: tracked_def poller_ok_def)
  then show ?case using failed.IH watched_tracked [of S p] unfolding history_ok_def by simp blast
next
  case (addressed p rs p' as)
  then show ?case by (intro history_cong [OF addressed.IH]) (auto simp: AddAddresses_def SetAddresses_def)
next
  case (topiced p rs p' ts)
  then show ?case by (intro history_cong [OF topiced.IH]) (auto simp: AddTopics_def SetTopics_def)
next
  case (headed p rs hdr)
  then show ?case by (intro history_cong [OF headed.IH]) (auto simp: SetDoHeader_def)
next
  case (switched p rs reorg p')
  show ?case by (rule history_SetDoReorg [OF switched.IH switched.hyps(2)])
qed

end

section \<open>A simulated node\<close>

text \<open>
  The state of the node is the list of logs of its current chain. A block's hash is the one its
  logs carry, and a fixed one for blocks without logs.
\<close>

definition sample_hash :: "eth_log list \<Rightarrow> u64 \<Rightarrow> hash" where
  "sample_hash chain n = (case logs_of n chain of [] \<Rightarrow> 777 | l # _ \<Rightarrow> log_BlockHash l)"

definition sample_header :: "eth_log list \<Rightarrow> batch_elem \<Rightarrow> batch_elem" where
  "sample_header chain e =
     (case DecodeBig std_lib (be_Arg e) of
        None \<Rightarrow> e
      | Some i \<Rightarrow> e\<lparr>be_Result := ResHeader (zero_types_header\<lparr>th_Number := of_int i, th_Hash := sample_hash chain (of_int i)\<rparr>)\<rparr>)"

definition in_query :: "filter_query \<Rightarrow> eth_log \<Rightarrow> bool" where
  "in_query q l =
     (case (q_FromBlock q, q_ToBlock q) of
        (Some i, Some j) \<Rightarrow> i \<le> sint (log_BlockNumber l) \<and> sint (log_BlockNumber l) \<le> j
      | _ \<Rightarrow> False)"

definition sample_BlockNumber :: "eth_log list \<Rightarrow> ((u64 \<times> err) \<times> eth_log list) go" where
  "sample_BlockNumber s = Ret ((100, None), s)"

definition sample_FilterLogs :: "filter_query \<Rightarrow> eth_log list \<Rightarrow> ((eth_log list \<times> err) \<times> eth_log list) go" where
  "sample_FilterLogs q s = Ret ((filter (in_query q) s, None), s)"

definition sample_HeaderByNumber :: "int \<Rightarrow> eth_log list \<Rightarrow> ((block_header option \<times> err) \<times> eth_log list) go" where
  "sample_HeaderByNumber n s = Ret ((None, None), s)"

definition sample_Batch :: "batch_elem list \<Rightarrow> eth_log list \<Rightarrow> ((batch_elem list \<times> err) \<times> eth_log list) go" where
  "sample_Batch es s = Ret ((map (sample_header s) es, None), s)"

definition sample_client :: "eth_log list eth_client" where
  "sample_client = \<lparr>
     ec_TypeName = ''*ethclient.Client'', ec_BlockNumber = sample_BlockNumber, ec_FilterLogs = sample_FilterLogs,
     ec_HeaderByNumber = sample_HeaderByNumber, ec_BatchCallContext = sample_Batch\<rparr>"

definition sample_log :: "u64 \<Rightarrow> hash \<Rightarrow> eth_log" where
  "sample_log n h = \<lparr>log_Address = 0, log_Topics = [], log_Data = [], log_BlockNumber = n, log_TxHash = 0, log_BlockHash = h\<rparr>"

definition sample_poller :: "policy \<Rightarrow> (block ss_node list, eth_log list) poller" where
  "sample_poller pol = poller_New list_ss None None True False 10 sample_client pol"

definition chain1 :: "eth_log list" where
  "chain1 = [sample_log 5 50, sample_log 6 60]"

definition chain2 :: "eth_log list" where
  "chain2 = [sample_log 5 50, sample_log 6 61]"

definition chain3 :: "eth_log list" where
  "chain3 = [sample_log 5 51, sample_log 7 70]"

text \<open>The simulated poller after its first poll.\<close>

definition first_poll :: "policy \<Rightarrow> (((poller_result option \<times> err) \<times> (block ss_node list, eth_log list) poller) \<times> eth_log list) go" where
  "first_poll pol = Poll True list_ss std_lib 5 7 (sample_poller pol) chain1"

definition polled :: "policy \<Rightarrow> (block ss_node list, eth_log list) poller" where
  "polled pol = after (sample_poller pol) (first_poll pol)"

lemma sample_after_ok:
  assumes "poller_ok list_ss_map list_ss_ok p" "tracker p \<noteq> None" "0 < a" "a \<le> b" "b \<noteq> - 1"
    "ok_report (Poll True list_ss std_lib a b p s)"
  shows "poller_ok list_ss_map list_ss_ok (after p (Poll True list_ss std_lib a b p s))"
    "tracker (after p (Poll True list_ss std_lib a b p s)) \<noteq> None"
  using lpe.poller_ok_Poll [OF assms(1-3,5) ok_report_Ret [OF assms(6), of p s]] by simp_all

lemma sample_ok:
  "poller_ok list_ss_map list_ss_ok (sample_poller pol)" "tracker (sample_poller pol) \<noteq> None"
  by (simp_all add: sample_poller_def lpe.poller_ok_New) (simp add: poller_New_def)

lemma first_poll_ok:
  "ok_report (first_poll PolicyNormal)" "ok_report (first_poll PolicyFast)"
  by code_simp+

lemma polled_ok:
  assumes "ok_report (first_poll pol)"
  shows "poller_ok list_ss_map list_ss_ok (polled pol)" "tracker (polled pol) \<noteq> None"
  using sample_after_ok [OF sample_ok, of 5 7 pol chain1] assms by (simp_all add: polled_def first_poll_def)

section \<open>What one poll reports\<close>

text \<open>
  C1. A poll that reports does so exactly: the reorged blocks are the watched blocks of the range
  whose hash or number of logs differs from the fresh block of the same number, in ascending
  order; every watched block of the range has a fresh block among the good blocks; and the good
  blocks are strictly ascending and inside the range.
\<close>

theorem Poll_reorgs_exact:
  assumes "poller_env S ss_map ss_ok L" "poller_ok ss_map ss_ok p" "tracker p \<noteq> None"
    "0 < a" "a \<le> b" "b \<noteq> - 1" "Poll lf S L a b p s = Ret (((Some r, e), p'), s')"
  shows "ReorgedBlocks r = map (\<lambda>n. the (watched S p n)) (filter (\<lambda>n. \<exists>old g. watched S p n = Some old \<and>
            g \<in> set (GoodBlocks r) \<and> Number g = n \<and> differs old g) (u64_range a b)) \<and>
    (\<forall>n. a \<le> n \<and> n \<le> b \<and> watched S p n \<noteq> None \<longrightarrow> n \<in> Number ` set (GoodBlocks r)) \<and>
    sorted_wrt (<) (map Number (GoodBlocks r)) \<and>
    (\<forall>g\<in>set (GoodBlocks r). a \<le> Number g \<and> Number g \<le> b)"
proof -
  note env = assms(1)
  obtain m bm t' where "poller_env.fetched S s a b p bm m"
      "poller_env.poll_outcome S ss_map ss_ok a b p (mark bm (watched S p) (u64_range a b) m) t' r e p'"
    using poller_env.Poll_report [OF env assms(2-4,6,7)] .
  from poller_env.report_blocks [OF env this] show ?thesis by blast
qed

theorem Poll_reorgs_exact_witness:
  "map Hash (ReorgedBlocks (report (Poll True list_ss std_lib 5 7 (polled PolicyNormal) chain2))) = [60] \<and>
   sorted_wrt (<) (map Number (GoodBlocks (report (Poll True list_ss std_lib 5 7 (polled PolicyNormal) chain2))))"
proof -
  let ?x = "Poll True list_ss std_lib 5 7 (polled PolicyNormal) chain2"
  have ok: "ok_report ?x" by code_simp
  note P = ok_report_Ret [OF ok, of "polled PolicyNormal" chain2]
  have "map Hash (ReorgedBlocks (report ?x)) = [60]" by code_simp
  moreover have "sorted_wrt (<) (map Number (GoodBlocks (report ?x)))"
    using Poll_reorgs_exact [OF lpe.poller_env_axioms polled_ok(1) [OF first_poll_ok(1)] polled_ok(2) [OF first_poll_ok(1)] _ _ _ P] by simp
  ultimately show ?thesis ..
qed

text \<open>
  C7. Whatever a poller did before, a block it reports as reorged is exactly the last good block
  it reported for that number, and the same report carries the differing fresh block that
  replaces it: a consumer that undoes reorged blocks undoes what it did last.
\<close>

theorem Poll_reorgs_last_good:
  assumes "poller_env S ss_map ss_ok L" "poll_run S L p rs" "tracker p \<noteq> None"
    "0 < a" "a \<le> b" "b \<noteq> - 1" "Poll lf S L a b p s = Ret (((Some r, e), p'), s')"
  shows "\<forall>old\<in>set (ReorgedBlocks r). last_good rs (Number old) = Some old \<and>
    (\<exists>g\<in>set (GoodBlocks r). Number g = Number old \<and> differs old g)"
proof
  note env = assms(1)
  have h: "poller_env.history_ok S ss_map ss_ok p rs" by (rule poller_env.poll_run_history [OF env assms(2)])
  then have ok: "poller_ok ss_map ss_ok p" by (simp add: poller_env.history_ok_def [OF env])
  obtain m bm t' where out: "poller_env.fetched S s a b p bm m"
      "poller_env.poll_outcome S ss_map ss_ok a b p (mark bm (watched S p) (u64_range a b) m) t' r e p'"
    using poller_env.Poll_report [OF env ok assms(3,4,6,7)] .
  fix old assume "old \<in> set (ReorgedBlocks r)"
  then have "watched S p (Number old) = Some old" "\<exists>g\<in>set (GoodBlocks r). Number g = Number old \<and> differs old g"
    using poller_env.outcome_reorged [OF env out ok] by auto
  then show "last_good rs (Number old) = Some old \<and> (\<exists>g\<in>set (GoodBlocks r). Number g = Number old \<and> differs old g)"
    using h watched_tracked [of S p] by (auto simp: poller_env.history_ok_def [OF env])
qed

lemma polled_run: "poll_run list_ss std_lib (polled PolicyNormal) [report (first_poll PolicyNormal)]"
proof -
  have "poll_run list_ss std_lib (sample_poller PolicyNormal) []"
    unfolding sample_poller_def by (rule poll_run.new)
  from poll_run.reported [OF this sample_ok(2), of 5 7] show ?thesis
    using ok_report_Ret [OF first_poll_ok(1), of "sample_poller PolicyNormal" chain1]
    by (simp add: polled_def first_poll_def)
qed

lemma second_poll_ok: "ok_report (Poll True list_ss std_lib 5 7 (polled PolicyNormal) chain2)"
  by code_simp

lemmas second_poll = ok_report_Ret [OF second_poll_ok, of "polled PolicyNormal" chain2]

theorem Poll_reorgs_last_good_witness:
  "\<exists>old. ReorgedBlocks (report (Poll True list_ss std_lib 5 7 (polled PolicyNormal) chain2)) = [old] \<and>
     last_good [report (first_poll PolicyNormal)] 6 = Some old"
proof -
  let ?r = "report (Poll True list_ss std_lib 5 7 (polled PolicyNormal) chain2)"
  have "map Number (ReorgedBlocks ?r) = [6]" by code_simp
  then obtain old where old: "ReorgedBlocks ?r = [old]" "Number old = 6" by auto
  then show ?thesis
    using Poll_reorgs_last_good [OF lpe.poller_env_axioms polled_run polled_ok(2) [OF first_poll_ok(1)] _ _ _ second_poll]
    by simp
qed

end
