(* ===== verification/Poller_Behaviour.thy ===== *)
theory Poller_Behaviour
  imports Poller_Theorems
begin

text \<open>
  Further properties of whole polls: a change between two polls is detected, no log is lost, what
  the poller records, which errors it returns, that it returns at all, and two inputs on which it
  does not.
\<close>

section \<open>Detection over two polls\<close>

lemma watched_if:
  "watched S p n = (if sint (lastRecordedBlock p - filterRange p) < sint n then tracked S p n else None)"
  by (simp add: watched_def tracked_def split: option.split)

context poller_env
begin

lemma outcome_tracks_good:
  assumes "fetched s a b p bm m" "poll_outcome a b p (mark bm (watched S p) (u64_range a b) m) t' r e p'"
    "g \<in> set (GoodBlocks r)" "p_policy p \<noteq> PolicyFast \<or> Logs g \<noteq> []"
  shows "tracked S p' (Number g) = Some g"
proof -
  obtain x where "a \<le> Number g" "Number g \<le> b" "mark bm (watched S p) (u64_range a b) m (Number g) = Some x" "g = res_Block x"
    using outcome_good [OF assms(1,2), of g] assms(3) by blast
  then show ?thesis using outcome_tracked [OF assms(1,2), of "Number g"] assms(4) by (auto simp: tracked_after_def)
qed

lemma outcome_recorded:
  assumes "poll_outcome a b p m t' r e p'"
  shows "lastRecordedBlock p' = LastGoodBlock r" "res_LastGoodBlock r = LastGoodBlock r"
    "FromBlock r = a" "ToBlock r = b" "filterRange p' = filterRange p" "p_policy p' = p_policy p" "doReorg p' = doReorg p"
  using assms by (simp_all add: poll_outcome_def)

lemma good_unique:
  assumes "fetched s a b p bm m" "poll_outcome a b p (mark bm (watched S p) (u64_range a b) m) t' r e p'"
    "g \<in> set (GoodBlocks r)" "h \<in> set (GoodBlocks r)" "Number g = Number h"
  shows "g = h"
  using assms(3-5) outcome_good [OF assms(1,2)] by auto

lemma reorged_filter:
  assumes "fetched s a b p bm m" "poll_outcome a b p (mark bm (watched S p) (u64_range a b) m) t' r e p'"
    "poller_ok ss_map ss_ok p"
  shows "\<exists>Q. map Number (ReorgedBlocks r) = filter Q (u64_range a b)"
proof -
  define Q where "Q n \<longleftrightarrow> (\<exists>old g. watched S p n = Some old \<and> g \<in> set (GoodBlocks r) \<and> Number g = n \<and> differs old g)" for n
  have "map Number (map (\<lambda>n. the (watched S p n)) (filter Q ns)) = filter Q ns" for ns
    using reorged_numbers [OF assms(3)] by (induction ns) (auto simp: Q_def)
  then show ?thesis using report_blocks(1) [OF assms(1,2), folded Q_def] by auto
qed

lemma reorged_ascending:
  assumes "fetched s a b p bm m" "poll_outcome a b p (mark bm (watched S p) (u64_range a b) m) t' r e p'"
    "poller_ok ss_map ss_ok p"
  shows "sorted (map Number (ReorgedBlocks r))" "distinct (map Number (ReorgedBlocks r))"
  using reorged_filter [OF assms] sorted_u64_range [of a b] distinct_u64_range [of a b] by (auto simp: sorted_wrt_filter)

end

lemma first_poll_Ret:
  assumes "ok_report (first_poll pol)"
  shows "Poll True list_ss std_lib 5 7 (sample_poller pol) chain1 =
    Ret (((Some (report (first_poll pol)), report_err (first_poll pol)), polled pol), state_after chain1 (first_poll pol))"
  using ok_report_Ret [OF assms, of "sample_poller pol" chain1] by (simp add: first_poll_def polled_def)

text \<open>
  C6. Detection. A good block of one report whose number lies in the range of the next poll, and
  which the poller keeps (it has logs, or the policy is not \<open>PolicyFast\<close>, and it is not older than
  the filter range behind the recorded block), has a fresh block in the next report, and is
  reported as reorged there exactly when that fresh block differs from it.
\<close>

theorem Poll_detects:
  assumes "poller_env S ss_map ss_ok L" "poller_ok ss_map ss_ok p" "tracker p \<noteq> None"
    "0 < a" "a \<le> b" "b \<noteq> - 1" "Poll lf S L a b p s = Ret (((Some r, e), p'), s')"
    "0 < a2" "a2 \<le> b2" "b2 \<noteq> - 1" "Poll lf2 S L a2 b2 p' s2 = Ret (((Some r2, e2), p2), s2')"
    "g \<in> set (GoodBlocks r)" "a2 \<le> Number g" "Number g \<le> b2"
    "p_policy p \<noteq> PolicyFast \<or> Logs g \<noteq> []"
    "sint (LastGoodBlock r - filterRange p) < sint (Number g)"
  shows "\<exists>g2\<in>set (GoodBlocks r2). Number g2 = Number g \<and> (g \<in> set (ReorgedBlocks r2) \<longleftrightarrow> differs g g2)"
proof -
  note env = assms(1)
  obtain m bm t' where out: "poller_env.fetched S s a b p bm m"
      "poller_env.poll_outcome S ss_map ss_ok a b p (mark bm (watched S p) (u64_range a b) m) t' r e p'"
    using poller_env.Poll_report [OF env assms(2-4,6,7)] .
  have p': "poller_ok ss_map ss_ok p'" "tracker p' \<noteq> None"
    using poller_env.poller_ok_Poll [OF env assms(2-4,6,7)] by auto
  obtain m2 bm2 t2 where out2: "poller_env.fetched S s2 a2 b2 p' bm2 m2"
      "poller_env.poll_outcome S ss_map ss_ok a2 b2 p' (mark bm2 (watched S p') (u64_range a2 b2) m2) t2 r2 e2 p2"
    using poller_env.Poll_report [OF env p' assms(8,10,11)] .
  have w: "watched S p' (Number g) = Some g"
    using poller_env.outcome_tracks_good [OF env out assms(12,15)] poller_env.outcome_recorded [OF env out(2)] assms(16)
    by (simp add: watched_if)
  then have "Number g \<in> Number ` set (GoodBlocks r2)"
    using poller_env.report_blocks(2) [OF env out2] assms(13,14) by simp
  then obtain g2 where g2: "g2 \<in> set (GoodBlocks r2)" "Number g2 = Number g" by auto
  have "g \<in> set (ReorgedBlocks r2) \<longleftrightarrow> (\<exists>h\<in>set (GoodBlocks r2). Number h = Number g \<and> differs g h)"
    using poller_env.outcome_reorged [OF env out2 p'(1), of g] w assms(13,14) by simp
  also have "\<dots> \<longleftrightarrow> differs g g2"
  proof
    assume "\<exists>h\<in>set (GoodBlocks r2). Number h = Number g \<and> differs g h"
    then obtain h where h: "h \<in> set (GoodBlocks r2)" "Number h = Number g" "differs g h" by blast
    have "h = g2" by (rule poller_env.good_unique [OF env out2 h(1) g2(1)]) (simp add: h(2) g2(2))
    then show "differs g g2" using h(3) by simp
  qed (use g2 in blast)
  finally show ?thesis using g2 by blast
qed

theorem Poll_detects_witness:
  "\<exists>g\<in>set (GoodBlocks (report (first_poll PolicyFast))).
     \<exists>g2\<in>set (GoodBlocks (report (Poll True list_ss std_lib 5 7 (polled PolicyFast) chain3))).
       Number g2 = Number g \<and>
       (g \<in> set (ReorgedBlocks (report (Poll True list_ss std_lib 5 7 (polled PolicyFast) chain3))) \<longleftrightarrow> differs g g2)"
proof -
  let ?r = "report (first_poll PolicyFast)" and ?y = "Poll True list_ss std_lib 5 7 (polled PolicyFast) chain3"
  have ok: "ok_report ?y" by code_simp
  obtain g where g: "g \<in> set (GoodBlocks ?r)" "Number g = 6" "Logs g \<noteq> []"
  proof -
    have "\<exists>g\<in>set (GoodBlocks ?r). Number g = 6 \<and> length (Logs g) = 1" by code_simp
    then show thesis using that by fastforce
  qed
  have s: "sint (LastGoodBlock ?r - filterRange (sample_poller PolicyFast)) < 6" by code_simp
  from Poll_detects [OF lpe.poller_env_axioms sample_ok _ _ _
      first_poll_Ret [OF first_poll_ok(2)]
      _ _ _ ok_report_Ret [OF ok, of "polled PolicyFast" chain3] g(1)]
  show ?thesis using g s by (intro bexI [OF _ g(1)]) simp
qed

section \<open>Logs, bookkeeping and errors of a poll\<close>

text \<open>
  C11. No log is lost or invented. The logs of each good block are exactly the logs the node
  returned for its number, in the node's order, and every returned log of the range is in some
  good block; under the cheap policies the answer is the one to the first request of the poll.
\<close>

theorem Poll_logs_complete:
  assumes "poller_env S ss_map ss_ok L" "poller_ok ss_map ss_ok p" "tracker p \<noteq> None"
    "0 < a" "a \<le> b" "b \<noteq> - 1" "Poll lf S L a b p s = Ret (((Some r, e), p'), s')"
  shows "\<exists>logs s0. answered (client p) (poll_query a b (addresses p) (topics p)) s0 logs \<and>
    (p_policy p \<le> PolicyNormal \<longrightarrow> s0 = s) \<and>
    (\<forall>g\<in>set (GoodBlocks r). Logs g = logs_of (Number g) logs) \<and>
    (\<forall>l\<in>set logs. a \<le> log_BlockNumber l \<and> log_BlockNumber l \<le> b \<longrightarrow> (\<exists>g\<in>set (GoodBlocks r). l \<in> set (Logs g)))"
proof -
  obtain m bm t' where out: "poller_env.fetched S s a b p bm m"
      "poller_env.poll_outcome S ss_map ss_ok a b p (mark bm (watched S p) (u64_range a b) m) t' r e p'"
    using poller_env.Poll_report [OF assms(1-4,6,7)] .
  show ?thesis by (rule poller_env.outcome_logs [OF assms(1) out])
qed

theorem Poll_logs_complete_witness:
  "\<exists>logs. answered sample_client (poll_query 5 7 None None) chain1 logs \<and>
     (\<forall>g\<in>set (GoodBlocks (report (first_poll PolicyNormal))). Logs g = logs_of (Number g) logs)"
  using Poll_logs_complete [OF lpe.poller_env_axioms sample_ok _ _ _
      first_poll_Ret [OF first_poll_ok(1)]]
  by (auto simp: sample_poller_def poller_New_def)

text \<open>
  C13. What a poll records. The recorded block is the last good block of the report; it is the end
  of the range when nothing was reorged, never past the first reorged block otherwise, and always
  between the block before the range and the end of the range.
\<close>

theorem Poll_records:
  assumes "poller_env S ss_map ss_ok L" "poller_ok ss_map ss_ok p" "tracker p \<noteq> None"
    "0 < a" "a \<le> b" "b \<noteq> - 1" "Poll lf S L a b p s = Ret (((Some r, e), p'), s')"
  shows "lastRecordedBlock p' = res_LastGoodBlock r \<and> FromBlock r = a \<and> ToBlock r = b \<and>
    (ReorgedBlocks r = [] \<longrightarrow> res_LastGoodBlock r = b) \<and>
    (\<forall>old\<in>set (ReorgedBlocks r). res_LastGoodBlock r \<le> Number old) \<and>
    a - 1 \<le> res_LastGoodBlock r \<and> res_LastGoodBlock r \<le> b"
proof -
  note env = assms(1)
  obtain m bm t' where out: "poller_env.fetched S s a b p bm m"
      "poller_env.poll_outcome S ss_map ss_ok a b p (mark bm (watched S p) (u64_range a b) m) t' r e p'"
    using poller_env.Poll_report [OF env assms(2-4,6,7)] .
  note rec = poller_env.outcome_recorded [OF env out(2)]
  note reorged = poller_env.outcome_reorged [OF env out assms(2)]
  have good: "\<forall>g\<in>set (GoodBlocks r). a \<le> Number g \<and> Number g \<le> b"
    by (rule poller_env.report_blocks(4) [OF env out])
  have range: "\<forall>old\<in>set (ReorgedBlocks r). a \<le> Number old \<and> Number old \<le> b" using reorged by blast
  have first: "LastGoodBlock r \<le> Number old" if "old \<in> set (ReorgedBlocks r)" for old
  proof -
    have "GoodBlocks r \<noteq> []" "ReorgedBlocks r \<noteq> []" using reorged that by auto
    moreover have "0 < Number (hd (ReorgedBlocks r))"
      using range hd_in_set [OF \<open>ReorgedBlocks r \<noteq> []\<close>] assms(4) by (meson order_less_le_trans)
    ultimately have "LastGoodBlock r \<le> Number (hd (ReorgedBlocks r))" by (intro LastGoodBlock_le_first_reorged)
    also have "\<dots> \<le> Number old" using poller_env.reorged_ascending(1) [OF env out assms(2)] that
      by (cases "ReorgedBlocks r") auto
    finally show ?thesis .
  qed
  show ?thesis using rec first LastGoodBlock_no_reorg [of r]
      LastGoodBlock_le_to [of r] LastGoodBlock_ge_from [of r] good range assms(4,5) by simp
qed

theorem Poll_records_witness:
  "res_LastGoodBlock (report (Poll True list_ss std_lib 5 7 (polled PolicyNormal) chain2)) = 6 \<and>
   list_all (\<lambda>old. res_LastGoodBlock (report (Poll True list_ss std_lib 5 7 (polled PolicyNormal) chain2)) \<le> Number old)
     (ReorgedBlocks (report (Poll True list_ss std_lib 5 7 (polled PolicyNormal) chain2)))"
proof -
  have "res_LastGoodBlock (report (Poll True list_ss std_lib 5 7 (polled PolicyNormal) chain2)) = 6" by code_simp
  then show ?thesis
    using Poll_records [OF lpe.poller_env_axioms polled_ok [OF first_poll_ok(1)] _ _ _ second_poll] by (simp add: list_all_iff)
qed

text \<open>
  A report comes with an error exactly when reorgs are detected and the first block of the
  range was reorged, and the error is then \<open>ErrFromBlockReorged\<close> (so also
  \<open>ErrChainIsReorging\<close>).
\<close>

theorem Poll_from_reorged:
  assumes "poller_env S ss_map ss_ok L" "poller_ok ss_map ss_ok p" "tracker p \<noteq> None"
    "0 < a" "a \<le> b" "b \<noteq> - 1" "Poll lf S L a b p s = Ret (((Some r, e), p'), s')"
  shows "(e \<noteq> None \<longleftrightarrow> doReorg p \<and> a \<in> Number ` set (ReorgedBlocks r)) \<and>
    (e \<noteq> None \<longrightarrow> err_Is e ErrFromBlockReorged \<and> err_Is e ErrChainIsReorging)"
proof -
  note env = assms(1)
  obtain m bm t' where out: "poller_env.fetched S s a b p bm m"
      "poller_env.poll_outcome S ss_map ss_ok a b p (mark bm (watched S p) (u64_range a b) m) t' r e p'"
    using poller_env.Poll_report [OF env assms(2-4,6,7)] .
  have "e \<noteq> None \<longrightarrow> e = Some (ErrWrap ErrFromBlockReorged ''fromBlock %d was removed/reorged'')"
    using out(2) by (simp add: poller_env.poll_outcome_def [OF env])
  then show ?thesis using poller_env.outcome_from [OF env out assms(2,5)] by (auto simp: error_defs)
qed

theorem Poll_from_reorged_witness:
  "err_Is (report_err (Poll True list_ss std_lib 6 7 (polled PolicyNormal) chain2)) ErrFromBlockReorged"
proof -
  let ?x = "Poll True list_ss std_lib 6 7 (polled PolicyNormal) chain2"
  have ok: "ok_report ?x" by code_simp
  have "map Number (ReorgedBlocks (report ?x)) = [6] \<and> doReorg (polled PolicyNormal)" by code_simp
  then show ?thesis using Poll_from_reorged [OF lpe.poller_env_axioms polled_ok [OF first_poll_ok(1)] _ _ _
      ok_report_Ret [OF ok, of "polled PolicyNormal" chain2]]
    by (cases "ReorgedBlocks (report ?x)") auto
qed

section \<open>Errors, and that a poll returns\<close>

definition cheap :: "policy \<Rightarrow> bool" where
  "cheap pol \<longleftrightarrow> pol \<le> PolicyNormal"

definition fetch_or_reorging :: "go_error \<Rightarrow> bool" where
  "fetch_or_reorging e \<longleftrightarrow> errors_Is e ErrFetchError \<or> errors_Is e errHashesDiffer"

lemma collectLogs_err: "collectLogs Map.empty logs = ((n, Some e), m) \<Longrightarrow> errors_Is e errHashesDiffer"
  using collectLogs_ok [of logs] collectLogs_disagree [of logs] by (cases "logs_agree logs") auto

lemma collectHeaders_err:
  "b \<noteq> - 1 \<Longrightarrow> collectHeaders m a b hs = Ret ((n, Some e), m') \<Longrightarrow> errors_Is e errHashesDiffer"
  using collectHeaders_ok [of b m a hs] collectHeaders_disagree [of b m a hs] by (cases "headers_agree m a b hs") auto

lemma collectHeaders_returns: "b \<noteq> - 1 \<Longrightarrow> returns (collectHeaders m a b hs)"
  using collectHeaders_ok [of b m a hs] collectHeaders_disagree [of b m a hs]
  by (cases "headers_agree m a b hs") (auto simp: returns_def)

lemma collect_failed_err:
  "errors_Is x errHashesDiffer \<Longrightarrow> collect_failed msg x m = (m1, Some e) \<Longrightarrow> fetch_or_reorging e"
  by (auto simp: collect_failed_def fetch_or_reorging_def)

lemma pollCheap_err:
  assumes "b \<noteq> - 1" "pollCheap L a b as ts cl Map.empty s = Ret ((m1, Some e), s1)"
  shows "fetch_or_reorging e"
proof -
  obtain logs e0 s0 where f: "ec_FilterLogs cl (poll_query a b as ts) s = Ret ((logs, e0), s0)"
    using assms(2) by (auto simp: pollCheap_def go_bind_Ret_iff)
  show ?thesis
  proof (cases e0)
    case (Some x)
    then show ?thesis using assms(2) f by (auto simp: pollCheap_def fetch_or_reorging_def)
  next
    case None
    obtain n e' m where c: "collectLogs Map.empty logs = ((n, e'), m)" by (metis prod.exhaust)
    show ?thesis
    proof (cases e')
      case (Some x)
      then show ?thesis using assms(2) f None c collect_failed_err [OF collectLogs_err, of logs n x m]
        by (auto simp: pollCheap_def)
    next
      case n: None
      let ?ns = "for_up (\<lambda>n ts. Inr (if m n = None then ts else ts @ [n])) a b [] :: (u64 list + u64 list) option"
      from assms(2) f None c n obtain ns headers e2 s2 where
          h: "getHeadersByNumbers L cl ns s0 = Ret ((headers, e2), s2)"
        and k: "(if e2 \<noteq> None then Ret ((None, Some (ErrWrap ErrFetchError ''failed to get headers for resultBlocks'')), s2)
             else go_bind (collectHeaders m a b headers) (\<lambda>((_, e3), m2).
               case e3 of Some x \<Rightarrow> Ret (collect_failed ''collectHeaders error'' x m2, s2)
                        | None \<Rightarrow> Ret ((Some m2, None), s2))) = Ret ((m1, Some e), s1)"
        by (auto simp: pollCheap_def go_bind_Ret_iff Let_def)
      show ?thesis
      proof (cases e2)
        case (Some x)
        then show ?thesis using k by (auto simp: fetch_or_reorging_def)
      next
        case None
        with k obtain n3 x m3 where "collectHeaders m a b headers = Ret ((n3, Some x), m3)"
            "collect_failed ''collectHeaders error'' x m3 = (m1, Some e)"
          by (auto simp: go_bind_Ret_iff split: option.splits)
        then show ?thesis using collect_failed_err collectHeaders_err [OF assms(1)] by blast
      qed
    qed
  qed
qed

lemma pollMissing_err:
  assumes "b \<noteq> - 1" "pollMissing S L \<lparr>fromBlock = a, toBlock = b, policy = pol\<rparr> cl (Some t) m s = Ret ((m2, bm, Some e), s')"
  shows "fetch_or_reorging e"
proof -
  from assms(2) consider "errors_Is e ErrFetchError"
    | n x m3 headers s1 where "collectHeaders m a b headers = Ret ((n, Some x), m3)"
      "(if errors_Is x errHashesDiffer then Ret ((Some m3, bm, Some x), s1)
        else Ret ((None, [], Some (ErrWrap x ''collectHeaders error'')), s1)) = Ret ((m2, bm, Some e), s')"
    by (auto simp: pollMissing_def go_bind_Ret_iff Let_def split: if_splits option.splits sum.splits)
  then show ?thesis
    using collectHeaders_err [OF assms(1)] by cases (auto simp: fetch_or_reorging_def split: if_splits)
qed

text \<open>
  C18. Under the cheap policies a poll that reports nothing failed to fetch, or met data that
  disagree on a block's hash: the error is \<open>ErrFetchError\<close> or \<open>errHashesDiffer\<close>, never an internal
  bug, and all the poll changed in the poller is to clear old blocks.
\<close>

theorem Poll_errors:
  assumes "poller_env S ss_map ss_ok L" "poller_ok ss_map ss_ok p" "tracker p \<noteq> None"
    "0 < a" "a \<le> b" "b \<noteq> - 1" "cheap (p_policy p)" "Poll lf S L a b p s = Ret (((None, e), p'), s')"
  shows "(\<exists>x. e = Some x \<and> fetch_or_reorging x) \<and> lastRecordedBlock p' = lastRecordedBlock p \<and>
    (\<forall>n. tracked S p' n = watched S p n)"
proof -
  note env = assms(1)
  obtain t where t: "tracker p = Some t" using assms(3) by auto
  have "p_policy p < PolicyExpensive" using assms(7) policy_order(2) by (auto simp: cheap_def)
  moreover have "p_policy p < PolicyExpensiveBlock" using calculation policy_order(3) by (rule order_less_trans)
  ultimately have pol: "poll lf L \<lparr>fromBlock = a, toBlock = b, policy = p_policy p\<rparr> (addresses p) (topics p) (client p) s =
      pollCheap L a b (addresses p) (topics p) (client p) Map.empty s"
    using assms(7) by (auto simp: poll_def cheap_def dest: leD)
  from poller_env.Poll_ok [OF env t poller_env.poller_ok_tracker [OF env assms(2) t] assms(4,6,8)]
  obtain t' where r: "e \<noteq> None" "p' = p\<lparr>tracker := Some t'\<rparr>" "getTrackerBlock S t' = watched S p"
    and src: "(\<exists>m1 s1. pollCheap L a b (addresses p) (topics p) (client p) Map.empty s = Ret ((m1, e), s1)) \<or>
      (\<exists>t1 m s1 m2 bm s2. pollMissing S L \<lparr>fromBlock = a, toBlock = b, policy = p_policy p\<rparr> (client p) (Some t1) m s1 = Ret ((m2, bm, e), s2))"
    unfolding pol by auto
  then obtain x where x: "e = Some x" by auto
  have "fetch_or_reorging x"
    using src unfolding x
    by (elim disjE exE) (erule pollCheap_err [OF assms(6)], erule pollMissing_err [OF assms(6)])
  then show ?thesis using r x by (simp add: tracked_def)
qed

definition fail_report :: "(((poller_result option \<times> err) \<times> 'p) \<times> 'c) go \<Rightarrow> bool" where
  "fail_report x = (case x of Ret (((None, _), _), _) \<Rightarrow> True | _ \<Rightarrow> False)"

lemma fail_report_Ret:
  "fail_report x \<Longrightarrow> x = Ret (((None, report_err x), after p x), state_after s x)"
  by (auto simp: fail_report_def report_err_def after_def state_after_def split: go.splits option.splits)

theorem Poll_errors_witness:
  "\<exists>x. report_err (Poll True list_ss std_lib 5 7 (polled PolicyNormal) (sample_log 5 51 # chain1)) = Some x \<and>
     fetch_or_reorging x"
proof -
  let ?x = "Poll True list_ss std_lib 5 7 (polled PolicyNormal) (sample_log 5 51 # chain1)"
  have f: "fail_report ?x" by code_simp
  have "cheap (p_policy (polled PolicyNormal))" by code_simp
  then show ?thesis
    using Poll_errors [OF lpe.poller_env_axioms polled_ok [OF first_poll_ok(1)] _ _ _ _
        fail_report_Ret [OF f, of "polled PolicyNormal" "sample_log 5 51 # chain1"]] by simp
qed

text \<open>The client answers every request, with data or with an error.\<close>

definition client_returns :: "'c eth_client \<Rightarrow> bool" where
  "client_returns cl \<longleftrightarrow> (\<forall>q s. returns (ec_FilterLogs cl q s)) \<and> (\<forall>es s. returns (ec_BatchCallContext cl es s))"

lemma getHeaders_returns: "client_returns cl \<Longrightarrow> returns (getHeadersByNumbers L cl ns s)"
  unfolding getHeadersByNumbers_def CallBatch_def marshal_all_Marshal Let_def
  by (auto simp: client_returns_def intro!: returns_bind split: prod.splits)

lemma pollCheap_returns:
  assumes "client_returns cl" "b \<noteq> - 1"
  shows "returns (pollCheap L a b as ts cl m s)"
  unfolding pollCheap_def
  using assms getHeaders_returns [OF assms(1)] collectHeaders_returns [OF assms(2)]
  by (auto simp: client_returns_def for_up_range Let_def intro!: returns_bind split: prod.splits option.splits)

lemma fetch_concurrently_returns:
  "client_returns cl \<Longrightarrow> returns (fetch_concurrently lf L cl q ns s)"
  unfolding fetch_concurrently_def Let_def
  using getHeaders_returns [of cl L]
  by (auto simp: client_returns_def intro!: returns_bind split: prod.splits)

lemma pollMissing_returns:
  assumes "client_returns cl" "0 < a" "b \<noteq> - 1"
  shows "returns (pollMissing S L \<lparr>fromBlock = a, toBlock = b, policy = pol\<rparr> cl (Some t) m s)"
  unfolding pollMissing_def
  using getHeaders_returns [OF assms(1)] collectHeaders_returns [OF assms(3)] assms(2)
  by (auto simp: for_down_range Let_def intro!: returns_bind split: prod.splits option.splits)

context poller_env
begin

lemma pollExpensive_returns:
  assumes "client_returns cl" "a \<le> b" "b \<noteq> - 1"
  shows "returns (pollExpensive lf L a b as ts cl m s)"
  unfolding pollExpensive_def expensive_block_numbers_le [OF assms(2,3)]
  using fetch_concurrently_returns [OF assms(1)] collectHeaders_returns [OF assms(3)]
  by (auto intro!: returns_bind split: prod.splits option.splits)

lemma poll_returns:
  assumes "client_returns cl" "a \<le> b" "b \<noteq> - 1"
  shows "returns (poll lf L \<lparr>fromBlock = a, toBlock = b, policy = pol\<rparr> as ts cl s)"
proof -
  consider "PolicyExpensiveBlock \<le> pol" | "pol = PolicyExpensive" | "pol \<le> PolicyNormal"
    using policy_cases [of pol] by blast
  then show ?thesis
    using pollCheap_returns [OF assms(1,3)] pollExpensive_returns [OF assms(1-3)]
    by cases (simp_all add: poll_def)
qed

end



section \<open>Two inputs on which a poll does not return\<close>

lemma processResult_untracked:
  assumes "b \<noteq> - 1"
  shows "\<exists>r. processResult S \<lparr>fromBlock = a, toBlock = b, policy = pol\<rparr> None m = Ret ((Some r, None), None) \<and> ReorgedBlocks r = []"
proof -
  let ?f = "processResult_body S \<lparr>fromBlock = a, toBlock = b, policy = pol\<rparr> m"
  have "\<exists>r'. for_each ?f ns (None, r) = Inr (None, r') \<and> ReorgedBlocks r' = ReorgedBlocks r" for ns r
  proof (induction ns arbitrary: r)
    case (Cons n ns)
    have "\<exists>r1. ?f n (None, r) = Inr (None, r1) \<and> ReorgedBlocks r1 = ReorgedBlocks r"
      by (cases "m n") (auto simp: processResult_body_def addTrackerBlockPolicy_def Let_def split: bool.splits)
    then obtain r1 where "?f n (None, r) = Inr (None, r1)" "ReorgedBlocks r1 = ReorgedBlocks r" by blast
    then show ?case using Cons.IH [of r1] by simp
  qed simp
  from this [of "u64_range a b" new_PollerResult] assms show ?thesis
    by (auto simp: processResult_def for_up_range new_PollerResult_def)
qed

lemma Poll_untracked:
  assumes "tracker p = None" "b \<noteq> - 1" "Poll lf S L a b p s = Ret (((Some r, e), p'), s')"
  shows "tracker p' = None \<and> lastRecordedBlock p' = b"
proof -
  have l: "lastRecordedBlock p = 0"
    using assms(1,3) by (auto simp: Poll_def tracker_clearUntil_def nil_call_def split: if_splits)
  obtain m where m: "Poll_process S L \<lparr>fromBlock = a, toBlock = b, policy = p_policy p\<rparr> [] m p = Ret ((Some r, e), p')"
    using assms(1,3) l by (auto simp: Poll_def Let_def go_bind_Ret_iff pollMissing_def split: if_splits)
  obtain r' where "processResult S \<lparr>fromBlock = a, toBlock = b, policy = p_policy p\<rparr> None m = Ret ((Some r', None), None)" "ReorgedBlocks r' = []"
    using processResult_untracked [OF assms(2)] by blast
  then show ?thesis using m assms(1)
    by (auto simp: Poll_process_def findReorg_def map_value_def Let_def LastGoodBlock_def split: option.splits if_splits)
qed

text \<open>
  C25. A poller without a tracker (reorg detection off) polls once: its second poll panics on the
  nil tracker, because the guard before clearing joins its two conditions with \<open>||\<close>.
\<close>

theorem Poll_without_tracker_panics:
  assumes "tracker p = None" "b \<noteq> - 1" "b \<noteq> 0" "Poll lf S L a b p s = Ret (((Some r, e), p'), s')"
  shows "Poll lf2 S L a2 b2 p' s2 = Panic ''invalid memory address or nil pointer dereference''"
  using Poll_untracked [OF assms(1,2,4)] assms(3)
  by (simp add: Poll_def tracker_clearUntil_def nil_call_def)

theorem Poll_without_tracker_panics_witness:
  "let p = poller_New list_ss None None False False 10 sample_client PolicyNormal;
       p' = after p (Poll True list_ss std_lib 5 7 p chain1)
   in Poll True list_ss std_lib 5 7 p' chain1 = Panic ''invalid memory address or nil pointer dereference''"
proof -
  let ?p = "poller_New list_ss None None False False 10 sample_client PolicyNormal"
  let ?x = "Poll True list_ss std_lib 5 7 ?p chain1"
  have ok: "ok_report ?x" by code_simp
  have "tracker ?p = None" by (simp add: poller_New_def)
  from Poll_without_tracker_panics [OF this _ _ ok_report_Ret [OF ok, of ?p chain1]] show ?thesis
    unfolding Let_def by simp
qed

text \<open>
  C26. A tracking poller asked to poll from block 0 never returns once it has its logs: the
  unsigned counter of the loop that looks for missing blocks cannot go below its lower bound.
\<close>

theorem Poll_from_zero_hangs:
  assumes "poller_env S ss_map ss_ok L" "poller_ok ss_map ss_ok p" "tracker p \<noteq> None"
    "poll lf L \<lparr>fromBlock = 0, toBlock = b, policy = p_policy p\<rparr> (addresses p) (topics p) (client p) s = Ret ((m, None), s1)"
  shows "Poll lf S L 0 b p s = Hang"
proof -
  note env = assms(1)
  obtain t where t: "tracker p = Some t" using assms(3) by auto
  from poller_env.Poll_clears [OF env t poller_env.poller_ok_tracker [OF env assms(2) t]] obtain t1 where
    t1: "tracker_clearUntil S (lastRecordedBlock p - filterRange p) p = Ret (p\<lparr>tracker := Some t1\<rparr>)" by blast
  have "for_down (find_missing S t1 k) b 0 [] = None" for k
    by (rule for_down_zero_hangs) (simp add: find_missing_def)
  then show ?thesis using t t1 assms(4) by (simp add: Poll_def Let_def pollMissing_def)
qed

theorem Poll_from_zero_hangs_witness:
  "Poll True list_ss std_lib 0 7 (sample_poller PolicyFast) chain1 = Hang"
proof -
  let ?p = "sample_poller PolicyFast"
  let ?x = "poll True std_lib \<lparr>fromBlock = 0, toBlock = 7, policy = p_policy ?p\<rparr> (addresses ?p) (topics ?p) (client ?p) chain1"
  have "(case ?x of Ret ((_, None), _) \<Rightarrow> True | _ \<Rightarrow> False)" by code_simp
  then obtain m s1 where "?x = Ret ((m, None), s1)" by (auto split: go.splits option.splits)
  from Poll_from_zero_hangs [OF lpe.poller_env_axioms sample_ok this] show ?thesis .
qed

end
