(* ===== verification/Engine_States.thy ===== *)
theory Engine_States
  imports Watcher_Types
begin

text \<open>
  The engine's state machine of a block (\<open>internal/engine/block_metadata_states.go\<close>): states and
  events are \<open>uint8\<close> constants of one block, so the events go on counting where the states end.
  The transition table is the one of the source, and firing an event looks it up.
\<close>

type_synonym blockState = u8
type_synonym blockEvent = u8

definition stateNull :: blockState where "stateNull = 0"
definition stateSeen :: blockState where "stateSeen = 1"
definition stateHandled :: blockState where "stateHandled = 2"
definition stateReorged :: blockState where "stateReorged = 3"
definition stateHandledReorg :: blockState where "stateHandledReorg = 4"
definition stateInvalid :: blockState where "stateInvalid = 5"

definition eventInvalid :: blockEvent where "eventInvalid = 6"
definition eventSeeBlock :: blockEvent where "eventSeeBlock = 7"
definition eventHandle :: blockEvent where "eventHandle = 8"
definition eventSeeReorg :: blockEvent where "eventSeeReorg = 9"
definition eventHandleReorg :: blockEvent where "eventHandleReorg = 10"

lemmas state_defs = stateNull_def stateSeen_def stateHandled_def stateReorged_def stateHandledReorg_def stateInvalid_def
lemmas event_defs = eventInvalid_def eventSeeBlock_def eventHandle_def eventSeeReorg_def eventHandleReorg_def

definition watcherEngineStateMachine :: "((blockState \<times> blockEvent) \<times> blockState) list" where
  "watcherEngineStateMachine =
     [((stateNull, eventSeeBlock), stateSeen),
      ((stateNull, eventSeeReorg), stateInvalid),
      ((stateNull, eventHandle), stateInvalid),
      ((stateNull, eventHandleReorg), stateInvalid),
      ((stateSeen, eventSeeBlock), stateInvalid),
      ((stateSeen, eventSeeReorg), stateInvalid),
      ((stateSeen, eventHandle), stateHandled),
      ((stateSeen, eventHandleReorg), stateInvalid),
      ((stateHandled, eventSeeBlock), stateHandled),
      ((stateHandled, eventSeeReorg), stateReorged),
      ((stateHandled, eventHandle), stateInvalid),
      ((stateHandled, eventHandleReorg), stateInvalid),
      ((stateReorged, eventSeeBlock), stateInvalid),
      ((stateReorged, eventSeeReorg), stateInvalid),
      ((stateReorged, eventHandle), stateInvalid),
      ((stateReorged, eventHandleReorg), stateHandledReorg),
      ((stateHandledReorg, eventSeeBlock), stateInvalid),
      ((stateHandledReorg, eventSeeReorg), stateInvalid),
      ((stateHandledReorg, eventHandle), stateInvalid),
      ((stateHandledReorg, eventHandleReorg), stateInvalid)]"

definition event_IsValid :: "blockEvent \<Rightarrow> bool" where
  "event_IsValid event = (event = eventSeeBlock \<or> event = eventHandle \<or> event = eventSeeReorg \<or> event = eventHandleReorg)"

definition Fire :: "blockState \<Rightarrow> blockEvent \<Rightarrow> blockState go" where
  "Fire state event =
     (if \<not> event_IsValid event then Panic ''invalid Engine event: %d''
      else case map_of watcherEngineStateMachine (state, event) of
             None \<Rightarrow> Ret stateInvalid
           | Some newState \<Rightarrow> Ret newState)"

definition state_String :: "blockState \<Rightarrow> string go" where
  "state_String state =
     (if state = stateNull then Ret ''NULL''
      else if state = stateSeen then Ret ''SEEN''
      else if state = stateHandled then Ret ''HANDLED''
      else if state = stateReorged then Ret ''REORGED''
      else if state = stateHandledReorg then Ret ''HANDLED_REORG''
      else if state = stateInvalid then Ret ''INVALID_BLOCK_STATE''
      else Panic ''invalid Engine state: %d'')"

definition state_IsValid :: "blockState \<Rightarrow> bool go" where
  "state_IsValid state =
     (if state = stateInvalid then Ret False
      else if state = stateNull \<or> state = stateSeen \<or> state = stateHandled \<or> state = stateReorged \<or> state = stateHandledReorg
      then Ret True
      else Panic ''invalid Engine state: %d'')"

definition event_String :: "blockEvent \<Rightarrow> string go" where
  "event_String event =
     (if event = eventSeeBlock then Ret ''See Block''
      else if event = eventHandle then Ret ''Handle Block''
      else if event = eventSeeReorg then Ret ''See Reorg''
      else if event = eventHandleReorg then Ret ''Handle Reorg''
      else Panic ''invalid Engine event: %d'')"

section \<open>What firing does\<close>

lemma state_distinct [simp]:
  "stateNull \<noteq> stateSeen" "stateNull \<noteq> stateHandled" "stateNull \<noteq> stateReorged" "stateNull \<noteq> stateHandledReorg" "stateNull \<noteq> stateInvalid"
  "stateSeen \<noteq> stateNull" "stateSeen \<noteq> stateHandled" "stateSeen \<noteq> stateReorged" "stateSeen \<noteq> stateHandledReorg" "stateSeen \<noteq> stateInvalid"
  "stateHandled \<noteq> stateNull" "stateHandled \<noteq> stateSeen" "stateHandled \<noteq> stateReorged" "stateHandled \<noteq> stateHandledReorg" "stateHandled \<noteq> stateInvalid"
  "stateReorged \<noteq> stateNull" "stateReorged \<noteq> stateSeen" "stateReorged \<noteq> stateHandled" "stateReorged \<noteq> stateHandledReorg" "stateReorged \<noteq> stateInvalid"
  "stateHandledReorg \<noteq> stateNull" "stateHandledReorg \<noteq> stateSeen" "stateHandledReorg \<noteq> stateHandled" "stateHandledReorg \<noteq> stateReorged" "stateHandledReorg \<noteq> stateInvalid"
  "stateInvalid \<noteq> stateNull" "stateInvalid \<noteq> stateSeen" "stateInvalid \<noteq> stateHandled" "stateInvalid \<noteq> stateReorged" "stateInvalid \<noteq> stateHandledReorg"
  by (simp_all add: state_defs)

lemma event_distinct [simp]:
  "eventSeeBlock \<noteq> eventHandle" "eventSeeBlock \<noteq> eventSeeReorg" "eventSeeBlock \<noteq> eventHandleReorg"
  "eventHandle \<noteq> eventSeeBlock" "eventHandle \<noteq> eventSeeReorg" "eventHandle \<noteq> eventHandleReorg"
  "eventSeeReorg \<noteq> eventSeeBlock" "eventSeeReorg \<noteq> eventHandle" "eventSeeReorg \<noteq> eventHandleReorg"
  "eventHandleReorg \<noteq> eventSeeBlock" "eventHandleReorg \<noteq> eventHandle" "eventHandleReorg \<noteq> eventSeeReorg"
  by (simp_all add: event_defs)

text \<open>The outcome of each event, as a function of the state.\<close>

definition see_block :: "blockState \<Rightarrow> blockState" where
  "see_block s = (if s = stateNull then stateSeen else if s = stateHandled then stateHandled else stateInvalid)"

definition handle_block :: "blockState \<Rightarrow> blockState" where
  "handle_block s = (if s = stateSeen then stateHandled else stateInvalid)"

definition see_reorg :: "blockState \<Rightarrow> blockState" where
  "see_reorg s = (if s = stateHandled then stateReorged else stateInvalid)"

definition handle_reorg :: "blockState \<Rightarrow> blockState" where
  "handle_reorg s = (if s = stateReorged then stateHandledReorg else stateInvalid)"

lemmas transition_defs = see_block_def handle_block_def see_reorg_def handle_reorg_def

lemma Fire_events:
  "Fire s eventSeeBlock = Ret (see_block s)" "Fire s eventHandle = Ret (handle_block s)"
  "Fire s eventSeeReorg = Ret (see_reorg s)" "Fire s eventHandleReorg = Ret (handle_reorg s)"
  by (auto simp: Fire_def event_IsValid_def watcherEngineStateMachine_def transition_defs)

text \<open>
  The machine the table encodes. Firing panics exactly on an event that is none of the four;
  a block's life is Null, Seen, Handled, and, if it is reorged, Reorged, HandledReorg; seeing a
  handled block again changes nothing; every other event leads to the invalid state, from which
  no event leads out.
\<close>

theorem Fire_machine:
  "(event_IsValid ev \<longleftrightarrow> (\<exists>s'. Fire s ev = Ret s')) \<and>
   Fire stateNull eventSeeBlock = Ret stateSeen \<and> Fire stateSeen eventHandle = Ret stateHandled \<and>
   Fire stateHandled eventSeeBlock = Ret stateHandled \<and> Fire stateHandled eventSeeReorg = Ret stateReorged \<and>
   Fire stateReorged eventHandleReorg = Ret stateHandledReorg \<and>
   (event_IsValid ev \<and> (s, ev) \<notin> {(stateNull, eventSeeBlock), (stateSeen, eventHandle), (stateHandled, eventSeeBlock),
      (stateHandled, eventSeeReorg), (stateReorged, eventHandleReorg)} \<longrightarrow> Fire s ev = Ret stateInvalid)"
proof (cases "event_IsValid ev")
  case True
  then have "ev = eventSeeBlock \<or> ev = eventHandle \<or> ev = eventSeeReorg \<or> ev = eventHandleReorg"
    by (simp add: event_IsValid_def)
  then show ?thesis using True by (auto simp: Fire_events transition_defs)
next
  case False
  then show ?thesis by (simp add: Fire_events transition_defs) (simp add: Fire_def)
qed

theorem Fire_machine_witness:
  "event_IsValid eventSeeBlock \<and> Fire stateInvalid eventSeeBlock = Ret stateInvalid \<and>
   Fire stateHandledReorg eventSeeBlock = Ret stateInvalid"
proof -
  have "event_IsValid eventSeeBlock" by (simp add: event_IsValid_def)
  then show ?thesis using Fire_machine [of eventSeeBlock stateInvalid] Fire_machine [of eventSeeBlock stateHandledReorg] by simp
qed

end
