(* ===== verification/Emitter_Client.thy ===== *)
theory Emitter_Client
  imports Watcher_Types
begin

text \<open>
  The emitter client (\<open>internal/emitterclient\<close>), through which an engine talks to the emitter: the
  receiving ends of the result and error channels, the sync channel, and the loop
  \<open>HandleEmitterError\<close> both engines run. A receive returns \<open>None\<close> once the channel is closed; the
  channels act on a world \<open>'w\<close>.
\<close>

section \<open>The client\<close>

record 'w emitterClient =
  emitterConfig :: config
  emitterSyncChan :: "(('w \<Rightarrow> 'w go) \<times> ('w \<Rightarrow> 'w go)) option"
  ec_pollResultChan :: "'w \<Rightarrow> (poller_result option \<times> 'w) go"
  ec_errChan :: "'w \<Rightarrow> (go_error option \<times> 'w) go"

definition emitterclient_New ::
    "config \<Rightarrow> (('w \<Rightarrow> 'w go) \<times> ('w \<Rightarrow> 'w go)) option \<Rightarrow> ('w \<Rightarrow> (poller_result option \<times> 'w) go) \<Rightarrow>
     ('w \<Rightarrow> (go_error option \<times> 'w) go) \<Rightarrow> 'w emitterClient" where
  "emitterclient_New cfg sync results errs = \<lparr>
     emitterConfig = cfg, emitterSyncChan = sync, ec_pollResultChan = results, ec_errChan = errs\<rparr>"

definition client_Shutdown :: "'w emitterClient \<Rightarrow> 'w \<Rightarrow> 'w go" where
  "client_Shutdown c w = (case emitterSyncChan c of None \<Rightarrow> Ret w | Some (_, close) \<Rightarrow> close w)"

definition SyncsEmitter :: "'w emitterClient \<Rightarrow> 'w \<Rightarrow> 'w go" where
  "SyncsEmitter c w = (case emitterSyncChan c of None \<Rightarrow> Hang | Some (send, _) \<Rightarrow> send w)"

definition WatcherConfig :: "'w emitterClient \<Rightarrow> config" where
  "WatcherConfig c = emitterConfig c"

definition WatcherResult :: "'w emitterClient \<Rightarrow> 'w \<Rightarrow> (poller_result option \<times> 'w) go" where
  "WatcherResult c w = go_bind (ec_pollResultChan c w) (\<lambda>(r, w1). case r of Some x \<Rightarrow> Ret (Some x, w1) | None \<Rightarrow> Ret (None, w1))"

definition WatcherError :: "'w emitterClient \<Rightarrow> 'w \<Rightarrow> (err \<times> 'w) go" where
  "WatcherError c w = go_bind (ec_errChan c w) (\<lambda>(r, w1). case r of Some x \<Rightarrow> Ret (Some x, w1) | None \<Rightarrow> Ret (None, w1))"

section \<open>HandleEmitterError\<close>

text \<open>
  One round: \<open>Inl\<close> is the value the loop returns, \<open>Inr\<close> goes on. The loop ends when an error could
  not be handled or the channel is closed, and may never end.
\<close>

definition HandleEmitterError_round ::
    "'w emitterClient \<Rightarrow> (go_error \<Rightarrow> 'w \<Rightarrow> (err \<times> 'w) go) \<Rightarrow> 'w \<Rightarrow> ((err \<times> 'w) + 'w) go" where
  "HandleEmitterError_round c handle w =
     go_bind (WatcherError c w) (\<lambda>(e, w1).
       case e of
         Some x \<Rightarrow>
           go_bind (handle x w1) (\<lambda>(e2, w2).
             case e2 of
               Some y \<Rightarrow> Ret (Inl (Some (ErrWrap y ''serviceEngine.HandleEmitterError returned non-nil error''), w2))
             | None \<Rightarrow> Ret (Inr w2))
       | None \<Rightarrow> Ret (Inl (None, w1)))"

partial_function (option) error_loop ::
    "'w emitterClient \<Rightarrow> (go_error \<Rightarrow> 'w \<Rightarrow> (err \<times> 'w) go) \<Rightarrow> 'w \<Rightarrow> (err \<times> 'w) go option" where
  "error_loop c handle w =
     (case HandleEmitterError_round c handle w of
        Ret (Inl r) \<Rightarrow> Some (Ret r)
      | Ret (Inr w') \<Rightarrow> error_loop c handle w'
      | Panic m \<Rightarrow> Some (Panic m)
      | Hang \<Rightarrow> Some Hang)"

declare error_loop.simps [code]

definition HandleEmitterError ::
    "'w emitterClient \<Rightarrow> (go_error \<Rightarrow> 'w \<Rightarrow> (err \<times> 'w) go) \<Rightarrow> 'w \<Rightarrow> (err \<times> 'w) go" where
  "HandleEmitterError c handle w = (case error_loop c handle w of None \<Rightarrow> Hang | Some r \<Rightarrow> r)"

section \<open>What the loop does with the errors it receives\<close>

text \<open>A client whose error channel holds the errors \<open>es\<close> and is closed after them.\<close>

definition pop_error :: "go_error list \<times> 'v \<Rightarrow> (go_error option \<times> (go_error list \<times> 'v)) go" where
  "pop_error w = (case w of ([], v) \<Rightarrow> Ret (None, ([], v)) | (e # es, v) \<Rightarrow> Ret (Some e, (es, v)))"

definition queue_handler :: "(go_error \<Rightarrow> 'v \<Rightarrow> err \<times> 'v) \<Rightarrow> go_error \<Rightarrow> go_error list \<times> 'v \<Rightarrow> (err \<times> (go_error list \<times> 'v)) go" where
  "queue_handler h x w = (case h x (snd w) of (e, v) \<Rightarrow> Ret (e, (fst w, v)))"

text \<open>The handler applied in order, up to the first error it does not handle.\<close>

fun handle_all :: "(go_error \<Rightarrow> 'v \<Rightarrow> err \<times> 'v) \<Rightarrow> go_error list \<Rightarrow> 'v \<Rightarrow> err \<times> (go_error list \<times> 'v)" where
  "handle_all h [] v = (None, ([], v))"
| "handle_all h (e # es) v =
     (case h e v of
        (Some y, v') \<Rightarrow> (Some (ErrWrap y ''serviceEngine.HandleEmitterError returned non-nil error''), (es, v'))
      | (None, v') \<Rightarrow> handle_all h es v')"

text \<open>
  C27. \<open>HandleEmitterError\<close> passes the emitter's errors to the service in the order they were sent,
  returns nil when the channel closes with all of them handled, and otherwise stops at the first
  error the service returns, leaving the later ones unread; it always returns once the channel is
  closed.
\<close>

theorem HandleEmitterError_in_order:
  assumes "ec_errChan c = pop_error"
  shows "HandleEmitterError c (queue_handler h) (es, v) = Ret (handle_all h es v)"
proof -
  have "error_loop c (queue_handler h) (es, v) = Some (Ret (handle_all h es v))"
  proof (induction es arbitrary: v)
    case Nil
    have "HandleEmitterError_round c (queue_handler h) ([], v) = Ret (Inl (None, ([], v)))"
      by (simp add: HandleEmitterError_round_def WatcherError_def assms pop_error_def)
    then show ?case by (simp add: error_loop.simps [of c _ "([], v)"])
  next
    case (Cons e es)
    obtain e2 v2 where h: "h e v = (e2, v2)" by fastforce
    show ?case
    proof (cases e2)
      case None
      then have "HandleEmitterError_round c (queue_handler h) (e # es, v) = Ret (Inr (es, v2))"
        by (simp add: HandleEmitterError_round_def WatcherError_def assms pop_error_def queue_handler_def h)
      then show ?thesis using Cons.IH h None by (simp add: error_loop.simps [of c _ "(e # es, v)"])
    next
      case (Some y)
      then have "HandleEmitterError_round c (queue_handler h) (e # es, v) =
          Ret (Inl (Some (ErrWrap y ''serviceEngine.HandleEmitterError returned non-nil error''), (es, v2)))"
        by (simp add: HandleEmitterError_round_def WatcherError_def assms pop_error_def queue_handler_def h)
      then show ?thesis using h Some by (simp add: error_loop.simps [of c _ "(e # es, v)"])
    qed
  qed
  then show ?thesis by (simp add: HandleEmitterError_def)
qed

definition count_until :: "go_error \<Rightarrow> nat \<Rightarrow> err \<times> nat" where
  "count_until e n = (if errors_Is e ErrFetchError then (Some e, n) else (None, n + 1))"

definition no_results :: "go_error list \<times> nat \<Rightarrow> (poller_result option \<times> (go_error list \<times> nat)) go" where
  "no_results w = Ret (None, w)"

definition some_config :: config where
  "some_config = \<lparr>NodeURL = [], StartBlock = 1, FilterRange = 10, cfg_DoReorg = True, cfg_DoHeader = False,
     MaxGoBackRetries = 2, LoopInterval = 0, LogLevel = 0, cfg_Policy = PolicyNormal\<rparr>"

theorem HandleEmitterError_in_order_witness:
  "let c = \<lparr>emitterConfig = some_config, emitterSyncChan = None, ec_pollResultChan = no_results, ec_errChan = pop_error\<rparr>
   in HandleEmitterError c (queue_handler count_until) ([ErrUserError, ErrFetchError, ErrUserError], 0) =
      Ret (Some (ErrWrap ErrFetchError ''serviceEngine.HandleEmitterError returned non-nil error''), ([ErrUserError], 1))"
proof -
  let ?c = "\<lparr>emitterConfig = some_config, emitterSyncChan = None, ec_pollResultChan = no_results, ec_errChan = pop_error\<rparr>"
  have "ec_errChan ?c = pop_error" by simp
  from HandleEmitterError_in_order [OF this, of count_until "[ErrUserError, ErrFetchError, ErrUserError]" 0]
  show ?thesis by (simp add: Let_def count_until_def error_defs)
qed

end
