(* ===== verification/Engine.thy ===== *)
theory Engine
  imports Engine_States Emitter_Client Sorted_Set
begin

text \<open>
  The engine (\<open>internal/engine\<close>): the metadata it keeps of each block by hash, and what it does with
  one poll result (\<open>handleResults\<close>, one round of its loop). Metadata are reached through pointers
  that the tracker shares with the round that works on them, so the model has a heap: the tracker's
  sorted set holds addresses, and firing an event writes the heap at once.
\<close>

section \<open>Metadata and their tracker (block_metadata.go, block_metadata_tracker.go)\<close>

text \<open>
  An \<open>Artifact\<close> is any value; the engine itself only builds one kind, when it appends the artifact
  slice of a block as a single element.
\<close>

datatype 'a artifact = Leaf 'a | Bundle "'a artifact list"

record 'a blockMetadata =
  blockNumber :: u64
  blockHash :: string
  md_state :: blockState
  artifacts :: "'a artifact list"

definition BlockNumber :: "'a blockMetadata \<Rightarrow> u64 go" where
  "BlockNumber k = (if blockNumber k = 0 then Panic ''got blockNumber 0 from a serviceLogStateKey'' else Ret (blockNumber k))"

record ('s, 'a) metadataTracker =
  mt_sortedSet :: 's
  mt_heap :: "'a blockMetadata list"

definition metadata_newTracker :: "('s, nat) sortedset \<Rightarrow> ('s, 'a) metadataTracker" where
  "metadata_newTracker S = \<lparr>mt_sortedSet = ss_New S, mt_heap = []\<rparr>"

definition callerGoodLogs :: string where "callerGoodLogs = ''callerGoodLogs''"
definition callerReorgedLogs :: string where "callerReorgedLogs = ''callerReorgedLogs''"

definition ClearUntil :: "('s, nat) sortedset \<Rightarrow> ('s, 'a) metadataTracker \<Rightarrow> u64 \<Rightarrow> ('s, 'a) metadataTracker go" where
  "ClearUntil S t n =
     go_bind (go_loop (clear_loop S (sint n) (mt_sortedSet t))) (\<lambda>s. Ret (t\<lparr>mt_sortedSet := s\<rparr>))"

definition md :: "('s, 'a) metadataTracker \<Rightarrow> nat \<Rightarrow> 'a blockMetadata" where
  "md t p = mt_heap t ! p"

definition write_md :: "('s, 'a) metadataTracker \<Rightarrow> nat \<Rightarrow> 'a blockMetadata \<Rightarrow> ('s, 'a) metadataTracker" where
  "write_md t p m = t\<lparr>mt_heap := (mt_heap t)[p := m]\<rparr>"

definition SetBlockMetadata :: "('s, nat) sortedset \<Rightarrow> string \<Rightarrow> nat \<Rightarrow> ('s, 'a) metadataTracker \<Rightarrow> ('s, 'a) metadataTracker" where
  "SetBlockMetadata S caller p t =
     t\<lparr>mt_sortedSet := ss_AddOrUpdate S (mt_sortedSet t) (blockHash (md t p)) (sint (blockNumber (md t p))) p\<rparr>"

text \<open>Returns a pointer: to the stored metadata, or to fresh ones that nothing else knows of.\<close>

definition GetBlockMetadata ::
    "('s, nat) sortedset \<Rightarrow> string \<Rightarrow> u64 \<Rightarrow> string \<Rightarrow> ('s, 'a) metadataTracker \<Rightarrow> (nat \<times> ('s, 'a) metadataTracker) go" where
  "GetBlockMetadata S caller n h t =
     (case ss_GetByKey S (mt_sortedSet t) h of
        None \<Rightarrow>
          if caller = callerReorgedLogs then Panic ''nil metadata for block %d blockHash %s''
          else Ret (length (mt_heap t),
                    t\<lparr>mt_heap := mt_heap t @ [\<lparr>blockNumber = n, blockHash = h, md_state = stateNull, artifacts = []\<rparr>]\<rparr>)
      | Some node \<Rightarrow> Ret (node_value node, t))"

definition metadata_Len :: "('s, nat) sortedset \<Rightarrow> ('s, 'a) metadataTracker \<Rightarrow> nat" where
  "metadata_Len S t = ss_GetCount S (mt_sortedSet t)"

section \<open>The engine (engine.go)\<close>

record ('a, 'w) service_engine =
  HandleGoodBlocks :: "block list \<Rightarrow> 'a artifact list \<Rightarrow> 'w \<Rightarrow> (((hash \<Rightarrow> 'a artifact list) \<times> err) \<times> 'w) go"
  HandleReorgedBlocks :: "block list \<Rightarrow> 'a artifact list \<Rightarrow> 'w \<Rightarrow> (((hash \<Rightarrow> 'a artifact list) \<times> err) \<times> 'w) go"
  svc_HandleEmitterError :: "go_error \<Rightarrow> 'w \<Rightarrow> (err \<times> 'w) go"

record ('s, 'a, 'w) engine =
  eng_client :: "'w emitterClient"
  serviceEngine :: "('a, 'w) service_engine"
  eng_gateway :: "u64 \<Rightarrow> 'w \<Rightarrow> (err \<times> 'w) go"
  metadataTracker :: "('s, 'a) metadataTracker"
  eng_debug :: bool

definition engine_New ::
    "('s, nat) sortedset \<Rightarrow> 'w emitterClient \<Rightarrow> ('a, 'w) service_engine \<Rightarrow> (u64 \<Rightarrow> 'w \<Rightarrow> (err \<times> 'w) go) \<Rightarrow> u8 \<Rightarrow>
     ('s, 'a, 'w) engine" where
  "engine_New S client svc gateway logLevel = \<lparr>
     eng_client = client, serviceEngine = svc, eng_gateway = gateway, metadataTracker = metadata_newTracker S,
     eng_debug = (logLevel > 0)\<rparr>"

definition engine_handleEmitterError :: "('s, 'a, 'w) engine \<Rightarrow> 'w \<Rightarrow> (err \<times> 'w) go" where
  "engine_handleEmitterError e w = HandleEmitterError (eng_client e) (svc_HandleEmitterError (serviceEngine e)) w"

definition engine_shutdown :: "('s, 'a, 'w) engine \<Rightarrow> 'w \<Rightarrow> 'w go" where
  "engine_shutdown e w = client_Shutdown (eng_client e) w"

section \<open>One result (handle_results.go)\<close>

record 'a engineBlocks =
  eb_blocks :: "block list"
  eb_metadata :: "nat list"
  eb_artifacts :: "'a artifact list"

definition no_engineBlocks :: "'a engineBlocks" where
  "no_engineBlocks = \<lparr>eb_blocks = [], eb_metadata = [], eb_artifacts = []\<rparr>"

text \<open>\<open>metadata.state.Fire(event)\<close> through a pointer.\<close>

definition fire_md :: "blockEvent \<Rightarrow> nat \<Rightarrow> ('s, 'a) metadataTracker \<Rightarrow> ('s, 'a) metadataTracker go" where
  "fire_md ev p t = go_bind (Fire (md_state (md t p)) ev) (\<lambda>s. Ret (write_md t p ((md t p)\<lparr>md_state := s\<rparr>)))"

fun see_reorged_blocks ::
    "('s, nat) sortedset \<Rightarrow> lib \<Rightarrow> block list \<Rightarrow> ('s, 'a) metadataTracker \<times> 'a engineBlocks \<Rightarrow>
     (('s, 'a) metadataTracker \<times> 'a engineBlocks) go" where
  "see_reorged_blocks S L [] st = Ret st"
| "see_reorged_blocks S L (b # bs) st =
     go_bind (GetBlockMetadata S callerReorgedLogs (Number b) (Block_String L b) (fst st)) (\<lambda>(p, t1).
     go_bind (fire_md eventSeeReorg p t1) (\<lambda>t2.
       if md_state (md t2 p) \<noteq> stateReorged
       then go_bind (state_String (md_state (md t2 p))) (\<lambda>_. see_reorged_blocks S L bs (t2, snd st))
       else see_reorged_blocks S L bs
              (t2, \<lparr>eb_blocks = eb_blocks (snd st) @ [b], eb_metadata = eb_metadata (snd st) @ [p],
                    eb_artifacts = eb_artifacts (snd st) @ [Bundle (artifacts (md t2 p))]\<rparr>)))"

text \<open>The loops that save the metadata after the service handled the blocks.\<close>

fun save_handled ::
    "('s, nat) sortedset \<Rightarrow> lib \<Rightarrow> blockEvent \<Rightarrow> string \<Rightarrow> (hash \<Rightarrow> 'a artifact list) \<Rightarrow> nat list \<Rightarrow>
     ('s, 'a) metadataTracker \<Rightarrow> ('s, 'a) metadataTracker go" where
  "save_handled S L ev caller arts [] t = Ret t"
| "save_handled S L ev caller arts (p # ps) t =
     go_bind (fire_md ev p t) (\<lambda>t1.
       let t2 = write_md t1 p ((md t1 p)\<lparr>artifacts := arts (HexToHash L (blockHash (md t1 p)))\<rparr>)
       in save_handled S L ev caller arts ps (SetBlockMetadata S caller p t2))"

text \<open>
  The loop over the good blocks appends their artifacts to \<open>reorgedBlocks.artifacts\<close>, the slice of
  the other group: \<open>stray\<close> collects what lands there.
\<close>

fun see_good_blocks ::
    "('s, nat) sortedset \<Rightarrow> lib \<Rightarrow> block list \<Rightarrow> ('s, 'a) metadataTracker \<times> 'a engineBlocks \<times> 'a artifact list \<Rightarrow>
     (('s, 'a) metadataTracker \<times> 'a engineBlocks \<times> 'a artifact list) go" where
  "see_good_blocks S L [] st = Ret st"
| "see_good_blocks S L (b # bs) (t, eb, stray) =
     go_bind (GetBlockMetadata S callerGoodLogs (Number b) (Block_String L b) t) (\<lambda>(p, t1).
     go_bind (fire_md eventSeeBlock p t1) (\<lambda>t2.
       let t3 = SetBlockMetadata S callerGoodLogs p t2
       in if md_state (md t3 p) \<noteq> stateSeen
          then go_bind (state_String (md_state (md t3 p))) (\<lambda>_. see_good_blocks S L bs (t3, eb, stray))
          else see_good_blocks S L bs
                 (t3, eb\<lparr>eb_blocks := eb_blocks eb @ [b], eb_metadata := eb_metadata eb @ [p]\<rparr>,
                  stray @ [Bundle (artifacts (md t3 p))])))"

text \<open>
  A round, once a result was received. It returns the error with which \<open>handleResults\<close> returns, or
  \<open>None\<close> to go on, and the tracker it leaves.
\<close>

definition handle_reorged ::
    "('s, nat) sortedset \<Rightarrow> lib \<Rightarrow> ('s, 'a, 'w) engine \<Rightarrow> poller_result \<Rightarrow> ('s, 'a) metadataTracker \<Rightarrow> 'w \<Rightarrow>
     ((err \<times> ('s, 'a) metadataTracker \<times> 'a artifact list) \<times> 'w) go" where
  "handle_reorged S L e result t w =
     go_bind (see_reorged_blocks S L (ReorgedBlocks result) (t, no_engineBlocks)) (\<lambda>(t1, eb).
       go_bind (if eb_blocks eb \<noteq> [] then HandleReorgedBlocks (serviceEngine e) (eb_blocks eb) (eb_artifacts eb) w
                else Ret ((\<lambda>_. [], None), w)) (\<lambda>((arts, er), w1).
         if er \<noteq> None then Ret ((errors_Wrap er ''serviceEngine.HandleReorgedBlockLogs failed'', t1, eb_artifacts eb), w1)
         else go_bind (save_handled S L eventHandleReorg callerReorgedLogs arts (eb_metadata eb) t1) (\<lambda>t2.
           Ret ((None, t2, eb_artifacts eb), w1))))"

definition handle_good ::
    "('s, nat) sortedset \<Rightarrow> lib \<Rightarrow> ('s, 'a, 'w) engine \<Rightarrow> poller_result \<Rightarrow> ('s, 'a) metadataTracker \<Rightarrow> 'a artifact list \<Rightarrow> 'w \<Rightarrow>
     ((err \<times> ('s, 'a) metadataTracker) \<times> 'w) go" where
  "handle_good S L e result t stray w =
     go_bind (see_good_blocks S L (GoodBlocks result) (t, no_engineBlocks, stray)) (\<lambda>(t1, eb, _).
       go_bind (if eb_blocks eb \<noteq> [] then HandleGoodBlocks (serviceEngine e) (eb_blocks eb) (eb_artifacts eb) w
                else Ret ((\<lambda>_. [], None), w)) (\<lambda>((arts, er), w1).
         if er \<noteq> None then Ret ((errors_Wrap er ''serviceEngine.HandleGoodBlockLogs failed'', t1), w1)
         else go_bind (save_handled S L eventHandle callerGoodLogs arts (eb_metadata eb) t1) (\<lambda>t2.
           Ret ((None, t2), w1))))"

definition handle_result ::
    "('s, nat) sortedset \<Rightarrow> lib \<Rightarrow> ('s, 'a, 'w) engine \<Rightarrow> poller_result \<Rightarrow> ('s, 'a) metadataTracker \<Rightarrow> 'w \<Rightarrow>
     ((err \<times> ('s, 'a) metadataTracker) \<times> 'w) go" where
  "handle_result S L e result t w =
     (let emitterCfg = WatcherConfig (eng_client e) in
      go_bind (handle_reorged S L e result t w) (\<lambda>((er1, t1, stray), w1).
        if er1 \<noteq> None then Ret ((er1, t1), w1) else
      go_bind (handle_good S L e result t1 stray w1) (\<lambda>((er2, t2), w2).
        if er2 \<noteq> None then Ret ((er2, t2), w2) else
      go_bind (ClearUntil S t2 (res_LastGoodBlock result - FilterRange emitterCfg * MaxGoBackRetries emitterCfg)) (\<lambda>t3.
      go_bind (eng_gateway e (res_LastGoodBlock result) w2) (\<lambda>(er3, w3).
        if er3 \<noteq> None then Ret ((errors_Wrap er3 ''failed to save lastRecordedBlock %d'', t3), w3) else
      go_bind (SyncsEmitter (eng_client e) w3) (\<lambda>w4. Ret ((None, t3), w4)))))))"

text \<open>
  One round of \<open>handleResults\<close>: \<open>Some er\<close> when it returns (with nil for a closed channel), \<open>None\<close>
  to go on.
\<close>

definition handleResults_round ::
    "('s, nat) sortedset \<Rightarrow> lib \<Rightarrow> ('s, 'a, 'w) engine \<Rightarrow> 'w \<Rightarrow> ((err option \<times> ('s, 'a, 'w) engine) \<times> 'w) go" where
  "handleResults_round S L e w =
     go_bind (WatcherResult (eng_client e) w) (\<lambda>(r, w1).
       case r of
         None \<Rightarrow> Ret ((Some None, e), w1)
       | Some result \<Rightarrow>
           go_bind (handle_result S L e result (metadataTracker e) w1) (\<lambda>((er, t), w2).
             let e' = e\<lparr>metadataTracker := t\<rparr>
             in case er of None \<Rightarrow> Ret ((None, e'), w2) | Some x \<Rightarrow> Ret ((Some (Some x), e'), w2)))"

text \<open>
  The goroutine that \<open>engine.Loop\<close> starts: \<open>handleResults\<close> to its end, and the deferred shutdown of
  the client. Fuel bounds the rounds.
\<close>

datatype engine_end = Running | Exited err

fun engine_goroutine ::
    "('s, nat) sortedset \<Rightarrow> lib \<Rightarrow> nat \<Rightarrow> ('s, 'a, 'w) engine \<Rightarrow> 'w \<Rightarrow> ((engine_end \<times> ('s, 'a, 'w) engine) \<times> 'w) go" where
  "engine_goroutine S L 0 e w = Ret ((Running, e), w)"
| "engine_goroutine S L (Suc n) e w =
     go_bind (handleResults_round S L e w) (\<lambda>((ended, e1), w1).
       case ended of
         None \<Rightarrow> engine_goroutine S L n e1 w1
       | Some er \<Rightarrow> go_bind (engine_shutdown e1 w1) (\<lambda>w2. Ret ((Exited er, e1), w2)))"

end
