(* ===== verification/Engine_Correct.thy ===== *)
theory Engine_Correct
  imports Engine
begin

text \<open>
  What the engine does with one result, without pointers: an abstract specification in which the
  tracker is a map from hashes to entries (number, state, artifacts), and the proof that the code,
  with its heap of metadata shared between the sorted set and the round's slices, refines it. The
  specification is the place where the engine's theorems are proved.
\<close>

section \<open>The abstract specification\<close>

type_synonym 'a entry = "u64 \<times> blockState \<times> 'a artifact list"
type_synonym 'a entries = "string \<Rightarrow> 'a entry option"

text \<open>Seeing the reorged blocks: the new entries, and the blocks to handle with their artifacts.\<close>

fun spec_see_reorged ::
    "(block \<Rightarrow> string) \<Rightarrow> block list \<Rightarrow> 'a entries \<Rightarrow> ('a entries \<times> (block \<times> 'a artifact list) list) go" where
  "spec_see_reorged key [] m = Ret (m, [])"
| "spec_see_reorged key (b # bs) m =
     (case m (key b) of
        None \<Rightarrow> Panic ''nil metadata for block %d blockHash %s''
      | Some (n, s, a) \<Rightarrow>
          go_bind (spec_see_reorged key bs (m(key b \<mapsto> (n, see_reorg s, a)))) (\<lambda>(m', bl).
            Ret (m', if see_reorg s = stateReorged then (b, a) # bl else bl)))"

definition entry_of :: "(block \<Rightarrow> string) \<Rightarrow> block \<Rightarrow> 'a entries \<Rightarrow> 'a entry" where
  "entry_of key b m = (case m (key b) of None \<Rightarrow> (Number b, stateNull, []) | Some x \<Rightarrow> x)"

fun spec_see_good :: "(block \<Rightarrow> string) \<Rightarrow> block list \<Rightarrow> 'a entries \<Rightarrow> 'a entries \<times> block list" where
  "spec_see_good key [] m = (m, [])"
| "spec_see_good key (b # bs) m =
     (case entry_of key b m of
        (n, s, a) \<Rightarrow>
          case spec_see_good key bs (m(key b \<mapsto> (n, see_block s, a))) of
            (m', news) \<Rightarrow> (m', if see_block s = stateSeen then b # news else news))"

definition spec_save1 ::
    "lib \<Rightarrow> (blockState \<Rightarrow> blockState) \<Rightarrow> (hash \<Rightarrow> 'a artifact list) \<Rightarrow> string \<Rightarrow> 'a entries \<Rightarrow> 'a entries" where
  "spec_save1 L f arts h m =
     (case m h of None \<Rightarrow> m | Some (n, s, a) \<Rightarrow> m(h \<mapsto> (n, f s, arts (HexToHash L h))))"

definition spec_clear :: "u64 \<Rightarrow> 'a entries \<Rightarrow> 'a entries" where
  "spec_clear bound m h =
     (case m h of None \<Rightarrow> None | Some (n, s, a) \<Rightarrow> if sint bound < sint n then Some (n, s, a) else None)"

text \<open>The whole round.\<close>

definition spec_reorged ::
    "lib \<Rightarrow> ('s, 'a, 'w) engine \<Rightarrow> poller_result \<Rightarrow> 'a entries \<Rightarrow> 'w \<Rightarrow> ((err \<times> 'a entries) \<times> 'w) go" where
  "spec_reorged L e result m w =
     go_bind (spec_see_reorged (Block_String L) (ReorgedBlocks result) m) (\<lambda>(m1, rb).
     go_bind (if rb \<noteq> [] then HandleReorgedBlocks (serviceEngine e) (map fst rb) (map (\<lambda>x. Bundle (snd x)) rb) w
              else Ret ((\<lambda>_. [], None), w)) (\<lambda>((arts, er), w1).
       if er \<noteq> None then Ret ((errors_Wrap er ''serviceEngine.HandleReorgedBlockLogs failed'', m1), w1)
       else Ret ((None, fold (spec_save1 L handle_reorg arts) (map (\<lambda>x. Block_String L (fst x)) rb) m1), w1)))"

definition spec_good ::
    "lib \<Rightarrow> ('s, 'a, 'w) engine \<Rightarrow> poller_result \<Rightarrow> 'a entries \<Rightarrow> 'w \<Rightarrow> ((err \<times> 'a entries) \<times> 'w) go" where
  "spec_good L e result m w =
     (case spec_see_good (Block_String L) (GoodBlocks result) m of
        (m1, gb) \<Rightarrow>
          go_bind (if gb \<noteq> [] then HandleGoodBlocks (serviceEngine e) gb [] w else Ret ((\<lambda>_. [], None), w)) (\<lambda>((arts, er), w1).
            if er \<noteq> None then Ret ((errors_Wrap er ''serviceEngine.HandleGoodBlockLogs failed'', m1), w1)
            else Ret ((None, fold (spec_save1 L handle_block arts) (map (Block_String L) gb) m1), w1)))"

definition spec_round ::
    "lib \<Rightarrow> ('s, 'a, 'w) engine \<Rightarrow> poller_result \<Rightarrow> 'a entries \<Rightarrow> 'w \<Rightarrow> ((err \<times> 'a entries) \<times> 'w) go" where
  "spec_round L e result m w =
     go_bind (spec_reorged L e result m w) (\<lambda>((er1, m1), w1).
       if er1 \<noteq> None then Ret ((er1, m1), w1) else
     go_bind (spec_good L e result m1 w1) (\<lambda>((er2, m2), w2).
       if er2 \<noteq> None then Ret ((er2, m2), w2) else
     let m3 = spec_clear (res_LastGoodBlock result -
                FilterRange (WatcherConfig (eng_client e)) * MaxGoBackRetries (WatcherConfig (eng_client e))) m2 in
     go_bind (eng_gateway e (res_LastGoodBlock result) w2) (\<lambda>(er3, w3).
       if er3 \<noteq> None then Ret ((errors_Wrap er3 ''failed to save lastRecordedBlock %d'', m3), w3) else
     go_bind (SyncsEmitter (eng_client e) w3) (\<lambda>w4. Ret ((None, m3), w4)))))"

section \<open>The tracker's invariant and its abstraction\<close>

definition entry :: "'a blockMetadata \<Rightarrow> 'a entry" where
  "entry m = (blockNumber m, md_state m, artifacts m)"

text \<open>
  \<open>ss_map\<close> reads the sorted set as a map, \<open>ss_ok\<close> is its invariant. The tracker is well formed when
  every address it holds is allocated, and to metadata of the very block it is filed under.
\<close>

definition metadata_points :: "('s \<Rightarrow> string \<Rightarrow> (int \<times> nat) option) \<Rightarrow> ('s, 'a) metadataTracker \<Rightarrow> string \<Rightarrow> nat \<Rightarrow> bool" where
  "metadata_points ss_map t h p \<longleftrightarrow> (\<exists>sc. ss_map (mt_sortedSet t) h = Some (sc, p))"

definition metadata_ok :: "('s \<Rightarrow> string \<Rightarrow> (int \<times> nat) option) \<Rightarrow> ('s \<Rightarrow> bool) \<Rightarrow> ('s, 'a) metadataTracker \<Rightarrow> bool" where
  "metadata_ok ss_map ss_ok t \<longleftrightarrow> ss_ok (mt_sortedSet t) \<and>
     (\<forall>h sc p. ss_map (mt_sortedSet t) h = Some (sc, p) \<longrightarrow>
        p < length (mt_heap t) \<and> blockHash (md t p) = h \<and> sc = sint (blockNumber (md t p)))"

definition metadata_abs :: "('s \<Rightarrow> string \<Rightarrow> (int \<times> nat) option) \<Rightarrow> ('s, 'a) metadataTracker \<Rightarrow> 'a entries" where
  "metadata_abs ss_map t h = map_option (\<lambda>x. entry (md t (snd x))) (ss_map (mt_sortedSet t) h)"

locale metadata_tracker = sorted_set S ss_map ss_ok + lib_spec L
  for S :: "('s, nat) sortedset" and ss_map and ss_ok and L :: lib
begin

abbreviation points :: "('s, 'a) metadataTracker \<Rightarrow> string \<Rightarrow> nat \<Rightarrow> bool" where
  "points \<equiv> metadata_points ss_map"

abbreviation mt_ok :: "('s, 'a) metadataTracker \<Rightarrow> bool" where
  "mt_ok \<equiv> metadata_ok ss_map ss_ok"

abbreviation abs :: "('s, 'a) metadataTracker \<Rightarrow> 'a entries" where
  "abs \<equiv> metadata_abs ss_map"

lemmas points_def = metadata_points_def
lemmas mt_ok_def = metadata_ok_def
lemmas abs_def = metadata_abs_def

lemma points_abs: "points t h p \<Longrightarrow> abs t h = Some (entry (md t p))"
  by (auto simp: points_def abs_def)

lemma no_points_abs: "abs t h = None \<longleftrightarrow> (\<forall>p. \<not> points t h p)"
  by (cases "ss_map (mt_sortedSet t) h") (auto simp: points_def abs_def)

lemma abs_points: "abs t h = Some x \<Longrightarrow> \<exists>p. points t h p \<and> x = entry (md t p)"
  by (auto simp: points_def abs_def)

lemma points_ok: "mt_ok t \<Longrightarrow> points t h p \<Longrightarrow> p < length (mt_heap t) \<and> blockHash (md t p) = h"
  by (auto simp: points_def mt_ok_def)

lemma points_unique: "points t h p \<Longrightarrow> points t h q \<Longrightarrow> q = p"
  by (auto simp: points_def)

lemma mt_ok_new: "mt_ok (metadata_newTracker S)" "abs (metadata_newTracker S) = Map.empty"
  by (simp_all add: mt_ok_def abs_def fun_eq_iff metadata_newTracker_def ok_New map_New)

text \<open>Writing through a pointer changes the entry of the block it belongs to and nothing else.\<close>

lemma write_state:
  assumes "mt_ok t" "points t h p" "blockHash m = h" "blockNumber m = blockNumber (md t p)"
  shows "mt_ok (write_md t p m)" "abs (write_md t p m) = (abs t)(h \<mapsto> entry m)"
    "points (write_md t p m) h' p' \<longleftrightarrow> points t h' p'" "md (write_md t p m) p = m"
proof -
  have p: "p < length (mt_heap t)" "blockHash (md t p) = h" using points_ok [OF assms(1,2)] by auto
  have md: "md (write_md t p m) q = (if q = p then m else md t q)" if "q < length (mt_heap t)" for q
    using p that by (simp add: md_def write_md_def)
  have other: "q \<noteq> p" if "ss_map (mt_sortedSet t) h' = Some (sc, q)" "h' \<noteq> h" for h' sc q
    using assms(1) that p unfolding mt_ok_def by metis
  have set: "mt_sortedSet (write_md t p m) = mt_sortedSet t" "length (mt_heap (write_md t p m)) = length (mt_heap t)"
    by (simp_all add: write_md_def)
  show "mt_ok (write_md t p m)"
    using assms(1,3,4) p md unfolding mt_ok_def set by metis
  show "points (write_md t p m) h' p' \<longleftrightarrow> points t h' p'" by (simp add: points_def set)
  show "md (write_md t p m) p = m" using md p by simp
  obtain sc where sc: "ss_map (mt_sortedSet t) h = Some (sc, p)" using assms(2) by (auto simp: points_def)
  show "abs (write_md t p m) = (abs t)(h \<mapsto> entry m)"
  proof
    fix h'
    show "abs (write_md t p m) h' = ((abs t)(h \<mapsto> entry m)) h'"
    proof (cases "h' = h")
      case True
      then show ?thesis using sc md p by (simp add: abs_def set)
    next
      case False
      have "md (write_md t p m) q = md t q" if "ss_map (mt_sortedSet t) h' = Some (sc', q)" for sc' q
        using that other [OF that False] md assms(1) by (simp add: mt_ok_def)
      then show ?thesis using False by (cases "ss_map (mt_sortedSet t) h'") (auto simp: abs_def set)
    qed
  qed
qed

lemma set_metadata:
  assumes "mt_ok t" "p < length (mt_heap t)" "blockHash (md t p) = h"
  shows "mt_ok (SetBlockMetadata S c p t)" "points (SetBlockMetadata S c p t) h p"
    "h' \<noteq> h \<Longrightarrow> points (SetBlockMetadata S c p t) h' p' \<longleftrightarrow> points t h' p'"
    "abs (SetBlockMetadata S c p t) = (abs t)(h \<mapsto> entry (md t p))"
    "md (SetBlockMetadata S c p t) q = md t q"
proof -
  have ok: "ss_ok (mt_sortedSet t)" using assms(1) by (simp add: mt_ok_def)
  let ?t = "SetBlockMetadata S c p t"
  have map: "ss_map (mt_sortedSet ?t) = (ss_map (mt_sortedSet t))(h \<mapsto> (sint (blockNumber (md t p)), p))"
    using map_Add [OF ok] assms(3) by (simp add: SetBlockMetadata_def)
  have heap: "mt_heap ?t = mt_heap t" by (simp add: SetBlockMetadata_def)
  show md: "md ?t q = md t q" for q by (simp add: md_def heap)
  show "mt_ok ?t"
    using assms ok_Add [OF ok] unfolding mt_ok_def map heap md
    by (auto simp: SetBlockMetadata_def split: if_splits)
  show "points ?t h p" by (simp add: points_def map)
  show "h' \<noteq> h \<Longrightarrow> points ?t h' p' \<longleftrightarrow> points t h' p'" by (simp add: points_def map)
  show "abs ?t = (abs t)(h \<mapsto> entry (md t p))"
    by (rule ext) (simp add: abs_def map md)
qed

text \<open>Storing metadata that are already stored leaves all pointers as they are.\<close>

lemma set_again:
  assumes "mt_ok t" "points t h p"
  shows "mt_ok (SetBlockMetadata S c p t)" "points (SetBlockMetadata S c p t) h' q \<longleftrightarrow> points t h' q"
    "abs (SetBlockMetadata S c p t) = abs t" "md (SetBlockMetadata S c p t) q = md t q"
proof -
  note p = points_ok [OF assms]
  note s = set_metadata [OF assms(1) conjunct1 [OF p] conjunct2 [OF p], where c = c]
  show "mt_ok (SetBlockMetadata S c p t)" "md (SetBlockMetadata S c p t) q = md t q" by (fact s)+
  show "abs (SetBlockMetadata S c p t) = abs t" unfolding s(4) using points_abs [OF assms(2)] by auto
  show "points (SetBlockMetadata S c p t) h' q \<longleftrightarrow> points t h' q"
    using s(2,3) assms(2) points_unique by metis
qed

lemma get_known:
  assumes "mt_ok t" "points t h p"
  shows "GetBlockMetadata S c n h t = Ret (p, t)"
  using assms by (auto simp: GetBlockMetadata_def points_def mt_ok_def Get)

lemma get_unknown:
  assumes "mt_ok t" "abs t h = None"
  shows "GetBlockMetadata S callerGoodLogs n h t =
      Ret (length (mt_heap t), t\<lparr>mt_heap := mt_heap t @ [\<lparr>blockNumber = n, blockHash = h, md_state = stateNull, artifacts = []\<rparr>]\<rparr>)"
    "GetBlockMetadata S callerReorgedLogs n h t = Panic ''nil metadata for block %d blockHash %s''"
proof -
  have "ss_map (mt_sortedSet t) h = None" using assms(2) by (simp add: abs_def)
  moreover have "callerGoodLogs \<noteq> callerReorgedLogs" by (simp add: callerGoodLogs_def callerReorgedLogs_def)
  ultimately show "GetBlockMetadata S callerGoodLogs n h t =
      Ret (length (mt_heap t), t\<lparr>mt_heap := mt_heap t @ [\<lparr>blockNumber = n, blockHash = h, md_state = stateNull, artifacts = []\<rparr>]\<rparr>)"
    "GetBlockMetadata S callerReorgedLogs n h t = Panic ''nil metadata for block %d blockHash %s''"
    using assms(1) by (simp_all add: GetBlockMetadata_def mt_ok_def Get)
qed

lemma extend_heap:
  fixes m
  assumes "mt_ok t"
  defines "t' \<equiv> t\<lparr>mt_heap := mt_heap t @ [m]\<rparr>"
  shows "mt_ok t'" "abs t' = abs t" "points t' h p \<longleftrightarrow> points t h p" "md t' (length (mt_heap t)) = m"
proof -
  have md: "q < length (mt_heap t) \<Longrightarrow> md t' q = md t q" for q by (simp add: md_def t'_def nth_append)
  have set: "mt_sortedSet t' = mt_sortedSet t" "length (mt_heap t') = Suc (length (mt_heap t))" by (simp_all add: t'_def)
  show "mt_ok t'" using assms(1) md unfolding mt_ok_def set by (metis less_SucI)
  show "points t' h p \<longleftrightarrow> points t h p" by (simp add: points_def set)
  show "md t' (length (mt_heap t)) = m" by (simp add: md_def t'_def)
  have "abs t' h' = abs t h'" for h'
    using assms(1) md by (cases "ss_map (mt_sortedSet t) h'") (auto simp: abs_def set mt_ok_def)
  then show "abs t' = abs t" by (rule ext)
qed

text \<open>Firing an event through a stored pointer.\<close>

lemma fire_known:
  assumes "mt_ok t" "points t h p" "Fire (md_state (md t p)) ev = Ret s" "abs t h = Some (n, s0, a)"
  shows "\<exists>t'. fire_md ev p t = Ret t' \<and> mt_ok t' \<and> abs t' = (abs t)(h \<mapsto> (n, s, a)) \<and>
    (\<forall>h' q. points t' h' q \<longleftrightarrow> points t h' q) \<and> entry (md t' p) = (n, s, a) \<and> blockHash (md t' p) = h"
proof -
  let ?m = "(md t p)\<lparr>md_state := s\<rparr>"
  have bh: "blockHash ?m = h" "blockNumber ?m = blockNumber (md t p)" using points_ok [OF assms(1,2)] by auto
  note w = write_state [OF assms(1,2) bh]
  have e: "entry ?m = (n, s, a)" using points_abs [OF assms(2)] assms(4) by (simp add: entry_def)
  show ?thesis using w e bh assms(3) by (intro exI [of _ "write_md t p ?m"]) (simp add: fire_md_def)
qed

section \<open>The loops refine the specification\<close>

lemma see_reorged_refines:
  assumes "mt_ok t"
  shows "case spec_see_reorged (Block_String L) bs (abs t) of
      Ret (m', bl) \<Rightarrow> \<exists>t' ps. see_reorged_blocks S L bs (t, eb) =
          Ret (t', \<lparr>eb_blocks = eb_blocks eb @ map fst bl, eb_metadata = eb_metadata eb @ ps,
                    eb_artifacts = eb_artifacts eb @ map (\<lambda>x. Bundle (snd x)) bl\<rparr>) \<and>
        mt_ok t' \<and> abs t' = m' \<and> list_all2 (points t) (map (\<lambda>x. Block_String L (fst x)) bl) ps \<and>
        (\<forall>h q. points t' h q \<longleftrightarrow> points t h q)
    | Panic s \<Rightarrow> see_reorged_blocks S L bs (t, eb) = Panic s
    | Hang \<Rightarrow> see_reorged_blocks S L bs (t, eb) = Hang"
  using assms
proof (induction bs arbitrary: t eb)
  case Nil
  then show ?case by auto
next
  case (Cons b bs)
  let ?h = "Block_String L b"
  show ?case
  proof (cases "abs t ?h")
    case None
    then show ?thesis using get_unknown(2) [OF Cons.prems None] by simp
  next
    case (Some x)
    obtain n s a where x: "x = (n, s, a)" by (cases x) auto
    obtain p where p: "points t ?h p" "entry (md t p) = (n, s, a)" using abs_points [OF Some] x by metis
    have "Fire (md_state (md t p)) eventSeeReorg = Ret (see_reorg s)" using p(2) by (simp add: entry_def Fire_events)
    from fire_known [OF Cons.prems p(1) this Some [unfolded x]] obtain t2 where
      t2: "fire_md eventSeeReorg p t = Ret t2" "mt_ok t2" "abs t2 = (abs t)(?h \<mapsto> (n, see_reorg s, a))"
        "\<forall>h' q. points t2 h' q \<longleftrightarrow> points t h' q" "entry (md t2 p) = (n, see_reorg s, a)" by blast
    have st: "md_state (md t2 p) = see_reorg s" "artifacts (md t2 p) = a" using t2(5) by (simp_all add: entry_def)
    have str: "\<exists>y. state_String (see_reorg s) = Ret y" by (auto simp: see_reorg_def state_String_def)
    have pts: "points t2 = points t" using t2(4) by (simp add: fun_eq_iff)
    define eb' where "eb' = (if see_reorg s = stateReorged then
        \<lparr>eb_blocks = eb_blocks eb @ [b], eb_metadata = eb_metadata eb @ [p], eb_artifacts = eb_artifacts eb @ [Bundle a]\<rparr> else eb)"
    have step: "see_reorged_blocks S L (b # bs) (t, eb) = see_reorged_blocks S L bs (t2, eb')"
      using str by (auto simp: get_known [OF Cons.prems p(1)] t2(1) st eb'_def)
    note IH = Cons.IH [OF t2(2), of eb', unfolded pts]
    have spec: "spec_see_reorged (Block_String L) (b # bs) (abs t) =
        go_bind (spec_see_reorged (Block_String L) bs (abs t2)) (\<lambda>(m', bl).
          Ret (m', if see_reorg s = stateReorged then (b, a) # bl else bl))"
      by (simp add: Some x t2(3))
    show ?thesis
    proof (cases "spec_see_reorged (Block_String L) bs (abs t2)")
      case (Ret r)
      obtain m' bl where r: "r = (m', bl)" by (cases r)
      from IH obtain t' ps where c: "see_reorged_blocks S L bs (t2, eb') =
          Ret (t', \<lparr>eb_blocks = eb_blocks eb' @ map fst bl, eb_metadata = eb_metadata eb' @ ps,
                    eb_artifacts = eb_artifacts eb' @ map (\<lambda>x. Bundle (snd x)) bl\<rparr>)"
        "mt_ok t'" "abs t' = m'" "list_all2 (points t) (map (\<lambda>x. Block_String L (fst x)) bl) ps"
        "\<forall>h q. points t' h q \<longleftrightarrow> points t h q"
        unfolding Ret r go.case prod.case by blast
      show ?thesis unfolding step spec Ret r
        using c p(1) unfolding go_bind_simps go.case prod.case
        by (intro exI [of _ t'] exI [of _ "if see_reorg s = stateReorged then p # ps else ps"])
          (simp add: eb'_def)
    qed (use IH in \<open>simp_all add: spec step del: see_reorged_blocks.simps spec_see_reorged.simps\<close>)
  qed
qed

text \<open>One good block: its metadata are fetched, the event fired and the metadata stored.\<close>

lemma see_block_step:
  assumes "mt_ok t" "h = Block_String L b" "entry_of (Block_String L) b (abs t) = (n, s, a)"
  shows "\<exists>p t1 t2. GetBlockMetadata S callerGoodLogs (Number b) h t = Ret (p, t1) \<and> fire_md eventSeeBlock p t1 = Ret t2 \<and>
    mt_ok (SetBlockMetadata S callerGoodLogs p t2) \<and> points (SetBlockMetadata S callerGoodLogs p t2) h p \<and>
    abs (SetBlockMetadata S callerGoodLogs p t2) = (abs t)(h \<mapsto> (n, see_block s, a)) \<and>
    md_state (md (SetBlockMetadata S callerGoodLogs p t2) p) = see_block s \<and>
    (\<forall>h' q. points t h' q \<longrightarrow> points (SetBlockMetadata S callerGoodLogs p t2) h' q)"
proof (cases "abs t h")
  case (Some x)
  then have x: "x = (n, s, a)" using assms(2,3) by (simp add: entry_of_def)
  obtain p where p: "points t h p" "entry (md t p) = (n, s, a)" using abs_points [OF Some] x by metis
  have "Fire (md_state (md t p)) eventSeeBlock = Ret (see_block s)" using p(2) by (simp add: entry_def Fire_events)
  from fire_known [OF assms(1) p(1) this Some [unfolded x]] obtain t2 where
    t2: "fire_md eventSeeBlock p t = Ret t2" "mt_ok t2" "abs t2 = (abs t)(h \<mapsto> (n, see_block s, a))"
      "\<forall>h' q. points t2 h' q \<longleftrightarrow> points t h' q" "entry (md t2 p) = (n, see_block s, a)" by blast
  have p2: "points t2 h p" using t2(4) p(1) by simp
  note s = set_again [OF t2(2) p2, where c = callerGoodLogs]
  show ?thesis using s t2 p2 by (intro ex3I [of _ p t t2]) (simp add: get_known [OF assms(1) p(1)] entry_def)
next
  case None
  then have n: "n = Number b" "s = stateNull" "a = []" using assms(2,3) by (simp_all add: entry_of_def)
  let ?fresh = "\<lparr>blockNumber = Number b, blockHash = h, md_state = stateNull, artifacts = []\<rparr>"
  let ?m = "\<lparr>blockNumber = Number b, blockHash = h, md_state = see_block stateNull, artifacts = []\<rparr>"
  let ?p = "length (mt_heap t)" and ?t1 = "t\<lparr>mt_heap := mt_heap t @ [?fresh]\<rparr>" and ?t2 = "t\<lparr>mt_heap := mt_heap t @ [?m]\<rparr>"
  note x = extend_heap [OF assms(1), where m = ?m]
  have p2: "?p < length (mt_heap ?t2)" "blockHash (md ?t2 ?p) = h" using x(4) by simp_all
  note st = set_metadata [OF x(1) p2, where c = callerGoodLogs]
  have fire: "fire_md eventSeeBlock ?p ?t1 = Ret ?t2"
    using extend_heap(4) [OF assms(1), where m = ?fresh] by (simp add: fire_md_def Fire_events write_md_def)
  have "h' \<noteq> h" if "points t h' q" for h' q using that None no_points_abs by auto
  then have "points (SetBlockMetadata S callerGoodLogs ?p ?t2) h' q" if "points t h' q" for h' q
    using that st(3) x(3) by blast
  then show ?thesis using st x(2,4) n fire
    by (intro ex3I [of _ ?p ?t1 ?t2]) (simp add: get_unknown(1) [OF assms(1) None] entry_def)
qed

lemma see_good_refines:
  assumes "mt_ok t" "spec_see_good (Block_String L) bs (abs t) = (m', news)"
  shows "\<exists>t' ps stray'. see_good_blocks S L bs (t, eb, stray) =
      Ret (t', eb\<lparr>eb_blocks := eb_blocks eb @ news, eb_metadata := eb_metadata eb @ ps\<rparr>, stray') \<and>
    mt_ok t' \<and> abs t' = m' \<and> list_all2 (points t') (map (Block_String L) news) ps \<and>
    (\<forall>h q. points t h q \<longrightarrow> points t' h q)"
  using assms
proof (induction bs arbitrary: t eb stray m' news)
  case Nil
  then show ?case by (intro ex3I [of _ t "[]" stray]) simp
next
  case (Cons b bs)
  let ?h = "Block_String L b"
  obtain n s a where e: "entry_of (Block_String L) b (abs t) = (n, s, a)" by (cases "entry_of (Block_String L) b (abs t)") auto
  obtain p t1 t2 where g: "GetBlockMetadata S callerGoodLogs (Number b) ?h t = Ret (p, t1)" "fire_md eventSeeBlock p t1 = Ret t2"
      "mt_ok (SetBlockMetadata S callerGoodLogs p t2)" "points (SetBlockMetadata S callerGoodLogs p t2) ?h p"
      "abs (SetBlockMetadata S callerGoodLogs p t2) = (abs t)(?h \<mapsto> (n, see_block s, a))"
      "md_state (md (SetBlockMetadata S callerGoodLogs p t2) p) = see_block s"
      "\<forall>h' q. points t h' q \<longrightarrow> points (SetBlockMetadata S callerGoodLogs p t2) h' q"
    using see_block_step [OF Cons.prems(1) refl e] by blast
  define t3 where "t3 = SetBlockMetadata S callerGoodLogs p t2"
  note t3 = g(3-) [folded t3_def]
  define eb' where "eb' = (if see_block s = stateSeen then eb\<lparr>eb_blocks := eb_blocks eb @ [b], eb_metadata := eb_metadata eb @ [p]\<rparr> else eb)"
  define stray2 where "stray2 = (if see_block s = stateSeen then stray @ [Bundle (artifacts (md t3 p))] else stray)"
  have str: "\<exists>x. state_String (see_block s) = Ret x" by (auto simp: see_block_def state_String_def)
  have step: "see_good_blocks S L (b # bs) (t, eb, stray) = see_good_blocks S L bs (t3, eb', stray2)"
    using str t3(4) by (auto simp: g Let_def t3_def [symmetric] eb'_def stray2_def)
  obtain news' where spec: "spec_see_good (Block_String L) bs (abs t3) = (m', news')"
      "news = (if see_block s = stateSeen then b # news' else news')"
    using Cons.prems(2) e t3(3) by (auto split: prod.splits)
  from Cons.IH [OF t3(1) spec(1), of eb' stray2] obtain t' ps stray' where
    IH: "see_good_blocks S L bs (t3, eb', stray2) = Ret (t', eb'\<lparr>eb_blocks := eb_blocks eb' @ news', eb_metadata := eb_metadata eb' @ ps\<rparr>, stray')"
      "mt_ok t'" "abs t' = m'" "list_all2 (points t') (map (Block_String L) news') ps" "\<forall>h q. points t3 h q \<longrightarrow> points t' h q"
    by blast
  have "points t' ?h p" "\<forall>h q. points t h q \<longrightarrow> points t' h q" using IH(5) t3(2,5) by auto
  then show ?case unfolding step spec(2) using IH
    by (intro ex3I [of _ t' "if see_block s = stateSeen then p # ps else ps" stray']) (simp add: eb'_def)
qed

lemma save_refines:
  assumes "mt_ok t" "list_all2 (points t) hs ps" "\<And>s. Fire s ev = Ret (f s)"
  shows "\<exists>t'. save_handled S L ev c arts ps t = Ret t' \<and> mt_ok t' \<and> abs t' = fold (spec_save1 L f arts) hs (abs t)"
  using assms(1,2)
proof (induction hs arbitrary: ps t)
  case Nil
  then show ?case by simp
next
  case (Cons h hs qs t)
  then obtain p ps where qs: "qs = p # ps" and hyps: "points t h p" "list_all2 (points t) hs ps"
    by (auto simp: list_all2_Cons1)
  obtain n s a where e: "entry (md t p) = (n, s, a)" by (cases "entry (md t p)") auto
  have "abs t h = Some (n, s, a)" using points_abs [OF hyps(1)] e by simp
  moreover have "Fire (md_state (md t p)) ev = Ret (f s)" using e assms(3) by (simp add: entry_def)
  ultimately obtain t1 where t1: "fire_md ev p t = Ret t1" "mt_ok t1" "abs t1 = (abs t)(h \<mapsto> (n, f s, a))"
      "\<forall>h' q. points t1 h' q \<longleftrightarrow> points t h' q" "entry (md t1 p) = (n, f s, a)" "blockHash (md t1 p) = h"
    using fire_known [OF Cons.prems(1) hyps(1)] by blast
  let ?m = "(md t1 p)\<lparr>artifacts := arts (HexToHash L (blockHash (md t1 p)))\<rparr>"
  have p1: "points t1 h p" using t1(4) hyps(1) by simp
  have bh: "blockHash ?m = h" "blockNumber ?m = blockNumber (md t1 p)" using t1(6) by simp_all
  note w = write_state [OF t1(2) p1 bh]
  have p2: "points (write_md t1 p ?m) h p" using w(3) p1 by simp
  note st = set_again [OF w(1) p2, where c = c]
  have "\<exists>n s a. abs t h = Some (n, s, a) \<and> abs (SetBlockMetadata S c p (write_md t1 p ?m)) = spec_save1 L f arts h (abs t)"
    unfolding st(3) w(2) t1(3) using \<open>abs t h = Some (n, s, a)\<close> t1(5,6) by (simp add: spec_save1_def entry_def)
  moreover have "points (SetBlockMetadata S c p (write_md t1 p ?m)) = points t"
    using st(2) w(3) t1(4) by (simp add: fun_eq_iff)
  ultimately show ?case using Cons.IH [OF st(1)] hyps(2) t1(1) by (simp add: Let_def qs)
qed

lemma ClearUntil_refines:
  assumes "mt_ok t"
  shows "\<exists>t'. ClearUntil S t n = Ret t' \<and> mt_ok t' \<and> abs t' = spec_clear n (abs t)"
proof -
  have ok: "ss_ok (mt_sortedSet t)" using assms by (simp add: mt_ok_def)
  obtain s where s: "clear_loop S (sint n) (mt_sortedSet t) = Some s" "ss_ok s" "ss_map s = above (sint n) (mt_sortedSet t)"
    using clear_loop_total [OF ok] by blast
  let ?t = "t\<lparr>mt_sortedSet := s\<rparr>"
  have md: "md ?t p = md t p" for p by (simp add: md_def)
  have sub: "ss_map s h = Some x \<Longrightarrow> ss_map (mt_sortedSet t) h = Some x" for h x
    by (auto simp: s(3) above_def split: option.splits if_splits)
  have "mt_ok ?t" using assms s(2) sub unfolding mt_ok_def md by (simp, blast)
  moreover have "abs ?t h = spec_clear n (abs t) h" for h
  proof (cases "ss_map (mt_sortedSet t) h")
    case (Some x)
    then show ?thesis using assms by (cases x) (simp add: abs_def md s(3) above_def spec_clear_def entry_def mt_ok_def)
  qed (simp add: abs_def s(3) above_def spec_clear_def)
  ultimately show ?thesis using s(1) by (intro exI [of _ ?t]) (simp add: ClearUntil_def fun_eq_iff)
qed

section \<open>The round refines the specification\<close>

text \<open>
  Two outcomes correspond when they are both a panic with the same message, both no return, or
  both values with the same error, the same world, and trackers that correspond.
\<close>

lemma see_reorged_rel:
  assumes "mt_ok t"
  shows "rel_go (\<lambda>(t', eb) (m', bl). mt_ok t' \<and> abs t' = m' \<and> eb_blocks eb = map fst bl \<and>
      eb_artifacts eb = map (\<lambda>x. Bundle (snd x)) bl \<and> list_all2 (points t') (map (\<lambda>x. Block_String L (fst x)) bl) (eb_metadata eb))
    (see_reorged_blocks S L bs (t, no_engineBlocks)) (spec_see_reorged (Block_String L) bs (abs t))"
proof (cases "spec_see_reorged (Block_String L) bs (abs t)")
  case (Ret r)
  obtain m' bl where r: "r = (m', bl)" by (cases r)
  from see_reorged_refines [OF assms, of bs no_engineBlocks] obtain t' ps where
    c: "see_reorged_blocks S L bs (t, no_engineBlocks) =
        Ret (t', \<lparr>eb_blocks = map fst bl, eb_metadata = ps, eb_artifacts = map (\<lambda>x. Bundle (snd x)) bl\<rparr>)"
      "mt_ok t'" "abs t' = m'" "list_all2 (points t) (map (\<lambda>x. Block_String L (fst x)) bl) ps"
      "\<forall>h q. points t' h q \<longleftrightarrow> points t h q"
    unfolding Ret r go.case prod.case by (auto simp: no_engineBlocks_def)
  have "points t' = points t" using c(5) by (simp add: fun_eq_iff)
  then show ?thesis using c by (simp add: Ret r)
qed (use see_reorged_refines [OF assms, of bs no_engineBlocks] in simp_all)

lemma handle_reorged_refines:
  assumes "mt_ok t"
  shows "rel_go (\<lambda>((er, t', stray), w') ((er', m'), w''). er = er' \<and> w' = w'' \<and> mt_ok t' \<and> abs t' = m')
    (handle_reorged S L e result t w) (spec_reorged L e result (abs t) w)"
  unfolding handle_reorged_def spec_reorged_def
proof (rule rel_go_bind [OF see_reorged_rel [OF assms]], clarify)
  fix t1 :: "('s, 'a) metadataTracker" and eb :: "'a engineBlocks" and rb :: "(block \<times> 'a artifact list) list"
  assume t1: "mt_ok t1" and eb: "eb_blocks eb = map fst rb" "eb_artifacts eb = map (\<lambda>x. Bundle (snd x)) rb"
    "list_all2 (points t1) (map (\<lambda>x. Block_String L (fst x)) rb) (eb_metadata eb)"
  have save: "\<exists>t2. save_handled S L eventHandleReorg callerReorgedLogs arts (eb_metadata eb) t1 = Ret t2 \<and> mt_ok t2 \<and>
      abs t2 = fold (spec_save1 L handle_reorg arts) (map (\<lambda>x. Block_String L (fst x)) rb) (abs t1)" for arts
    by (rule save_refines [OF t1 eb(3)]) (simp add: Fire_events)
  show "rel_go (\<lambda>((er, t', stray), w') ((er', m'), w''). er = er' \<and> w' = w'' \<and> mt_ok t' \<and> abs t' = m')
     (go_bind (if eb_blocks eb \<noteq> [] then HandleReorgedBlocks (serviceEngine e) (eb_blocks eb) (eb_artifacts eb) w
               else Ret ((\<lambda>_. [], None), w)) (\<lambda>((arts, er), w1).
        if er \<noteq> None then Ret ((errors_Wrap er ''serviceEngine.HandleReorgedBlockLogs failed'', t1, eb_artifacts eb), w1)
        else go_bind (save_handled S L eventHandleReorg callerReorgedLogs arts (eb_metadata eb) t1) (\<lambda>t2.
          Ret ((None, t2, eb_artifacts eb), w1))))
     (go_bind (if rb \<noteq> [] then HandleReorgedBlocks (serviceEngine e) (map fst rb) (map (\<lambda>x. Bundle (snd x)) rb) w
               else Ret ((\<lambda>_. [], None), w)) (\<lambda>((arts, er), w1).
        if er \<noteq> None then Ret ((errors_Wrap er ''serviceEngine.HandleReorgedBlockLogs failed'', abs t1), w1)
        else Ret ((None, fold (spec_save1 L handle_reorg arts) (map (\<lambda>x. Block_String L (fst x)) rb) (abs t1)), w1)))"
    unfolding eb(1,2) map_is_Nil_conv
    apply (rule rel_go_same, clarify)
    subgoal for arts er w1 using save [of arts] t1 by (cases er) auto
    done
qed

lemma handle_good_refines:
  assumes "mt_ok t"
  shows "rel_go (\<lambda>((er, t'), w') ((er', m'), w''). er = er' \<and> w' = w'' \<and> mt_ok t' \<and> abs t' = m')
    (handle_good S L e result t stray w) (spec_good L e result (abs t) w)"
proof -
  obtain m1 gb where spec: "spec_see_good (Block_String L) (GoodBlocks result) (abs t) = (m1, gb)" by fastforce
  obtain t1 ps stray' where c: "see_good_blocks S L (GoodBlocks result) (t, no_engineBlocks, stray) =
      Ret (t1, no_engineBlocks\<lparr>eb_blocks := gb, eb_metadata := ps\<rparr>, stray')" "mt_ok t1" "abs t1 = m1"
      "list_all2 (points t1) (map (Block_String L) gb) ps"
    using see_good_refines [OF assms spec, of no_engineBlocks stray] by (auto simp: no_engineBlocks_def)
  have save: "\<exists>t2. save_handled S L eventHandle callerGoodLogs arts ps t1 = Ret t2 \<and> mt_ok t2 \<and>
      abs t2 = fold (spec_save1 L handle_block arts) (map (Block_String L) gb) (abs t1)" for arts
    by (rule save_refines [OF c(2,4)]) (simp add: Fire_events)
  let ?eb = "no_engineBlocks\<lparr>eb_blocks := gb, eb_metadata := ps\<rparr>"
  have eb: "eb_blocks ?eb = gb" "eb_metadata ?eb = ps" "eb_artifacts ?eb = []" by (simp_all add: no_engineBlocks_def)
  show ?thesis
    unfolding handle_good_def spec_good_def spec c(1) go_bind_simps prod.case eb
    apply (rule rel_go_same, clarify)
    subgoal for arts er w1 using save [of arts] c(2,3) by (cases er) auto
    done
qed

lemma handle_result_refines_aux:
  assumes "mt_ok t"
  shows "rel_go (\<lambda>((er, t'), w') ((er', m'), w''). er = er' \<and> w' = w'' \<and> mt_ok t' \<and> abs t' = m')
    (handle_result S L e result t w) (spec_round L e result (abs t) w)"
proof -
  let ?bound = "res_LastGoodBlock result -
      FilterRange (WatcherConfig (eng_client e)) * MaxGoBackRetries (WatcherConfig (eng_client e))"
  let ?R = "\<lambda>((er, t'), w') ((er', m'), w''). er = er' \<and> w' = w'' \<and> mt_ok t' \<and> abs t' = m'"
  have last: "rel_go ?R
      (go_bind (ClearUntil S t2 ?bound) (\<lambda>t3. go_bind (eng_gateway e (res_LastGoodBlock result) w2) (\<lambda>(er3, w3).
         if er3 \<noteq> None then Ret ((errors_Wrap er3 ''failed to save lastRecordedBlock %d'', t3), w3)
         else go_bind (SyncsEmitter (eng_client e) w3) (\<lambda>w4. Ret ((None, t3), w4)))))
      (let m3 = spec_clear ?bound (abs t2) in go_bind (eng_gateway e (res_LastGoodBlock result) w2) (\<lambda>(er3, w3).
         if er3 \<noteq> None then Ret ((errors_Wrap er3 ''failed to save lastRecordedBlock %d'', m3), w3)
         else go_bind (SyncsEmitter (eng_client e) w3) (\<lambda>w4. Ret ((None, m3), w4))))" if t2: "mt_ok t2" for t2 w2
  proof -
    obtain t3 where t3: "ClearUntil S t2 ?bound = Ret t3" "mt_ok t3" "abs t3 = spec_clear ?bound (abs t2)"
      using ClearUntil_refines [OF t2] by blast
    show ?thesis unfolding t3(1) go_bind_simps Let_def
      by (rule rel_go_same, clarify) (simp add: t3 rel_go_same)
  qed
  have good: "rel_go ?R
      (go_bind (handle_good S L e result t1 stray w1) (\<lambda>((er2, t2), w2).
         if er2 \<noteq> None then Ret ((er2, t2), w2) else G t2 w2))
      (go_bind (spec_good L e result (abs t1) w1) (\<lambda>((er2, m2), w2).
         if er2 \<noteq> None then Ret ((er2, m2), w2) else H m2 w2))"
    if "mt_ok t1" "\<And>t2 w2. mt_ok t2 \<Longrightarrow> rel_go ?R (G t2 w2) (H (abs t2) w2)" for t1 stray w1 G H
    by (rule rel_go_bind [OF handle_good_refines [OF that(1)]]) (use that(2) in \<open>auto split: prod.splits\<close>)
  show ?thesis unfolding handle_result_def spec_round_def Let_def [of "WatcherConfig _"]
    by (rule rel_go_bind [OF handle_reorged_refines [OF assms]], clarify, rule rel_go_if, simp, rule good, assumption, rule last)
qed

end

end
