(* ===== verification/Engine_Theorems.thy ===== *)
theory Engine_Theorems
  imports Engine_Correct
begin

text \<open>
  The engine's theorems. The specification's loops have closed forms when the hashes of a result are
  distinct, as those of a poll are; from them follow what the service is called with, what is stored
  of each block, and, over any run of rounds, that no block is handled twice while the engine
  remembers it and that only handled blocks are reported to the service as reorged.
\<close>

section \<open>Closed forms of the specification's loops\<close>

definition state_in :: "'a entries \<Rightarrow> string \<Rightarrow> blockState" where
  "state_in m h = (case m h of None \<Rightarrow> stateNull | Some (n, s, a) \<Rightarrow> s)"

definition arts_in :: "'a entries \<Rightarrow> string \<Rightarrow> 'a artifact list" where
  "arts_in m h = (case m h of None \<Rightarrow> [] | Some (n, s, a) \<Rightarrow> a)"

text \<open>Every entry with a hash in \<open>A\<close> gets its state from \<open>f\<close>.\<close>

definition mark :: "string set \<Rightarrow> (blockState \<Rightarrow> blockState) \<Rightarrow> 'a entries \<Rightarrow> 'a entries" where
  "mark A f m h = (if h \<in> A then map_option (\<lambda>(n, s, a). (n, f s, a)) (m h) else m h)"

lemma mark_empty [simp]: "mark {} f m = m"
  by (simp add: mark_def fun_eq_iff)

lemma mark_other: "h \<notin> A \<Longrightarrow> mark A f m h = m h"
  by (simp add: mark_def)

lemma mark_insert:
  "k \<notin> A \<Longrightarrow> m k = Some (n, s, a) \<Longrightarrow> mark A f (m(k \<mapsto> (n, f s, a))) = mark (insert k A) f m"
  by (auto simp: mark_def fun_eq_iff)

lemma see_reorged_closed:
  assumes "distinct (map key bs)" "spec_see_reorged key bs m = Ret (m', bl)"
  shows "m' = mark (key ` set bs) see_reorg m"
    "bl = map (\<lambda>b. (b, arts_in m (key b))) (filter (\<lambda>b. state_in m (key b) = stateHandled) bs)"
    "\<forall>b\<in>set bs. m (key b) \<noteq> None"
  using assms
proof (induction bs arbitrary: m m' bl)
  case (Cons b bs)
  case 1
  obtain n s a where b: "m (key b) = Some (n, s, a)" using 1(2) by (cases "m (key b)") auto
  let ?m = "m(key b \<mapsto> (n, see_reorg s, a))"
  obtain bl' where r: "spec_see_reorged key bs ?m = Ret (m', bl')" using 1(2) b by (auto simp: go_bind_Ret_iff)
  have "m' = mark (key ` set bs) see_reorg ?m" by (rule Cons.IH(1) [OF _ r]) (use 1(1) in simp)
  then show ?case using 1(1) mark_insert [of "key b" "key ` set bs" m n s a see_reorg] b by simp
next
  case (Cons b bs)
  case 2
  obtain n s a where b: "m (key b) = Some (n, s, a)" using 2(2) by (cases "m (key b)") auto
  let ?m = "m(key b \<mapsto> (n, see_reorg s, a))"
  obtain bl' where r: "spec_see_reorged key bs ?m = Ret (m', bl')" using 2(2) b by (auto simp: go_bind_Ret_iff)
  have other: "state_in ?m (key c) = state_in m (key c)" "arts_in ?m (key c) = arts_in m (key c)" if "c \<in> set bs" for c
    using that 2(1) by (auto simp: state_in_def arts_in_def image_iff)
  have "bl' = map (\<lambda>b. (b, arts_in ?m (key b))) (filter (\<lambda>b. state_in ?m (key b) = stateHandled) bs)"
    by (rule Cons.IH(2) [OF _ r]) (use 2(1) in simp)
  also have "\<dots> = map (\<lambda>b. (b, arts_in m (key b))) (filter (\<lambda>b. state_in m (key b) = stateHandled) bs)"
    using other by (intro map_cong filter_cong) (auto simp del: fun_upd_apply)
  finally have "bl' = \<dots>" .
  moreover have "see_reorg s = stateReorged \<longleftrightarrow> s = stateHandled" by (auto simp: see_reorg_def)
  ultimately show ?case using 2(2) b r by (cases "s = stateHandled") (auto simp: state_in_def arts_in_def)
next
  case (Cons b bs)
  case 3
  obtain n s a where b: "m (key b) = Some (n, s, a)" using 3(2) by (cases "m (key b)") auto
  let ?m = "m(key b \<mapsto> (n, see_reorg s, a))"
  obtain bl' where r: "spec_see_reorged key bs ?m = Ret (m', bl')" using 3(2) b by (auto simp: go_bind_Ret_iff)
  show ?case using Cons.IH(3) [OF _ r] 3(1) b by (auto split: if_splits)
qed auto

lemma see_reorged_returns:
  "\<forall>b\<in>set bs. m (key b) \<noteq> None \<Longrightarrow> \<exists>m' bl. spec_see_reorged key bs m = Ret (m', bl)"
proof (induction bs arbitrary: m)
  case (Cons b bs)
  then obtain n s a where b: "m (key b) = Some (n, s, a)" by (cases "m (key b)") auto
  have "\<forall>c\<in>set bs. (m(key b \<mapsto> (n, see_reorg s, a))) (key c) \<noteq> None" using Cons.prems by auto
  then obtain m' bl where "spec_see_reorged key bs (m(key b \<mapsto> (n, see_reorg s, a))) = Ret (m', bl)" using Cons.IH by blast
  then show ?case using b by simp
qed auto

lemma see_reorged_unknown:
  "\<exists>b\<in>set bs. m (key b) = None \<Longrightarrow> spec_see_reorged key bs m = Panic ''nil metadata for block %d blockHash %s''"
proof (induction bs arbitrary: m)
  case (Cons b bs)
  show ?case
  proof (cases "m (key b)")
    case (Some x)
    obtain n s a where x: "x = (n, s, a)" by (cases x) auto
    obtain c where "c \<in> set bs" "m (key c) = None" using Cons.prems Some by auto
    then have "\<exists>c\<in>set bs. (m(key b \<mapsto> (n, see_reorg s, a))) (key c) = None" using Some by (intro bexI [of _ c]) auto
    then have "spec_see_reorged key bs (m(key b \<mapsto> (n, see_reorg s, a))) = Panic ''nil metadata for block %d blockHash %s''"
      by (rule Cons.IH)
    then show ?thesis using Some x by simp
  qed simp
qed auto

definition seen_entry :: "(block \<Rightarrow> string) \<Rightarrow> block list \<Rightarrow> 'a entries \<Rightarrow> 'a entries" where
  "seen_entry key bs m h =
     (case find (\<lambda>b. key b = h) bs of
        None \<Rightarrow> m h
      | Some b \<Rightarrow> (case entry_of key b m of (n, s, a) \<Rightarrow> Some (n, see_block s, a)))"

lemma find_key_None: "find (\<lambda>b. key b = h) bs = None \<longleftrightarrow> h \<notin> key ` set bs"
  by (auto simp: find_None_iff)

lemma find_key_distinct: "distinct (map key bs) \<Longrightarrow> b \<in> set bs \<Longrightarrow> find (\<lambda>c. key c = key b) bs = Some b"
  by (induction bs) (auto simp: image_iff)

lemma see_good_closed:
  "distinct (map key bs) \<Longrightarrow>
   spec_see_good key bs m = (seen_entry key bs m, filter (\<lambda>b. state_in m (key b) = stateNull) bs)"
proof (induction bs arbitrary: m)
  case Nil
  show ?case by (simp add: seen_entry_def fun_eq_iff)
next
  case (Cons b bs)
  obtain n s a where e: "entry_of key b m = (n, s, a)" by (cases "entry_of key b m") auto
  let ?m = "m(key b \<mapsto> (n, see_block s, a))"
  have d: "distinct (map key bs)" "key b \<notin> key ` set bs" using Cons.prems by auto
  have s: "s = state_in m (key b)" using e by (auto simp: entry_of_def state_in_def split: option.splits)
  have seen: "see_block s = stateSeen \<longleftrightarrow> s = stateNull" by (auto simp: see_block_def)
  have "entry_of key c ?m = entry_of key c m" if "c \<in> set bs" for c
    using that d(2) by (auto simp: entry_of_def image_iff)
  then have "seen_entry key bs ?m h = seen_entry key (b # bs) m h" for h
  proof (cases "find (\<lambda>c. key c = h) bs")
    case None
    then show ?thesis using e by (simp add: seen_entry_def)
  next
    case (Some c)
    then have c: "c \<in> set bs" "key c = h" by (auto simp: find_Some_iff)
    then have "key b \<noteq> h" using d(2) by auto
    then show ?thesis using Some \<open>\<And>c. c \<in> set bs \<Longrightarrow> entry_of key c ?m = entry_of key c m\<close> [OF c(1)] by (simp add: seen_entry_def)
  qed
  moreover have "filter (\<lambda>c. state_in ?m (key c) = stateNull) bs = filter (\<lambda>c. state_in m (key c) = stateNull) bs"
    using d(2) by (intro filter_cong) (auto simp: state_in_def image_iff)
  moreover have "spec_see_good key bs ?m = (seen_entry key bs ?m, filter (\<lambda>c. state_in ?m (key c) = stateNull) bs)"
    by (rule Cons.IH [OF d(1)])
  moreover have "spec_see_good key (b # bs) m = (case spec_see_good key bs ?m of
      (m', news) \<Rightarrow> (m', if s = stateNull then b # news else news))"
    using e seen by simp
  ultimately show ?case using s by (simp add: fun_eq_iff del: fun_upd_apply spec_see_good.simps)
qed

lemma save_closed:
  "distinct hs \<Longrightarrow> fold (spec_save1 L f arts) hs m h =
     (if h \<in> set hs then map_option (\<lambda>(n, s, a). (n, f s, arts (HexToHash L h))) (m h) else m h)"
proof (induction hs arbitrary: m)
  case (Cons k hs)
  then show ?case by (auto simp: spec_save1_def split: option.split prod.split)
qed simp

section \<open>One round in closed form\<close>

text \<open>The service is only called when there are blocks to handle.\<close>

definition call_service ::
    "(block list \<Rightarrow> 'a artifact list \<Rightarrow> 'w \<Rightarrow> (((hash \<Rightarrow> 'a artifact list) \<times> err) \<times> 'w) go) \<Rightarrow>
     block list \<Rightarrow> 'a artifact list \<Rightarrow> 'w \<Rightarrow> (((hash \<Rightarrow> 'a artifact list) \<times> err) \<times> 'w) go" where
  "call_service f bs as w = (if bs \<noteq> [] then f bs as w else Ret ((\<lambda>_. [], None), w))"

definition to_undo :: "lib \<Rightarrow> poller_result \<Rightarrow> 'a entries \<Rightarrow> block list" where
  "to_undo L result m = filter (\<lambda>b. state_in m (Block_String L b) = stateHandled) (ReorgedBlocks result)"

definition to_handle :: "lib \<Rightarrow> poller_result \<Rightarrow> 'a entries \<Rightarrow> block list" where
  "to_handle L result m = filter (\<lambda>b. m (Block_String L b) = None) (GoodBlocks result)"

definition after_reorged :: "lib \<Rightarrow> poller_result \<Rightarrow> (hash \<Rightarrow> 'a artifact list) \<Rightarrow> 'a entries \<Rightarrow> 'a entries" where
  "after_reorged L result arts m h =
     (if h \<notin> Block_String L ` set (ReorgedBlocks result) then m h
      else map_option (\<lambda>(n, s, a). if s = stateHandled then (n, stateHandledReorg, arts (HexToHash L h)) else (n, stateInvalid, a)) (m h))"

definition after_good :: "lib \<Rightarrow> poller_result \<Rightarrow> (hash \<Rightarrow> 'a artifact list) \<Rightarrow> 'a entries \<Rightarrow> 'a entries" where
  "after_good L result arts m h =
     (case find (\<lambda>b. Block_String L b = h) (GoodBlocks result) of
        None \<Rightarrow> m h
      | Some b \<Rightarrow>
          (case m h of
             None \<Rightarrow> Some (Number b, stateHandled, arts (HexToHash L h))
           | Some (n, s, a) \<Rightarrow> Some (n, if s = stateHandled then stateHandled else stateInvalid, a)))"

definition settled :: "'a entries \<Rightarrow> bool" where
  "settled m \<longleftrightarrow> (\<forall>h n s a. m h = Some (n, s, a) \<longrightarrow> s = stateHandled \<or> s = stateHandledReorg \<or> s = stateInvalid)"

definition distinct_hashes :: "lib \<Rightarrow> poller_result \<Rightarrow> bool" where
  "distinct_hashes L result \<longleftrightarrow>
     distinct (map (Block_String L) (ReorgedBlocks result)) \<and> distinct (map (Block_String L) (GoodBlocks result))"

lemma settledD: "settled m \<Longrightarrow> m h = Some (n, s, a) \<Longrightarrow> s = stateHandled \<or> s = stateHandledReorg \<or> s = stateInvalid"
  unfolding settled_def by blast

lemma settled_state: "settled m \<Longrightarrow> state_in m h = stateNull \<longleftrightarrow> m h = None"
  by (cases "m h") (auto simp: state_in_def dest: settledD)

lemma settled_after_reorged: "settled m \<Longrightarrow> settled (after_reorged L result arts m)"
  unfolding settled_def after_reorged_def
  by (intro allI impI) (auto split: if_splits)

lemma settled_after_good: "settled m \<Longrightarrow> settled (after_good L result arts m)"
  unfolding settled_def after_good_def
  by (intro allI impI) (auto split: if_splits option.splits)

lemma settled_clear: "settled m \<Longrightarrow> settled (spec_clear bound m)"
  unfolding settled_def [of "spec_clear bound m"] spec_clear_def
  by (intro allI impI) (auto split: if_splits option.splits dest: settledD)

lemma spec_reorged_closed:
  assumes "distinct (map (Block_String L) (ReorgedBlocks result))" "spec_reorged L e result m w = Ret ((er, m1), w1)"
  shows "\<exists>arts er0. call_service (HandleReorgedBlocks (serviceEngine e)) (to_undo L result m)
        (map (\<lambda>b. Bundle (arts_in m (Block_String L b))) (to_undo L result m)) w = Ret ((arts, er0), w1) \<and>
      er = errors_Wrap er0 ''serviceEngine.HandleReorgedBlockLogs failed'' \<and>
      (er = None \<longrightarrow> m1 = after_reorged L result arts m)"
    and "\<forall>b\<in>set (ReorgedBlocks result). m (Block_String L b) \<noteq> None"
proof -
  let ?key = "Block_String L" and ?R = "ReorgedBlocks result"
  obtain m0 rb where see: "spec_see_reorged ?key ?R m = Ret (m0, rb)"
    using assms(2) by (auto simp: spec_reorged_def go_bind_Ret_iff)
  note c = see_reorged_closed [OF assms(1) see]
  show "\<forall>b\<in>set ?R. m (?key b) \<noteq> None" by (rule c(3))
  have rb: "rb = map (\<lambda>b. (b, arts_in m (?key b))) (to_undo L result m)" using c(2) by (simp add: to_undo_def)
  have empty: "rb \<noteq> [] \<longleftrightarrow> to_undo L result m \<noteq> []" by (simp add: rb)
  have fst: "map fst rb = to_undo L result m" "map (\<lambda>x. Bundle (snd x)) rb = map (\<lambda>b. Bundle (arts_in m (?key b))) (to_undo L result m)"
    "map (\<lambda>x. ?key (fst x)) rb = map ?key (to_undo L result m)"
    by (simp_all add: rb comp_def)
  from assms(2) obtain arts er0 w2 where call: "call_service (HandleReorgedBlocks (serviceEngine e)) (to_undo L result m)
        (map (\<lambda>b. Bundle (arts_in m (?key b))) (to_undo L result m)) w = Ret ((arts, er0), w2)"
      and k: "(if er0 \<noteq> None then Ret ((errors_Wrap er0 ''serviceEngine.HandleReorgedBlockLogs failed'', m0), w2)
         else Ret ((None, fold (spec_save1 L handle_reorg arts) (map ?key (to_undo L result m)) m0), w2)) = Ret ((er, m1), w1)"
    unfolding spec_reorged_def see go_bind_simps prod.case empty fst call_service_def by (auto simp: go_bind_Ret_iff)
  have "distinct (map ?key (to_undo L result m))" using assms(1) by (simp add: to_undo_def distinct_map_filter)
  note d = this
  have undo: "h \<in> set (map ?key (to_undo L result m)) \<longleftrightarrow> h \<in> ?key ` set ?R \<and> state_in m h = stateHandled" for h
    by (auto simp: to_undo_def)
  have "fold (spec_save1 L handle_reorg arts) (map ?key (to_undo L result m)) m0 h = after_reorged L result arts m h" for h
    unfolding save_closed [OF d] c(1) undo
    by (cases "m h") (auto simp: mark_def after_reorged_def state_in_def see_reorg_def handle_reorg_def)
  then have "fold (spec_save1 L handle_reorg arts) (map ?key (to_undo L result m)) m0 = after_reorged L result arts m"
    by (rule ext)
  then show "\<exists>arts er0. call_service (HandleReorgedBlocks (serviceEngine e)) (to_undo L result m)
        (map (\<lambda>b. Bundle (arts_in m (?key b))) (to_undo L result m)) w = Ret ((arts, er0), w1) \<and>
      er = errors_Wrap er0 ''serviceEngine.HandleReorgedBlockLogs failed'' \<and>
      (er = None \<longrightarrow> m1 = after_reorged L result arts m)"
    using call k by (cases er0) auto
qed

lemma spec_good_closed:
  assumes "distinct (map (Block_String L) (GoodBlocks result))" "settled m" "spec_good L e result m w = Ret ((er, m1), w1)"
  shows "\<exists>arts er0. call_service (HandleGoodBlocks (serviceEngine e)) (to_handle L result m) [] w = Ret ((arts, er0), w1) \<and>
      er = errors_Wrap er0 ''serviceEngine.HandleGoodBlockLogs failed'' \<and>
      (er = None \<longrightarrow> m1 = after_good L result arts m)"
proof -
  let ?key = "Block_String L" and ?G = "GoodBlocks result" and ?N = "to_handle L result m"
  have see: "spec_see_good ?key ?G m = (seen_entry ?key ?G m, ?N)"
    using see_good_closed [OF assms(1), of m] by (simp add: to_handle_def settled_state [OF assms(2)])
  from assms(3) obtain arts er0 w2 where call: "call_service (HandleGoodBlocks (serviceEngine e)) ?N [] w = Ret ((arts, er0), w2)"
      and k: "(if er0 \<noteq> None then Ret ((errors_Wrap er0 ''serviceEngine.HandleGoodBlockLogs failed'', seen_entry ?key ?G m), w2)
         else Ret ((None, fold (spec_save1 L handle_block arts) (map ?key ?N) (seen_entry ?key ?G m)), w2)) = Ret ((er, m1), w1)"
    unfolding spec_good_def see prod.case call_service_def by (auto simp: go_bind_Ret_iff)
  have d: "distinct (map ?key ?N)" using assms(1) by (simp add: to_handle_def distinct_map_filter)
  have "fold (spec_save1 L handle_block arts) (map ?key ?N) (seen_entry ?key ?G m) h = after_good L result arts m h" for h
  proof (cases "find (\<lambda>b. ?key b = h) ?G")
    case None
    then have "h \<notin> ?key ` set ?N" using find_key_None [of ?key h ?G] by (auto simp: to_handle_def)
    then show ?thesis using None by (simp add: save_closed [OF d] seen_entry_def after_good_def)
  next
    case (Some b)
    then have b: "b \<in> set ?G" "?key b = h" by (auto simp: find_Some_iff)
    then have "h \<in> ?key ` set ?N \<longleftrightarrow> m h = None" by (auto simp: to_handle_def)
    then show ?thesis using Some b(2)
      by (cases "m h") (auto simp: save_closed [OF d] seen_entry_def after_good_def entry_of_def handle_block_def see_block_def
          dest: settledD [OF assms(2)])
  qed
  then have "fold (spec_save1 L handle_block arts) (map ?key ?N) (seen_entry ?key ?G m) = after_good L result arts m" by (rule ext)
  then show ?thesis using call k by (cases er0) auto
qed

definition clear_bound :: "('s, 'a, 'w) engine \<Rightarrow> poller_result \<Rightarrow> u64" where
  "clear_bound e result = res_LastGoodBlock result -
     FilterRange (WatcherConfig (eng_client e)) * MaxGoBackRetries (WatcherConfig (eng_client e))"

text \<open>What the reorged blocks change never makes a hash known or unknown.\<close>

lemma to_handle_after_reorged: "to_handle L result (after_reorged L result' arts m) = to_handle L result m"
proof -
  have "after_reorged L result' arts m h = None \<longleftrightarrow> m h = None" for h by (simp add: after_reorged_def)
  then show ?thesis by (simp add: to_handle_def)
qed

lemma spec_round_closed:
  assumes "settled m" "distinct_hashes L result" "spec_round L e result m w = Ret ((None, m'), w')"
  shows "\<exists>arts1 w1 arts2 w2 w3.
      call_service (HandleReorgedBlocks (serviceEngine e)) (to_undo L result m)
        (map (\<lambda>b. Bundle (arts_in m (Block_String L b))) (to_undo L result m)) w = Ret ((arts1, None), w1) \<and>
      call_service (HandleGoodBlocks (serviceEngine e)) (to_handle L result m) [] w1 = Ret ((arts2, None), w2) \<and>
      eng_gateway e (res_LastGoodBlock result) w2 = Ret (None, w3) \<and> SyncsEmitter (eng_client e) w3 = Ret w' \<and>
      m' = spec_clear (clear_bound e result) (after_good L result arts2 (after_reorged L result arts1 m))"
proof -
  have d: "distinct (map (Block_String L) (ReorgedBlocks result))" "distinct (map (Block_String L) (GoodBlocks result))"
    using assms(2) by (simp_all add: distinct_hashes_def)
  from assms(3) obtain er1 m1 w1 where r: "spec_reorged L e result m w = Ret ((er1, m1), w1)"
    by (auto simp: spec_round_def go_bind_Ret_iff)
  then have e1: "er1 = None" using assms(3) by (cases er1) (auto simp: spec_round_def)
  from assms(3) obtain er2 m2 w2 where g: "spec_good L e result m1 w1 = Ret ((er2, m2), w2)"
    using r e1 by (auto simp: spec_round_def go_bind_Ret_iff)
  then have e2: "er2 = None" using assms(3) r e1 by (cases er2) (auto simp: spec_round_def)
  from assms(3) obtain w3 where c: "eng_gateway e (res_LastGoodBlock result) w2 = Ret (None, w3)" "SyncsEmitter (eng_client e) w3 = Ret w'"
      "m' = spec_clear (clear_bound e result) m2"
    using r g e1 e2 by (auto simp: spec_round_def clear_bound_def go_bind_Ret_iff Let_def split: if_splits)
  obtain arts1 where a1: "call_service (HandleReorgedBlocks (serviceEngine e)) (to_undo L result m)
        (map (\<lambda>b. Bundle (arts_in m (Block_String L b))) (to_undo L result m)) w = Ret ((arts1, None), w1)"
      "m1 = after_reorged L result arts1 m"
    using spec_reorged_closed(1) [OF d(1) r] e1 by auto
  have "settled m1" using a1(2) settled_after_reorged [OF assms(1)] by simp
  then obtain arts2 where a2: "call_service (HandleGoodBlocks (serviceEngine e)) (to_handle L result m1) [] w1 = Ret ((arts2, None), w2)"
      "m2 = after_good L result arts2 m1"
    using spec_good_closed [OF d(2) _ g] e2 by auto
  show ?thesis using a1 a2 c to_handle_after_reorged [of L result result arts1 m] by auto
qed

lemma handle_result_closed:
  assumes "metadata_tracker S ss_map ss_ok L" "metadata_ok ss_map ss_ok t" "settled (metadata_abs ss_map t)" "distinct_hashes L result"
    "handle_result S L e result t w = Ret ((None, t'), w')"
  shows "\<exists>arts1 w1 arts2 w2 w3.
      call_service (HandleReorgedBlocks (serviceEngine e)) (to_undo L result (metadata_abs ss_map t))
        (map (\<lambda>b. Bundle (arts_in (metadata_abs ss_map t) (Block_String L b))) (to_undo L result (metadata_abs ss_map t))) w = Ret ((arts1, None), w1) \<and>
      call_service (HandleGoodBlocks (serviceEngine e)) (to_handle L result (metadata_abs ss_map t)) [] w1 = Ret ((arts2, None), w2) \<and>
      eng_gateway e (res_LastGoodBlock result) w2 = Ret (None, w3) \<and> SyncsEmitter (eng_client e) w3 = Ret w' \<and>
      metadata_abs ss_map t' = spec_clear (clear_bound e result) (after_good L result arts2 (after_reorged L result arts1 (metadata_abs ss_map t)))"
    and "metadata_ok ss_map ss_ok t'"
    and "\<forall>b\<in>set (ReorgedBlocks result). metadata_abs ss_map t (Block_String L b) \<noteq> None"
proof -
  note ref = metadata_tracker.handle_result_refines_aux [OF assms(1,2), of e result w]
  then obtain m' where spec: "spec_round L e result (metadata_abs ss_map t) w = Ret ((None, m'), w')"
      "metadata_abs ss_map t' = m'" and ok: "metadata_ok ss_map ss_ok t'"
    unfolding assms(5) by (cases "spec_round L e result (metadata_abs ss_map t) w") auto
  show "metadata_ok ss_map ss_ok t'" by (rule ok)
  show "\<exists>arts1 w1 arts2 w2 w3.
      call_service (HandleReorgedBlocks (serviceEngine e)) (to_undo L result (metadata_abs ss_map t))
        (map (\<lambda>b. Bundle (arts_in (metadata_abs ss_map t) (Block_String L b))) (to_undo L result (metadata_abs ss_map t))) w = Ret ((arts1, None), w1) \<and>
      call_service (HandleGoodBlocks (serviceEngine e)) (to_handle L result (metadata_abs ss_map t)) [] w1 = Ret ((arts2, None), w2) \<and>
      eng_gateway e (res_LastGoodBlock result) w2 = Ret (None, w3) \<and> SyncsEmitter (eng_client e) w3 = Ret w' \<and>
      metadata_abs ss_map t' = spec_clear (clear_bound e result) (after_good L result arts2 (after_reorged L result arts1 (metadata_abs ss_map t)))"
    unfolding spec(2) by (rule spec_round_closed [OF assms(3,4) spec(1)])
  from spec(1) obtain er1 m1 w1 where "spec_reorged L e result (metadata_abs ss_map t) w = Ret ((er1, m1), w1)"
    by (auto simp: spec_round_def go_bind_Ret_iff)
  from spec_reorged_closed(2) [OF _ this] assms(4)
  show "\<forall>b\<in>set (ReorgedBlocks result). metadata_abs ss_map t (Block_String L b) \<noteq> None"
    by (simp add: distinct_hashes_def)
qed

section \<open>Runs\<close>

text \<open>What the service was asked to do, in order.\<close>

datatype service_call = Handled block | Undone block

fun handled_keys :: "lib \<Rightarrow> service_call list \<Rightarrow> string list" where
  "handled_keys L [] = []"
| "handled_keys L (Handled b # cs) = Block_String L b # handled_keys L cs"
| "handled_keys L (Undone b # cs) = handled_keys L cs"

fun undone_keys :: "lib \<Rightarrow> service_call list \<Rightarrow> string list" where
  "undone_keys L [] = []"
| "undone_keys L (Handled b # cs) = undone_keys L cs"
| "undone_keys L (Undone b # cs) = Block_String L b # undone_keys L cs"

text \<open>A block is only undone if its hash was handled before.\<close>

fun undo_ordered :: "lib \<Rightarrow> string list \<Rightarrow> service_call list \<Rightarrow> bool" where
  "undo_ordered L ks [] = True"
| "undo_ordered L ks (Handled b # cs) = undo_ordered L (Block_String L b # ks) cs"
| "undo_ordered L ks (Undone b # cs) \<longleftrightarrow> Block_String L b \<in> set ks \<and> undo_ordered L ks cs"

text \<open>
  A run of rounds from a new engine, with the calls made and the bounds below which metadata were
  dropped. A hash determines the number of its block.
\<close>

inductive engine_run ::
    "('s, nat) sortedset \<Rightarrow> ('s \<Rightarrow> string \<Rightarrow> (int \<times> nat) option) \<Rightarrow> lib \<Rightarrow> ('s, 'a, 'w) engine \<Rightarrow> (string \<Rightarrow> u64) \<Rightarrow>
     ('s, 'a) metadataTracker \<Rightarrow> service_call list \<Rightarrow> u64 list \<Rightarrow> bool"
  for S ss_map L e num where
  start: "engine_run S ss_map L e num (metadata_newTracker S) [] []"
| round: "engine_run S ss_map L e num t hist bounds \<Longrightarrow> distinct_hashes L result \<Longrightarrow>
    list_all (\<lambda>b. Number b = num (Block_String L b)) (ReorgedBlocks result @ GoodBlocks result) \<Longrightarrow>
    handle_result S L e result t w = Ret ((None, t'), w') \<Longrightarrow>
    engine_run S ss_map L e num t'
      (hist @ map Undone (to_undo L result (metadata_abs ss_map t)) @ map Handled (to_handle L result (metadata_abs ss_map t)))
      (clear_bound e result # bounds)"

definition remembered :: "(string \<Rightarrow> u64) \<Rightarrow> u64 list \<Rightarrow> string \<Rightarrow> bool" where
  "remembered num bounds h = list_all (\<lambda>c. sint c < sint (num h)) bounds"

lemma handled_keys_append [simp]: "handled_keys L (xs @ ys) = handled_keys L xs @ handled_keys L ys"
  by (induction xs rule: handled_keys.induct) auto

lemma undone_keys_append [simp]: "undone_keys L (xs @ ys) = undone_keys L xs @ undone_keys L ys"
  by (induction xs rule: undone_keys.induct) auto

lemma keys_map [simp]:
  "handled_keys L (map Handled bs) = map (Block_String L) bs" "undone_keys L (map Handled bs) = []"
  "handled_keys L (map Undone bs) = []" "undone_keys L (map Undone bs) = map (Block_String L) bs"
  by (induction bs) auto

lemma undo_ordered_append:
  "undo_ordered L ks (xs @ ys) \<longleftrightarrow> undo_ordered L ks xs \<and> undo_ordered L (rev (handled_keys L xs) @ ks) ys"
  by (induction L ks xs rule: undo_ordered.induct) auto

lemma undo_ordered_round:
  "undo_ordered L ks (map Undone us @ map Handled hs) \<longleftrightarrow> Block_String L ` set us \<subseteq> set ks"
proof -
  have "undo_ordered L ks (map Undone us) \<longleftrightarrow> Block_String L ` set us \<subseteq> set ks" by (induction us) auto
  moreover have "undo_ordered L ks (map Handled hs)" for ks by (induction hs arbitrary: ks) auto
  ultimately show ?thesis by (simp add: undo_ordered_append)
qed

text \<open>The invariant of a run, between what is stored and what was called.\<close>

definition run_ok :: "lib \<Rightarrow> (string \<Rightarrow> u64) \<Rightarrow> 'a entries \<Rightarrow> service_call list \<Rightarrow> u64 list \<Rightarrow> bool" where
  "run_ok L num m hist bounds \<longleftrightarrow> settled m \<and>
     (\<forall>h n s a. m h = Some (n, s, a) \<longrightarrow> n = num h \<and> (s = stateHandled \<longrightarrow> h \<in> set (handled_keys L hist))) \<and>
     (\<forall>h. remembered num bounds h \<longrightarrow> h \<in> set (handled_keys L hist) \<longrightarrow> m h \<noteq> None) \<and>
     (\<forall>h. remembered num bounds h \<longrightarrow> h \<in> set (undone_keys L hist) \<longrightarrow> m h \<noteq> None \<and> state_in m h \<noteq> stateHandled) \<and>
     distinct (filter (remembered num bounds) (handled_keys L hist)) \<and>
     distinct (filter (remembered num bounds) (undone_keys L hist)) \<and>
     undo_ordered L [] hist"

lemma entries_after:
  fixes m :: "'a entries" and L result arts1 arts2
  assumes "settled m"
  defines "m2 \<equiv> after_good L result arts2 (after_reorged L result arts1 m)"
  shows "m2 h = None \<longleftrightarrow> m h = None \<and> h \<notin> Block_String L ` set (GoodBlocks result)"
    and "m h = Some (n, s, a) \<Longrightarrow> \<exists>s' a'. m2 h = Some (n, s', a') \<and> (s' = stateHandled \<longrightarrow> s = stateHandled \<and> h \<notin> Block_String L ` set (ReorgedBlocks result))"
    and "m h = None \<Longrightarrow> m2 h = Some (n, s, a) \<Longrightarrow>
      \<exists>b\<in>set (to_handle L result m). Block_String L b = h \<and> n = Number b \<and> s = stateHandled \<and> a = arts2 (HexToHash L h)"
proof -
  let ?G = "GoodBlocks result" and ?m1 = "after_reorged L result arts1 m"
  have m1: "?m1 h = None \<longleftrightarrow> m h = None" by (simp add: after_reorged_def)
  show "m2 h = None \<longleftrightarrow> m h = None \<and> h \<notin> Block_String L ` set ?G"
    using m1 find_key_None [of "Block_String L" h ?G]
    by (cases "find (\<lambda>b. Block_String L b = h) ?G"; cases "?m1 h") (auto simp: m2_def after_good_def)
  show "m h = Some (n, s, a) \<Longrightarrow> \<exists>s' a'. m2 h = Some (n, s', a') \<and> (s' = stateHandled \<longrightarrow> s = stateHandled \<and> h \<notin> Block_String L ` set (ReorgedBlocks result))"
    by (cases "find (\<lambda>b. Block_String L b = h) ?G") (auto simp: m2_def after_good_def after_reorged_def)
  show "\<exists>b\<in>set (to_handle L result m). Block_String L b = h \<and> n = Number b \<and> s = stateHandled \<and> a = arts2 (HexToHash L h)"
    if "m h = None" "m2 h = Some (n, s, a)"
  proof (cases "find (\<lambda>b. Block_String L b = h) ?G")
    case None
    then show ?thesis using that m1 by (simp add: m2_def after_good_def)
  next
    case (Some b)
    then have "b \<in> set ?G" "Block_String L b = h" by (auto simp: find_Some_iff)
    then show ?thesis using Some that m1 by (intro bexI [of _ b]) (auto simp: m2_def after_good_def to_handle_def)
  qed
qed

lemma spec_clear_Some: "spec_clear bound m h = Some (n, s, a) \<longleftrightarrow> m h = Some (n, s, a) \<and> sint bound < sint n"
  by (auto simp: spec_clear_def split: option.splits if_splits)

lemma distinct_grow:
  assumes "distinct (filter Q xs)" "distinct ys" "\<And>h. Q' h \<Longrightarrow> Q h" "\<And>h. Q' h \<Longrightarrow> h \<in> set xs \<Longrightarrow> h \<notin> set ys"
  shows "distinct (filter Q' (xs @ ys))"
proof -
  have "filter Q' xs = filter Q' (filter Q xs)" unfolding filter_filter using assms(3) by (intro filter_cong) auto
  then show ?thesis using assms(4) distinct_filter [OF assms(1), of Q'] distinct_filter [OF assms(2), of Q'] by auto
qed

text \<open>A round, seen from one hash: where its entry comes from, and what becomes of it.\<close>

lemma round_entries:
  fixes m :: "'a entries" and L result arts1 arts2 bound
  assumes "settled m" "\<forall>h n s a. m h = Some (n, s, a) \<longrightarrow> n = num h" "\<forall>b\<in>set (GoodBlocks result). Number b = num (Block_String L b)"
  defines "m' \<equiv> spec_clear bound (after_good L result arts2 (after_reorged L result arts1 m))"
  shows "m' h = Some (n, s, a) \<Longrightarrow> n = num h \<and> (s = stateHandled \<longrightarrow> (\<exists>a. m h = Some (n, s, a)) \<or> h \<in> Block_String L ` set (to_handle L result m))"
    and "sint bound < sint (num h) \<Longrightarrow> m h \<noteq> None \<or> h \<in> Block_String L ` set (to_handle L result m) \<Longrightarrow> m' h \<noteq> None"
    and "m h \<noteq> None \<Longrightarrow> state_in m h \<noteq> stateHandled \<or> h \<in> Block_String L ` set (ReorgedBlocks result) \<Longrightarrow> state_in m' h \<noteq> stateHandled"
proof -
  let ?m2 = "after_good L result arts2 (after_reorged L result arts1 m)"
  note ea = entries_after [OF assms(1), where L = L and result = result and ?arts1.0 = arts1 and ?arts2.0 = arts2]
  have origin: "n = num h \<and> (s = stateHandled \<longrightarrow> (\<exists>a. m h = Some (n, s, a)) \<or> h \<in> Block_String L ` set (to_handle L result m))"
    if "?m2 h = Some (n, s, a)" for n s a
  proof (cases "m h")
    case None
    then show ?thesis using ea(3) [OF None that] assms(3) by (auto simp: to_handle_def)
  next
    case (Some x)
    obtain n0 s0 a0 where x: "m h = Some (n0, s0, a0)" using Some by (cases x) auto
    then show ?thesis using ea(2) [OF x] assms(2) that by auto
  qed
  show "n = num h \<and> (s = stateHandled \<longrightarrow> (\<exists>a. m h = Some (n, s, a)) \<or> h \<in> Block_String L ` set (to_handle L result m))" if "m' h = Some (n, s, a)"
    using that origin unfolding m'_def spec_clear_Some by blast
  show "m' h \<noteq> None" if "sint bound < sint (num h)" "m h \<noteq> None \<or> h \<in> Block_String L ` set (to_handle L result m)"
  proof -
    have "?m2 h \<noteq> None" using that(2) ea(1) [of h] by (auto simp: to_handle_def)
    then obtain n s a where "?m2 h = Some (n, s, a)" by auto
    then show ?thesis using origin that(1) spec_clear_Some [of bound ?m2 h n s a] by (auto simp: m'_def)
  qed
  show "state_in m' h \<noteq> stateHandled" if "m h \<noteq> None" "state_in m h \<noteq> stateHandled \<or> h \<in> Block_String L ` set (ReorgedBlocks result)"
  proof -
    obtain n s a where x: "m h = Some (n, s, a)" using \<open>m h \<noteq> None\<close> by (cases "m h") auto
    then show ?thesis using ea(2) [OF x] that x by (auto simp: m'_def spec_clear_def state_in_def split: if_splits)
  qed
qed

text \<open>A round keeps the invariant of a run.\<close>

lemma run_ok_round:
  fixes m :: "'a entries" and L result arts1 arts2 bound hist
  assumes "run_ok L num m hist bounds" "distinct_hashes L result"
    "\<forall>b\<in>set (GoodBlocks result). Number b = num (Block_String L b)" "\<forall>b\<in>set (ReorgedBlocks result). m (Block_String L b) \<noteq> None"
  defines "m' \<equiv> spec_clear bound (after_good L result arts2 (after_reorged L result arts1 m))"
    and "hist' \<equiv> hist @ map Undone (to_undo L result m) @ map Handled (to_handle L result m)"
  shows "run_ok L num m' hist' (bound # bounds)"
proof -
  let ?R = "remembered num (bound # bounds)"
  have st: "settled m" and num: "\<forall>h n s a. m h = Some (n, s, a) \<longrightarrow> n = num h" "\<And>h n a. m h = Some (n, stateHandled, a) \<Longrightarrow> h \<in> set (handled_keys L hist)"
    and mem: "\<And>h. remembered num bounds h \<Longrightarrow> h \<in> set (handled_keys L hist) \<Longrightarrow> m h \<noteq> None"
      "\<And>h. remembered num bounds h \<Longrightarrow> h \<in> set (undone_keys L hist) \<Longrightarrow> m h \<noteq> None \<and> state_in m h \<noteq> stateHandled"
    and d: "distinct (filter (remembered num bounds) (handled_keys L hist))" "distinct (filter (remembered num bounds) (undone_keys L hist))"
    using assms(1) unfolding run_ok_def by blast+
  note re = round_entries [OF st num(1) assms(3), where bound = bound and ?arts1.0 = arts1 and ?arts2.0 = arts2, folded m'_def]
  have keys: "handled_keys L hist' = handled_keys L hist @ map (Block_String L) (to_handle L result m)"
      "undone_keys L hist' = undone_keys L hist @ map (Block_String L) (to_undo L result m)" by (simp_all add: hist'_def)
  have R: "?R h \<longleftrightarrow> sint bound < sint (num h) \<and> remembered num bounds h" for h by (simp add: remembered_def)
  have new: "m (Block_String L b) = None" if "b \<in> set (to_handle L result m)" for b using that by (auto simp: to_handle_def)
  have dn: "distinct (map (Block_String L) (to_handle L result m))" "distinct (map (Block_String L) (to_undo L result m))"
    using assms(2) by (simp_all add: distinct_hashes_def to_handle_def to_undo_def distinct_map_filter)
  have known: "Block_String L b \<in> set (handled_keys L hist)" if "b \<in> set (to_undo L result m)" for b
    using that num(2) by (auto simp: to_undo_def state_in_def split: option.splits)
  show ?thesis unfolding run_ok_def keys
  proof (intro conjI allI impI)
    show "settled m'" unfolding m'_def by (intro settled_clear settled_after_good settled_after_reorged st)
    show "n = num h" if "m' h = Some (n, s, a)" for h n s a using re(1) [OF that] by blast
    show "h \<in> set (handled_keys L hist @ map (Block_String L) (to_handle L result m))" if "m' h = Some (n, s, a)" "s = stateHandled" for h n s a
      using re(1) [OF that(1)] that(2) num(2) by auto
    show "m' h \<noteq> None" if "?R h" "h \<in> set (handled_keys L hist @ map (Block_String L) (to_handle L result m))" for h
      using re(2) [of h] mem(1) that R by auto
    fix h assume h: "?R h" "h \<in> set (undone_keys L hist @ map (Block_String L) (to_undo L result m))"
    then have "m h \<noteq> None \<and> (state_in m h \<noteq> stateHandled \<or> h \<in> Block_String L ` set (ReorgedBlocks result))"
      using mem(2) R assms(4) by (auto simp: to_undo_def)
    then show "m' h \<noteq> None" "state_in m' h \<noteq> stateHandled" using re(2,3) [of h] h(1) R by blast+
  next
    show "distinct (filter ?R (handled_keys L hist @ map (Block_String L) (to_handle L result m)))"
      using R mem(1) new by (intro distinct_grow [OF d(1) dn(1)]) fastforce+
    show "distinct (filter ?R (undone_keys L hist @ map (Block_String L) (to_undo L result m)))"
      using R mem(2) by (intro distinct_grow [OF d(2) dn(2)]) (fastforce simp: to_undo_def)+
    show "undo_ordered L [] hist'"
      using assms(1) known by (auto simp: hist'_def undo_ordered_append [of _ _ hist] undo_ordered_round run_ok_def)
  qed
qed

lemma engine_run_ok:
  assumes "metadata_tracker S ss_map ss_ok L" "engine_run S ss_map L e num t hist bounds"
  shows "metadata_ok ss_map ss_ok t \<and> run_ok L num (metadata_abs ss_map t) hist bounds"
  using assms(2)
proof (induction rule: engine_run.induct)
  case start
  then show ?case by (simp add: metadata_tracker.mt_ok_new [OF assms(1)] run_ok_def settled_def remembered_def)
next
  case (round t hist bounds result w t' w')
  then have ok: "metadata_ok ss_map ss_ok t" "run_ok L num (metadata_abs ss_map t) hist bounds" by auto
  have st: "settled (metadata_abs ss_map t)" using ok(2) by (simp add: run_ok_def)
  note c = handle_result_closed [OF assms(1) ok(1) st round.hyps(2,4)]
  from c(1) obtain arts1 arts2 where
    m: "metadata_abs ss_map t' = spec_clear (clear_bound e result) (after_good L result arts2 (after_reorged L result arts1 (metadata_abs ss_map t)))"
    by blast
  have "\<forall>b\<in>set (GoodBlocks result). Number b = num (Block_String L b)" using round.hyps(3) by (simp add: list_all_iff)
  from run_ok_round [OF ok(2) round.hyps(2) this c(3)] show ?case unfolding m using c(2) by simp
qed

section \<open>A sample engine\<close>

interpretation lmt: metadata_tracker list_ss list_ss_map list_ss_ok std_lib
  by unfold_locales

text \<open>The samples print hashes without leading zeros, which keeps evaluation fast.\<close>

definition short_lower :: "hash \<Rightarrow> string" where
  "short_lower h = hex_print (hex_width (unat h)) (unat h)"

definition short_lib :: lib where
  "short_lib = std_lib\<lparr>gsl_StringerToLowerString := short_lower\<rparr>"

interpretation short: lib_spec short_lib
  using std.lib_spec_axioms hex_parse_print [OF hex_width_enough]
  by (simp add: lib_spec_def short_lib_def short_lower_def std_HexToHash_def std_lib_def)

interpretation smt: metadata_tracker list_ss list_ss_map list_ss_ok short_lib
  by unfold_locales

text \<open>
  A service that keeps the numbers it handled and undid, returns the number of a block as its
  artifact, and cannot handle block 666; the last component of its world is the recorded block.
\<close>

type_synonym sample_store = "u64 list \<times> u64 list \<times> u64"

definition ew_arts :: "block list \<Rightarrow> hash \<Rightarrow> u64 artifact list" where
  "ew_arts bs h = (case find (\<lambda>b. Hash b = h) bs of None \<Rightarrow> [] | Some b \<Rightarrow> [Leaf (Number b)])"

definition ew_good :: "block list \<Rightarrow> u64 artifact list \<Rightarrow> sample_store \<Rightarrow> (((hash \<Rightarrow> u64 artifact list) \<times> err) \<times> sample_store) go" where
  "ew_good bs as w =
     (if 666 \<in> set (map Number bs) then Ret ((ew_arts [], Some ErrUserError), w)
      else case w of (h, u, r) \<Rightarrow> Ret ((ew_arts bs, None), (h @ map Number bs, u, r)))"

definition ew_reorged :: "block list \<Rightarrow> u64 artifact list \<Rightarrow> sample_store \<Rightarrow> (((hash \<Rightarrow> u64 artifact list) \<times> err) \<times> sample_store) go" where
  "ew_reorged bs as w = (case w of (h, u, r) \<Rightarrow> Ret ((ew_arts [], None), (h, u @ map Number bs, r)))"

definition ew_error :: "go_error \<Rightarrow> sample_store \<Rightarrow> (err \<times> sample_store) go" where
  "ew_error x w = Ret (Some x, w)"

definition ew_record :: "u64 \<Rightarrow> sample_store \<Rightarrow> (err \<times> sample_store) go" where
  "ew_record n w = (case w of (h, u, r) \<Rightarrow> Ret (None, (h, u, n)))"

definition ew_sync :: "sample_store \<Rightarrow> sample_store go" where
  "ew_sync w = Ret w"

definition ew_result :: "sample_store \<Rightarrow> (poller_result option \<times> sample_store) go" where
  "ew_result w = Ret (None, w)"

definition ew_err :: "sample_store \<Rightarrow> (go_error option \<times> sample_store) go" where
  "ew_err w = Ret (None, w)"

definition ew_client :: "sample_store emitterClient" where
  "ew_client = \<lparr>emitterConfig = some_config, emitterSyncChan = Some (ew_sync, ew_sync), ec_pollResultChan = ew_result, ec_errChan = ew_err\<rparr>"

definition ew_engine :: "(nat ss_node list, u64, sample_store) engine" where
  "ew_engine = engine_New list_ss ew_client
     \<lparr>HandleGoodBlocks = ew_good, HandleReorgedBlocks = ew_reorged, svc_HandleEmitterError = ew_error\<rparr> ew_record 0"

definition ew_block :: "u64 \<Rightarrow> hash \<Rightarrow> block" where
  "ew_block n h = \<lparr>LogsMigrated = False, Number = n, Hash = h, Header = None, Logs = []\<rparr>"

definition ew_poll :: "block list \<Rightarrow> block list \<Rightarrow> u64 \<Rightarrow> poller_result" where
  "ew_poll good reorged n = \<lparr>FromBlock = 100, ToBlock = 101, res_LastGoodBlock = n, GoodBlocks = good, ReorgedBlocks = reorged\<rparr>"

definition ew_poll1 :: poller_result where "ew_poll1 = ew_poll [ew_block 100 7, ew_block 101 8] [] 101"
definition ew_poll2 :: poller_result where "ew_poll2 = ew_poll [ew_block 100 7, ew_block 101 9] [ew_block 101 8] 101"
definition ew_poll3 :: poller_result where "ew_poll3 = ew_poll [ew_block 100 7, ew_block 666 10] [] 101"
definition ew_poll4 :: poller_result where "ew_poll4 = ew_poll [] [ew_block 50 5] 101"

definition ew_num :: "string \<Rightarrow> u64" where
  "ew_num h = (if h = Block_String short_lib (ew_block 100 7) then 100 else 101)"

text \<open>Reading the outcome of a round.\<close>

definition ok_round :: "((err \<times> 't) \<times> 'w) go \<Rightarrow> bool" where
  "ok_round x = (case x of Ret ((None, _), _) \<Rightarrow> True | _ \<Rightarrow> False)"

definition round_state :: "((err \<times> 't) \<times> 'w) go \<Rightarrow> 't" where
  "round_state x = (case x of Ret ((_, t), _) \<Rightarrow> t)"

definition round_world :: "((err \<times> 't) \<times> 'w) go \<Rightarrow> 'w" where
  "round_world x = (case x of Ret (_, w) \<Rightarrow> w)"

lemma ok_round_Ret: "ok_round x \<Longrightarrow> x = Ret ((None, round_state x), round_world x)"
  by (auto simp: ok_round_def round_state_def round_world_def split: go.splits option.splits)

definition ew_start :: "(nat ss_node list, u64) metadataTracker" where "ew_start = metadata_newTracker list_ss"
definition ew_first where "ew_first = handle_result list_ss short_lib ew_engine ew_poll1 ew_start ([], [], 0)"
definition ew_second where
  "ew_second = handle_result list_ss short_lib ew_engine ew_poll2 (round_state ew_first) (round_world ew_first)"

lemma ew_rounds: "ok_round ew_first" "ok_round ew_second"
  by code_simp+

lemma ew_distinct: "distinct_hashes short_lib ew_poll1" "distinct_hashes short_lib ew_poll2" "distinct_hashes short_lib ew_poll3"
  by code_simp+

definition ew_hist :: "service_call list" where
  "ew_hist = [Handled (ew_block 100 7), Handled (ew_block 101 8), Undone (ew_block 101 8), Handled (ew_block 101 9)]"

lemma ew_run1: "engine_run list_ss list_ss_map short_lib ew_engine ew_num (round_state ew_first)
    [Handled (ew_block 100 7), Handled (ew_block 101 8)] [81]"
proof -
  have "map Undone (to_undo short_lib ew_poll1 (metadata_abs list_ss_map ew_start)) @
      map Handled (to_handle short_lib ew_poll1 (metadata_abs list_ss_map ew_start)) = [Handled (ew_block 100 7), Handled (ew_block 101 8)]"
    "clear_bound ew_engine ew_poll1 = 81"
    "list_all (\<lambda>b. Number b = ew_num (Block_String short_lib b)) (ReorgedBlocks ew_poll1 @ GoodBlocks ew_poll1)"
    by code_simp+
  then show ?thesis
    using engine_run.round [where ss_map = list_ss_map and num = ew_num, OF engine_run.start ew_distinct(1) _ ok_round_Ret [OF ew_rounds(1), unfolded ew_first_def ew_start_def]]
    by (simp add: ew_first_def ew_start_def)
qed

lemma ew_run2: "engine_run list_ss list_ss_map short_lib ew_engine ew_num (round_state ew_second) ew_hist [81, 81]"
proof -
  have "map Undone (to_undo short_lib ew_poll2 (metadata_abs list_ss_map (round_state ew_first))) @
      map Handled (to_handle short_lib ew_poll2 (metadata_abs list_ss_map (round_state ew_first))) = [Undone (ew_block 101 8), Handled (ew_block 101 9)]"
    "clear_bound ew_engine ew_poll2 = 81"
    "list_all (\<lambda>b. Number b = ew_num (Block_String short_lib b)) (ReorgedBlocks ew_poll2 @ GoodBlocks ew_poll2)"
    by code_simp+
  then show ?thesis
    using engine_run.round [OF ew_run1 ew_distinct(2) _ ok_round_Ret [OF ew_rounds(2), unfolded ew_second_def]]
    by (simp add: ew_second_def ew_hist_def)
qed

section \<open>The theorems\<close>

text \<open>
  C2. The engine's round refines its specification: for every result, service, gateway and client,
  \<open>handleResults\<close> with its shared pointers and its sorted set returns the same error, leaves the
  same world and panics in the same cases as the specification on a plain map from hashes to
  entries, and the trackers correspond again afterwards, in particular every pointer the tracker
  holds is to metadata of the block it is filed under.
\<close>

theorem handle_result_refines:
  assumes "metadata_tracker S ss_map ss_ok L" "metadata_ok ss_map ss_ok t"
  shows "rel_go (\<lambda>((er, t'), w') ((er', m'), w''). er = er' \<and> w' = w'' \<and> metadata_ok ss_map ss_ok t' \<and> metadata_abs ss_map t' = m')
    (handle_result S L e result t w) (spec_round L e result (metadata_abs ss_map t) w)"
  using metadata_tracker.handle_result_refines_aux [OF assms] .

theorem handle_result_refines_witness:
  "\<exists>t'. ew_second = Ret ((None, t'), ([100, 101, 101], [101], 101)) \<and>
     spec_round short_lib ew_engine ew_poll2 (metadata_abs list_ss_map (round_state ew_first)) (round_world ew_first) =
       Ret ((None, metadata_abs list_ss_map t'), ([100, 101, 101], [101], 101))"
proof -
  let ?t = "round_state ew_first" and ?w = "round_world ew_first"
  have ok: "metadata_ok list_ss_map list_ss_ok ?t" using engine_run_ok [OF smt.metadata_tracker_axioms ew_run1] by simp
  have w: "round_world ew_second = ([100, 101, 101], [101], 101)" by code_simp
  have r: "ew_second = Ret ((None, round_state ew_second), ([100, 101, 101], [101], 101))"
    using ok_round_Ret [OF ew_rounds(2)] unfolding w .
  from handle_result_refines [OF smt.metadata_tracker_axioms ok, of ew_engine ew_poll2 ?w]
  have "rel_go (\<lambda>((er, t'), w') ((er', m'), w''). er = er' \<and> w' = w'' \<and> metadata_ok list_ss_map list_ss_ok t' \<and> metadata_abs list_ss_map t' = m')
      ew_second (spec_round short_lib ew_engine ew_poll2 (metadata_abs list_ss_map ?t) ?w)"
    unfolding ew_second_def .
  then have "spec_round short_lib ew_engine ew_poll2 (metadata_abs list_ss_map ?t) ?w =
      Ret ((None, metadata_abs list_ss_map (round_state ew_second)), ([100, 101, 101], [101], 101))"
    by (subst (asm) r) (cases "spec_round short_lib ew_engine ew_poll2 (metadata_abs list_ss_map ?t) ?w"; auto)
  then show ?thesis using r by blast
qed

text \<open>
  C10. What a successful round does. The service is asked to undo exactly the reorged blocks whose
  state is Handled, each with the artifacts stored for it, then to handle exactly the good blocks
  whose hash is not known, with no artifacts; then the last good block is recorded and the emitter
  released, in this order and with nothing in between. A newly handled block above the clearing
  bound is stored as Handled with the artifacts the service returned for its hash.
\<close>

theorem handle_result_calls:
  assumes "metadata_tracker S ss_map ss_ok L" "metadata_ok ss_map ss_ok t" "settled (metadata_abs ss_map t)" "distinct_hashes L result"
    "handle_result S L e result t w = Ret ((None, t'), w')"
  defines "undo \<equiv> to_undo L result (metadata_abs ss_map t)" and "new \<equiv> to_handle L result (metadata_abs ss_map t)"
  shows "\<exists>arts1 w1 arts2 w2 w3.
      call_service (HandleReorgedBlocks (serviceEngine e)) undo
        (map (\<lambda>b. Bundle (arts_in (metadata_abs ss_map t) (Block_String L b))) undo) w = Ret ((arts1, None), w1) \<and>
      call_service (HandleGoodBlocks (serviceEngine e)) new [] w1 = Ret ((arts2, None), w2) \<and>
      eng_gateway e (res_LastGoodBlock result) w2 = Ret (None, w3) \<and> SyncsEmitter (eng_client e) w3 = Ret w' \<and>
      (\<forall>b\<in>set new. sint (clear_bound e result) < sint (Number b) \<longrightarrow>
         metadata_abs ss_map t' (Block_String L b) = Some (Number b, stateHandled, arts2 (Hash b)))"
proof -
  from handle_result_closed(1) [OF assms(1-5), folded undo_def new_def] obtain arts1 w1 arts2 w2 w3 where
    c: "call_service (HandleReorgedBlocks (serviceEngine e)) undo
        (map (\<lambda>b. Bundle (arts_in (metadata_abs ss_map t) (Block_String L b))) undo) w = Ret ((arts1, None), w1)"
      "call_service (HandleGoodBlocks (serviceEngine e)) new [] w1 = Ret ((arts2, None), w2)"
      "eng_gateway e (res_LastGoodBlock result) w2 = Ret (None, w3)" "SyncsEmitter (eng_client e) w3 = Ret w'"
      and m: "metadata_abs ss_map t' = spec_clear (clear_bound e result) (after_good L result arts2 (after_reorged L result arts1 (metadata_abs ss_map t)))"
    by blast
  have "metadata_abs ss_map t' (Block_String L b) = Some (Number b, stateHandled, arts2 (Hash b))"
    if b: "b \<in> set new" "sint (clear_bound e result) < sint (Number b)" for b
  proof -
    have g: "b \<in> set (GoodBlocks result)" "metadata_abs ss_map t (Block_String L b) = None" using b(1) by (simp_all add: new_def to_handle_def)
    have "find (\<lambda>c. Block_String L c = Block_String L b) (GoodBlocks result) = Some b"
      using assms(4) g(1) by (intro find_key_distinct) (simp_all add: distinct_hashes_def)
    moreover have "HexToHash L (Block_String L b) = Hash b"
      using metadata_tracker.axioms(2) [OF assms(1), THEN lib_spec.HexToHash_lower] by (simp add: Block_String_def)
    ultimately show ?thesis using g(2) b(2) by (simp add: m spec_clear_def after_good_def after_reorged_def)
  qed
  then show ?thesis using c by blast
qed

theorem handle_result_calls_witness:
  "\<exists>arts1 w1 arts2 w2.
     call_service ew_reorged [ew_block 101 8] [Bundle [Leaf 101]] ([100, 101], [], 101) = Ret ((arts1, None), w1) \<and>
     call_service ew_good [ew_block 101 9] [] w1 = Ret ((arts2, None), w2) \<and>
     metadata_abs list_ss_map (round_state ew_second) ''0x9'' = Some (101, stateHandled, arts2 9)"
proof -
  let ?t = "round_state ew_first" and ?w = "round_world ew_first"
  have ok: "metadata_ok list_ss_map list_ss_ok ?t" "settled (metadata_abs list_ss_map ?t)"
    using engine_run_ok [OF smt.metadata_tracker_axioms ew_run1] by (simp_all add: run_ok_def)
  have e: "to_undo short_lib ew_poll2 (metadata_abs list_ss_map ?t) = [ew_block 101 8]"
      "to_handle short_lib ew_poll2 (metadata_abs list_ss_map ?t) = [ew_block 101 9]"
      "arts_in (metadata_abs list_ss_map ?t) (Block_String short_lib (ew_block 101 8)) = [Leaf 101]"
      "?w = ([100, 101], [], 101)" "Block_String short_lib (ew_block 101 9) = ''0x9''"
      "sint (clear_bound ew_engine ew_poll2) < sint (Number (ew_block 101 9))"
    by code_simp+
  have svc: "HandleReorgedBlocks (serviceEngine ew_engine) = ew_reorged" "HandleGoodBlocks (serviceEngine ew_engine) = ew_good"
    by (simp_all add: ew_engine_def engine_New_def)
  have nh: "Number (ew_block 101 9) = 101" "Hash (ew_block 101 9) = 9" by (simp_all add: ew_block_def)
  from handle_result_calls [OF smt.metadata_tracker_axioms ok ew_distinct(2) ok_round_Ret [OF ew_rounds(2), unfolded ew_second_def]]
  show ?thesis unfolding e(1,2) svc ew_second_def [symmetric] using e nh by auto
qed



text \<open>
  C16. Between rounds every block the engine remembers is Handled, HandledReorg or Invalid, never
  Seen or Reorged, and its number and hash are those it is filed under.
\<close>

theorem engine_run_settled:
  assumes "metadata_tracker S ss_map ss_ok L" "engine_run S ss_map L e num t hist bounds" "metadata_abs ss_map t h = Some (n, s, a)"
  shows "s \<in> {stateHandled, stateHandledReorg, stateInvalid} \<and> n = num h \<and> metadata_ok ss_map ss_ok t"
  using engine_run_ok [OF assms(1,2)] assms(3) settledD [of "metadata_abs ss_map t" h n s a] by (auto simp: run_ok_def)

theorem engine_run_settled_witness:
  "metadata_abs list_ss_map (round_state ew_second) ''0x8'' = Some (101, stateHandledReorg, []) \<and>
   stateHandledReorg \<in> {stateHandled, stateHandledReorg, stateInvalid} \<and> ew_num ''0x8'' = 101"
proof -
  have m: "metadata_abs list_ss_map (round_state ew_second) ''0x8'' = Some (101, stateHandledReorg, [])" by code_simp
  show ?thesis using engine_run_settled [OF smt.metadata_tracker_axioms ew_run2 m] m by simp
qed



text \<open>
  C20. A reorged block whose hash the engine does not know, because it was never in a result or its
  metadata were dropped, makes the engine panic before the service is called.
\<close>

theorem handle_result_unknown_panics:
  assumes "metadata_tracker S ss_map ss_ok L" "metadata_ok ss_map ss_ok t"
    "b \<in> set (ReorgedBlocks result)" "metadata_abs ss_map t (Block_String L b) = None"
  shows "handle_result S L e result t w = Panic ''nil metadata for block %d blockHash %s''"
proof -
  have "spec_see_reorged (Block_String L) (ReorgedBlocks result) (metadata_abs ss_map t) = Panic ''nil metadata for block %d blockHash %s''"
    using assms(3,4) by (intro see_reorged_unknown bexI [of _ b])
  then have "spec_round L e result (metadata_abs ss_map t) w = Panic ''nil metadata for block %d blockHash %s''"
    by (simp add: spec_round_def spec_reorged_def)
  then show ?thesis using metadata_tracker.handle_result_refines_aux [OF assms(1,2), of e result w]
    by (cases "handle_result S L e result t w") auto
qed

theorem handle_result_unknown_panics_witness:
  "handle_result list_ss short_lib ew_engine ew_poll4 (round_state ew_first) ([100, 101], [], 101) =
     Panic ''nil metadata for block %d blockHash %s''"
proof -
  have ok: "metadata_ok list_ss_map list_ss_ok (round_state ew_first)" using engine_run_ok [OF smt.metadata_tracker_axioms ew_run1] by simp
  have "metadata_abs list_ss_map (round_state ew_first) (Block_String short_lib (ew_block 50 5)) = None" by code_simp
  then show ?thesis
    by (intro handle_result_unknown_panics [OF smt.metadata_tracker_axioms ok, of "ew_block 50 5"]) (simp_all add: ew_poll4_def ew_poll_def)
qed

end
