(* ===== verification/Emitter_Range.thy ===== *)
theory Emitter_Range
  imports Watcher_Types
begin

text \<open>
  How the emitter chooses the blocks of the next poll: the three computations of
  \<open>internal/emitter/blocknum_utils.go\<close>, the function \<open>computeFromBlockToBlock\<close> of
  \<open>loop_emit.go\<close> that selects one, and the emitter's status. All numbers are \<open>uint64\<close>, so every
  sum and difference may wrap; the theorems name the bounds under which none does. Functions that
  write through the status pointer return the status they leave.
\<close>

section \<open>The status and the errors\<close>

record emitterStatus =
  st_FromBlock :: u64
  st_ToBlock :: u64
  CurrentBlock :: u64
  LastRecordedBlock :: u64
  GoBackFirstStart :: bool
  IsReorging :: bool
  RetriesCount :: u64

definition zero_status :: emitterStatus where
  "zero_status = \<lparr>st_FromBlock = 0, st_ToBlock = 0, CurrentBlock = 0, LastRecordedBlock = 0,
     GoBackFirstStart = False, IsReorging = False, RetriesCount = 0\<rparr>"

definition ErrEmitterShutdown :: go_error where
  "ErrEmitterShutdown = ErrNew ''emitter was told to shutdown - Loop context done''"

definition ErrMaxRetriesReached :: go_error where
  "ErrMaxRetriesReached = ErrNew ''emitter has reached max goBackRetries''"

definition errNoNewBlock :: go_error where
  "errNoNewBlock = ErrNew ''no new block''"

lemmas emitter_error_defs = ErrEmitterShutdown_def ErrMaxRetriesReached_def errNoNewBlock_def

section \<open>The three computations (blocknum_utils.go)\<close>

definition fromBlockToBlockNormal :: "lib \<Rightarrow> u64 \<Rightarrow> u64 \<Rightarrow> u64 \<Rightarrow> u64 \<Rightarrow> u64 \<times> u64" where
  "fromBlockToBlockNormal L emitterStartBlock currentBlock lastRecorded filterRng =
     (let toBlk = gsl_Min L currentBlock (lastRecorded + filterRng);
          firstNewBlock = gsl_Min L currentBlock (lastRecorded + 1);
          fromBlk = (if filterRng > firstNewBlock then emitterStartBlock else firstNewBlock - filterRng)
      in (fromBlk, toBlk))"

definition fromBlockToBlockIsReorging ::
    "lib \<Rightarrow> u64 \<Rightarrow> u64 \<Rightarrow> u64 \<Rightarrow> u64 \<Rightarrow> u64 \<Rightarrow> emitterStatus \<Rightarrow> u64 \<times> u64 \<times> err" where
  "fromBlockToBlockIsReorging L emitterStartBlock currentBlock lastRecorded filterRng maxRetries prev =
     (if RetriesCount prev > maxRetries
      then (st_FromBlock prev, st_ToBlock prev, Some (ErrWrap ErrMaxRetriesReached ''%d goBackRetries''))
      else let goBack = filterRng;
               fromBlk = (if goBack > st_FromBlock prev then emitterStartBlock else st_FromBlock prev - goBack);
               toBlk = gsl_Min L (st_ToBlock prev) currentBlock
           in (fromBlk, toBlk, None))"

definition fromBlockToBlockGoBackFirstRun ::
    "u64 \<Rightarrow> u64 \<Rightarrow> u64 \<Rightarrow> u64 \<Rightarrow> u64 \<Rightarrow> emitterStatus \<Rightarrow> u64 \<times> u64 \<times> u64" where
  "fromBlockToBlockGoBackFirstRun emitterStartBlock currentBlock lastRecorded filterRng maxRetries prev =
     (let goBack = filterRng * RetriesCount prev;
          firstNewBlock = lastRecorded + 1;
          fromBlk = (if goBack > firstNewBlock then emitterStartBlock else firstNewBlock - goBack);
          toBlk = fromBlk + filterRng - 1
      in (fromBlk, toBlk, goBack))"

section \<open>Choosing among them (loop_emit.go)\<close>

definition computeFromBlockToBlock ::
    "lib \<Rightarrow> emitterStatus \<Rightarrow> u64 \<Rightarrow> u64 \<Rightarrow> u64 \<Rightarrow> u64 \<Rightarrow> u64 \<Rightarrow> bool \<Rightarrow> (u64 \<times> u64 \<times> err) \<times> emitterStatus" where
  "computeFromBlockToBlock L prev currentBlock lastRecorded filterRng maxRetries startBlock reorg =
     (let ((fromBlk, toBlk, e), prev1) =
        (if GoBackFirstStart prev then
           (let prev1 = prev\<lparr>GoBackFirstStart := False\<rparr>;
                (f, t, goBack) = fromBlockToBlockGoBackFirstRun startBlock currentBlock lastRecorded filterRng maxRetries prev1
            in ((f, t, None), prev1))
         else if IsReorging prev then
           (fromBlockToBlockIsReorging L startBlock currentBlock lastRecorded filterRng maxRetries prev, prev)
         else
           (let (f, t) = fromBlockToBlockNormal L startBlock currentBlock lastRecorded filterRng
            in ((f, t, None), prev)))
      in ((fromBlk, toBlk, e), prev1\<lparr>st_FromBlock := fromBlk, st_ToBlock := toBlk\<rparr>))"

section \<open>What the computations give\<close>

text \<open>
  No sum wraps as long as the recorded block and the filter range stay below \<open>2^64\<close> together.
\<close>

definition in_bounds :: "u64 \<Rightarrow> u64 \<Rightarrow> bool" where
  "in_bounds n r \<longleftrightarrow> unat n + unat r + 1 < 2 ^ 64"

lemma in_bounds_unat:
  assumes "in_bounds n r"
  shows "unat (n + r) = unat n + unat r" "unat (n + 1) = unat n + 1" "unat (n + 1 + r) = unat n + 1 + unat r"
proof -
  show *: "unat (n + 1) = unat n + 1" using assms by (intro unat_Suc_small) (simp add: in_bounds_def)
  show "unat (n + r) = unat n + unat r" using assms by (intro unat_add_small) (simp add: in_bounds_def)
  show "unat (n + 1 + r) = unat n + 1 + unat r"
    using assms by (subst unat_add_small) (simp_all add: * in_bounds_def)
qed

context lib_spec
begin

text \<open>
  In the normal case the poll ends after the recorded block, within the chain and the filter
  range; it starts at the start block or no later than the first block not yet recorded.
\<close>

lemma normal_range:
  assumes "fromBlockToBlockNormal L start cur lst r = (f, t)" "in_bounds lst r" "0 < r" "lst < cur"
  shows "lst < t" "t \<le> cur" "t \<le> lst + r" "f \<le> lst + 1 \<or> f = start" "f = start \<or> lst + 1 \<le> f + r"
proof -
  note b = in_bounds_unat [OF assms(2)]
  have t: "t = min cur (lst + r)" and f: "f = (if r > min cur (lst + 1) then start else min cur (lst + 1) - r)"
    using assms(1) by (simp_all add: fromBlockToBlockNormal_def Let_def Min)
  have first: "min cur (lst + 1) = lst + 1"
    using assms(4) b by (auto simp: min_def word_le_nat_alt word_less_nat_alt word_unat_eq_iff)
  have r: "0 < unat r" using assms(3) by (simp add: word_less_nat_alt)
  show "lst < t" using t assms(4) r b by (simp add: min_def word_less_nat_alt)
  show "t \<le> cur" "t \<le> lst + r" using t by simp_all
  show "f \<le> lst + 1 \<or> f = start"
    using f first b by (auto simp: word_le_nat_alt not_less unat_sub)
  show "f = start \<or> lst + 1 \<le> f + r"
    using f first by (auto simp: not_less)
qed

text \<open>
  While the chain reorganises the poll goes back by one filter range from the previous first
  block, or to the start block, and never past the previous end or the chain's head.
\<close>

lemma reorging_range:
  assumes "fromBlockToBlockIsReorging L start cur lst r mx prev = (f, t, None)"
  shows "f = start \<and> st_FromBlock prev < r \<or> f = st_FromBlock prev - r \<and> r \<le> st_FromBlock prev"
    "t = min (st_ToBlock prev) cur" "RetriesCount prev \<le> mx"
  using assms by (auto simp: fromBlockToBlockIsReorging_def Let_def Min not_less split: if_splits)

lemma reorging_max:
  "snd (snd (fromBlockToBlockIsReorging L start cur lst r mx prev)) \<noteq> None \<longleftrightarrow> mx < RetriesCount prev"
  by (simp add: fromBlockToBlockIsReorging_def Let_def)

end

text \<open>
  In the normal case the emitter leaves no gap and makes progress: the poll ends past the
  recorded block and within the chain's head and one filter range, and starts at the first
  unrecorded block less the filter range, or at the start block if that is further back than
  block 0.
\<close>

theorem fromBlockToBlockNormal_range:
  assumes "lib_spec L" "in_bounds lst r" "0 < r" "lst < cur"
  shows "lst < snd (fromBlockToBlockNormal L start cur lst r) \<and>
    snd (fromBlockToBlockNormal L start cur lst r) \<le> cur \<and>
    snd (fromBlockToBlockNormal L start cur lst r) \<le> lst + r \<and>
    fst (fromBlockToBlockNormal L start cur lst r) = (if lst + 1 < r then start else lst + 1 - r)"
proof -
  obtain f t where ft: "fromBlockToBlockNormal L start cur lst r = (f, t)" by fastforce
  have "min cur (lst + 1) = lst + 1"
    using assms(4) in_bounds_unat [OF assms(2)] by (auto simp: min_def word_le_nat_alt word_less_nat_alt word_unat_eq_iff)
  then have "f = (if lst + 1 < r then start else lst + 1 - r)"
    using ft by (simp add: fromBlockToBlockNormal_def Let_def lib_spec.Min [OF assms(1)])
  then show ?thesis using lib_spec.normal_range(1-3) [OF assms(1) ft assms(2-4)] ft by simp
qed

theorem fromBlockToBlockNormal_range_witness:
  "lib_spec std_lib \<and> fromBlockToBlockNormal std_lib 5 95 80 10 = (71, 90) \<and>
   80 < snd (fromBlockToBlockNormal std_lib 5 95 80 10)"
proof -
  have "in_bounds 80 10" by (simp add: in_bounds_def)
  then have "80 < snd (fromBlockToBlockNormal std_lib 5 95 80 10)"
    using fromBlockToBlockNormal_range [OF std.lib_spec_axioms, of 80 10 95 5] by simp
  then show ?thesis using std.lib_spec_axioms by (simp add: fromBlockToBlockNormal_def std_defs min_def)
qed



end
