(* ===== verification/Emitter.thy ===== *)
theory Emitter
  imports Emitter_Range
begin

text \<open>
  The emitter (\<open>internal/emitter/emitter.go\<close>, \<open>loop_emit.go\<close>, \<open>emit.go\<close>): one round of
  \<open>loopEmit\<close>, and \<open>Loop\<close> around it as a step function. Everything the emitter reaches through an
  interface or a channel (the node, the poller, the gateway, the consumer behind the channels)
  acts on a world \<open>'w\<close>; a send that blocks until the consumer is done is a function that may
  change the world, and a nil channel is \<open>None\<close>. Sleeping between rounds is not modelled: any
  call may find the world changed.

  \<open>loopEmit\<close> starts with the status object of \<open>Loop\<close> and, from its first finished poll on,
  points its variable to fresh ones, so both objects are part of the state.
\<close>

section \<open>State\<close>

text \<open>The interface \<open>EmitterPoller\<close>, with the methods of \<open>Controller\<close>.\<close>

record 'w emitter_poller =
  ep_Poll :: "u64 \<Rightarrow> u64 \<Rightarrow> 'w \<Rightarrow> ((poller_result option \<times> err) \<times> 'w) go"
  ep_Policy :: "'w \<Rightarrow> policy"
  ep_SetPolicy :: "policy \<Rightarrow> 'w \<Rightarrow> err \<times> 'w"
  ep_SetDoReorg :: "bool \<Rightarrow> 'w \<Rightarrow> 'w go"
  ep_DoReorg :: "'w \<Rightarrow> bool"
  ep_SetDoHeader :: "bool \<Rightarrow> 'w \<Rightarrow> 'w"
  ep_DoHeader :: "'w \<Rightarrow> bool"
  ep_Addresses :: "'w \<Rightarrow> address list option"
  ep_Topics :: "'w \<Rightarrow> hash list list option"
  ep_AddAddresses :: "address list option \<Rightarrow> 'w \<Rightarrow> 'w"
  ep_AddTopics :: "hash list list option \<Rightarrow> 'w \<Rightarrow> 'w"
  ep_SetAddresses :: "address list option \<Rightarrow> 'w \<Rightarrow> 'w"
  ep_SetTopics :: "hash list list option \<Rightarrow> 'w \<Rightarrow> 'w"

record ('a, 'w) chan =
  ch_send :: "'a \<Rightarrow> 'w \<Rightarrow> 'w go"
  ch_close :: "'w \<Rightarrow> 'w go"

record 'w emitter =
  conf :: config
  em_BlockNumber :: "'w \<Rightarrow> ((u64 \<times> err) \<times> 'w) go"
  em_stateDataGateway :: "'w \<Rightarrow> ((u64 \<times> err) \<times> 'w) go"
  em_poller :: "'w emitter_poller"
  pollResultChan :: "(poller_result, 'w) chan option"
  errChan :: "(go_error, 'w) chan option"
  syncChan :: "'w \<Rightarrow> 'w go"
  em_debug :: bool

record 'w go_context =
  ctx_Done :: "'w \<Rightarrow> bool"
  ctx_Err :: go_error

definition emitter_New ::
    "config \<Rightarrow> ('w \<Rightarrow> ((u64 \<times> err) \<times> 'w) go) \<Rightarrow> ('w \<Rightarrow> ((u64 \<times> err) \<times> 'w) go) \<Rightarrow> 'w emitter_poller \<Rightarrow>
     ('w \<Rightarrow> 'w go) \<Rightarrow> (poller_result, 'w) chan option \<Rightarrow> (go_error, 'w) chan option \<Rightarrow> 'w emitter" where
  "emitter_New cfg blockNumber gateway pol sync results errs = \<lparr>
     conf = cfg, em_BlockNumber = blockNumber, em_stateDataGateway = gateway, em_poller = pol,
     pollResultChan = results, errChan = errs, syncChan = sync, em_debug = (LogLevel cfg > 0)\<rparr>"

definition emitter_Poller :: "'w emitter \<Rightarrow> 'w emitter_poller" where
  "emitter_Poller e = em_poller e"

definition SetPoller :: "'w emitter_poller \<Rightarrow> 'w emitter \<Rightarrow> 'w emitter" where
  "SetPoller pol e = e\<lparr>em_poller := pol\<rparr>"

section \<open>Emitting (emit.go)\<close>

definition emitFilterResult :: "'w emitter \<Rightarrow> poller_result option \<Rightarrow> 'w \<Rightarrow> 'w go" where
  "emitFilterResult e result w =
     (case result of
        Some r \<Rightarrow> (case pollResultChan e of None \<Rightarrow> Ret w | Some c \<Rightarrow> ch_send c r w)
      | None \<Rightarrow> Panic ''nil PollerResult got sent to emitFilterREsult'')"

text \<open>Sending on a nil channel blocks forever.\<close>

definition emitError :: "'w emitter \<Rightarrow> err \<Rightarrow> 'w \<Rightarrow> 'w go" where
  "emitError e er w =
     (case er of
        None \<Rightarrow> Ret w
      | Some x \<Rightarrow> (case errChan e of None \<Rightarrow> Hang | Some c \<Rightarrow> ch_send c x w))"

definition close_chan :: "('a, 'w) chan option \<Rightarrow> 'w \<Rightarrow> 'w go" where
  "close_chan c w = (case c of None \<Rightarrow> Panic ''close of nil channel'' | Some ch \<Rightarrow> ch_close ch w)"

definition Shutdown :: "'w emitter \<Rightarrow> 'w \<Rightarrow> 'w go" where
  "Shutdown e w = go_bind (close_chan (pollResultChan e) w) (\<lambda>w1. close_chan (errChan e) w1)"

definition SyncsEngine :: "'w emitter \<Rightarrow> 'w \<Rightarrow> 'w go" where
  "SyncsEngine e w = syncChan e w"

section \<open>The method computeFromBlockToBlock\<close>

text \<open>
  Returns \<open>None\<close> for the pointer it was given and \<open>Some\<close> for a new status, with the error and with
  what it left in the given status.
\<close>

definition emitter_computeFromBlockToBlock ::
    "lib \<Rightarrow> 'w emitter \<Rightarrow> emitterStatus \<Rightarrow> 'w \<Rightarrow> (((emitterStatus option \<times> err) \<times> emitterStatus) \<times> 'w) go" where
  "emitter_computeFromBlockToBlock L e prev w =
     go_bind (em_stateDataGateway e w) (\<lambda>((lst0, e1), w1).
       if e1 \<noteq> None \<and> \<not> err_Is e1 ErrRecordNotFound
       then Ret (((None, errors_Wrap e1 ''failed to get last recorded block from Redis''), prev), w1)
       else
         let prev1 = (if e1 \<noteq> None then prev\<lparr>GoBackFirstStart := False\<rparr> else prev);
             lst = (if e1 \<noteq> None then StartBlock (conf e) else lst0)
         in go_bind (em_BlockNumber e w1) (\<lambda>((cur, e2), w2).
              if e2 \<noteq> None
              then Ret (((None, errors_Wrap e2 ''failed to get current block number from node''), prev1), w2)
              else if lst = cur \<and> \<not> GoBackFirstStart prev1
              then Ret (((None, Some (ErrWrap errNoNewBlock ''block %d'')), prev1), w2)
              else
                let prev2 = prev1\<lparr>CurrentBlock := cur, LastRecordedBlock := lst\<rparr>;
                    ((f, t, e3), prev3) = computeFromBlockToBlock L prev2 cur lst (FilterRange (conf e))
                      (MaxGoBackRetries (conf e)) (StartBlock (conf e)) (ep_DoReorg (em_poller e) w2)
                in if e3 \<noteq> None
                   then Ret (((None, errors_Wrap e3 ''failed to compute fromBlockToBlock''), prev3), w2)
                   else
                     let f' = (if f < StartBlock (conf e) then StartBlock (conf e) else f)
                     in Ret (((Some \<lparr>st_FromBlock = f', st_ToBlock = t, CurrentBlock = cur, LastRecordedBlock = lst,
                                      GoBackFirstStart = False, IsReorging = IsReorging prev3,
                                      RetriesCount = RetriesCount prev3\<rparr>, None), prev3), w2)))"

section \<open>One round of loopEmit\<close>

text \<open>\<open>outer\<close> is the object \<open>Loop\<close> owns; \<open>local\<close> is \<open>None\<close> while the variable points to it.\<close>

record emit_state =
  outer :: emitterStatus
  local_status :: "emitterStatus option"

definition status :: "emit_state \<Rightarrow> emitterStatus" where
  "status st = (case local_status st of None \<Rightarrow> outer st | Some s \<Rightarrow> s)"

definition write_status :: "emitterStatus \<Rightarrow> emit_state \<Rightarrow> emit_state" where
  "write_status s st =
     (case local_status st of None \<Rightarrow> st\<lparr>outer := s\<rparr> | Some _ \<Rightarrow> st\<lparr>local_status := Some s\<rparr>)"

definition reorg_status :: "bool \<Rightarrow> emitterStatus \<Rightarrow> emitterStatus" where
  "reorg_status isReorging s =
     s\<lparr>IsReorging := isReorging, RetriesCount := (if isReorging then RetriesCount s + 1 else 0)\<rparr>"

definition updateStatus :: "bool \<Rightarrow> emitterStatus option \<Rightarrow> emit_state \<Rightarrow> emit_state" where
  "updateStatus isReorging newStatus st =
     (case newStatus of
        None \<Rightarrow> write_status (reorg_status isReorging (status st)) st
      | Some s \<Rightarrow> st\<lparr>local_status := Some (reorg_status isReorging s)\<rparr>)"

text \<open>
  The round returns the error with which \<open>loopEmit\<close> returns, or \<open>None\<close> to go on.
\<close>

definition loopEmit_round ::
    "lib \<Rightarrow> 'w emitter \<Rightarrow> 'w go_context \<Rightarrow> emit_state \<Rightarrow> 'w \<Rightarrow> ((err \<times> emit_state) \<times> 'w) go" where
  "loopEmit_round L e ctx st w =
     (if ctx_Done ctx w then Ret ((Some (ErrWrap (ctx_Err ctx) ''exiting loopEmit''), st), w)
      else
        go_bind (emitter_computeFromBlockToBlock L e (status st) w) (\<lambda>(((newStatus, err0), prev), w1).
          let st1 = write_status prev st;
              err1 = (if GoBackFirstStart prev \<and> err_Is err0 errNoNewBlock then None else err0)
          in if err1 \<noteq> None then
               (if err_Is err1 errNoNewBlock then Ret ((None, st1), w1)
                else Ret ((errors_Wrap err1 ''emitter failed to compute fromBlock and toBlock'', st1), w1))
             else
               let ns = (case newStatus of None \<Rightarrow> prev | Some s \<Rightarrow> s) in
               go_bind (ep_Poll (em_poller e) (st_FromBlock ns) (st_ToBlock ns) w1) (\<lambda>((result, err2), w2).
                 case err2 of
                   Some x \<Rightarrow>
                     if errors_Is x ErrChainIsReorging then
                       let st2 = (if ep_DoReorg (em_poller e) w2 then updateStatus True newStatus st1 else st1)
                       in go_bind (emitFilterResult e result w2) (\<lambda>w3.
                          go_bind (SyncsEngine e w3) (\<lambda>w4. Ret ((None, st2), w4)))
                     else Ret ((Some (ErrWrap x ''unexpected poller error''), st1), w2)
                 | None \<Rightarrow>
                     (case result of
                        None \<Rightarrow> nil_call
                      | Some _ \<Rightarrow>
                          go_bind (emitFilterResult e result w2) (\<lambda>w3.
                          go_bind (SyncsEngine e w3) (\<lambda>w4. Ret ((None, updateStatus False newStatus st1), w4)))))))"

section \<open>Loop\<close>

text \<open>
  \<open>Loop\<close> as a machine: at the head of its own loop, inside \<open>loopEmit\<close>, or returned.
\<close>

datatype emitter_phase = AtLoop emitterStatus | InEmit emit_state | Stopped go_error

definition Loop_step ::
    "lib \<Rightarrow> 'w emitter \<Rightarrow> 'w go_context \<Rightarrow> emitter_phase \<times> 'w \<Rightarrow> (emitter_phase \<times> 'w) go" where
  "Loop_step L e ctx cfg =
     (case cfg of
        (AtLoop s, w) \<Rightarrow>
          if ctx_Done ctx w
          then go_bind (Shutdown e w) (\<lambda>w1. Ret (Stopped (ErrWrap (ctx_Err ctx) ''emitter was told to shutdown - Loop context done''), w1))
          else Ret (InEmit \<lparr>outer = s\<lparr>GoBackFirstStart := True\<rparr>, local_status = None\<rparr>, w)
      | (InEmit st, w) \<Rightarrow>
          go_bind (loopEmit_round L e ctx st w) (\<lambda>((err, st1), w1).
            case err of
              None \<Rightarrow> Ret (InEmit st1, w1)
            | Some x \<Rightarrow> go_bind (emitError e (Some (ErrWrap x ''error in loopEmit'')) w1) (\<lambda>w2. Ret (AtLoop (outer st1), w2)))
      | (Stopped x, w) \<Rightarrow> Ret (Stopped x, w))"

fun Loop :: "lib \<Rightarrow> 'w emitter \<Rightarrow> 'w go_context \<Rightarrow> nat \<Rightarrow> emitter_phase \<times> 'w \<Rightarrow> (emitter_phase \<times> 'w) go" where
  "Loop L e ctx 0 cfg = Ret cfg"
| "Loop L e ctx (Suc n) cfg = go_bind (Loop_step L e ctx cfg) (\<lambda>cfg'. Loop L e ctx n cfg')"

definition Loop_start :: emitter_phase where
  "Loop_start = AtLoop zero_status"

end
