(* ===== verification/Thin_Engine.thy ===== *)
theory Thin_Engine
  imports Emitter_Client
begin

text \<open>
  The thin engine (\<open>internal/thinengine\<close>): it hands every result to the service and releases the
  emitter, and keeps no state of its own. Its loop only ends with an error of the service; in
  particular a closed channel is handed on as a nil result.
\<close>

section \<open>The engine\<close>

record 'w thin_service =
  HandleFilterResult :: "poller_result option \<Rightarrow> 'w \<Rightarrow> (err \<times> 'w) go"
  thin_HandleEmitterError :: "go_error \<Rightarrow> 'w \<Rightarrow> (err \<times> 'w) go"

record 'w thinEngine =
  thin_client :: "'w emitterClient"
  thin_serviceEngine :: "'w thin_service"
  thin_gateway :: "u64 \<Rightarrow> 'w \<Rightarrow> (err \<times> 'w) go"
  thin_debug :: bool

definition thinengine_New ::
    "'w emitterClient \<Rightarrow> 'w thin_service \<Rightarrow> (u64 \<Rightarrow> 'w \<Rightarrow> (err \<times> 'w) go) \<Rightarrow> u8 \<Rightarrow> 'w thinEngine" where
  "thinengine_New c svc gateway debugLevel =
     \<lparr>thin_client = c, thin_serviceEngine = svc, thin_gateway = gateway, thin_debug = (debugLevel > 0)\<rparr>"

definition thin_shutdown :: "'w thinEngine \<Rightarrow> 'w \<Rightarrow> 'w go" where
  "thin_shutdown e w = client_Shutdown (thin_client e) w"

definition thin_handleEmitterError :: "'w thinEngine \<Rightarrow> 'w \<Rightarrow> (err \<times> 'w) go" where
  "thin_handleEmitterError e w = HandleEmitterError (thin_client e) (thin_HandleEmitterError (thin_serviceEngine e)) w"

text \<open>One round of \<open>handleResults\<close>: \<open>Inl\<close> the error it returns, \<open>Inr\<close> to go on.\<close>

definition thin_round :: "'w thinEngine \<Rightarrow> 'w \<Rightarrow> ((go_error \<times> 'w) + 'w) go" where
  "thin_round e w =
     go_bind (WatcherResult (thin_client e) w) (\<lambda>(result, w1).
     go_bind (HandleFilterResult (thin_serviceEngine e) result w1) (\<lambda>(er, w2).
       case er of
         Some x \<Rightarrow> Ret (Inl (ErrWrap x ''serviceEngine returned error'', w2))
       | None \<Rightarrow> go_bind (SyncsEmitter (thin_client e) w2) (\<lambda>w3. Ret (Inr w3))))"

partial_function (option) thin_loop :: "'w thinEngine \<Rightarrow> 'w \<Rightarrow> (go_error \<times> 'w) go option" where
  "thin_loop e w =
     (case thin_round e w of
        Ret (Inl r) \<Rightarrow> Some (Ret r)
      | Ret (Inr w') \<Rightarrow> thin_loop e w'
      | Panic m \<Rightarrow> Some (Panic m)
      | Hang \<Rightarrow> Some Hang)"

declare thin_loop.simps [code]

definition thin_handleResults :: "'w thinEngine \<Rightarrow> 'w \<Rightarrow> (go_error \<times> 'w) go" where
  "thin_handleResults e w = (case thin_loop e w of None \<Rightarrow> Hang | Some r \<Rightarrow> r)"

text \<open>The goroutine of \<open>Loop\<close>: the results to their end, then the deferred shutdown.\<close>

definition thin_goroutine :: "'w thinEngine \<Rightarrow> 'w \<Rightarrow> 'w go" where
  "thin_goroutine e w = go_bind (thin_handleResults e w) (\<lambda>(_, w1). thin_shutdown e w1)"

section \<open>What the loop does\<close>

text \<open>
  A world with the results still to be received, after which the channel is closed, and the number
  of times the emitter was released.
\<close>

type_synonym 'v thin_world = "poller_result list \<times> nat \<times> 'v"

definition thin_pop :: "'v thin_world \<Rightarrow> (poller_result option \<times> 'v thin_world) go" where
  "thin_pop w = (case w of ([], n, v) \<Rightarrow> Ret (None, w) | (r # rs, n, v) \<Rightarrow> Ret (Some r, (rs, n, v)))"

definition thin_sync :: "'v thin_world \<Rightarrow> 'v thin_world go" where
  "thin_sync w = (case w of (rs, n, v) \<Rightarrow> Ret (rs, n + 1, v))"

definition thin_call :: "(poller_result option \<Rightarrow> 'v \<Rightarrow> err \<times> 'v) \<Rightarrow> poller_result option \<Rightarrow> 'v thin_world \<Rightarrow> (err \<times> 'v thin_world) go" where
  "thin_call f r w = (case w of (rs, n, v) \<Rightarrow> case f r v of (e, v') \<Rightarrow> Ret (e, (rs, n, v')))"

fun thin_spec :: "(poller_result option \<Rightarrow> 'v \<Rightarrow> err \<times> 'v) \<Rightarrow> poller_result list \<Rightarrow> nat \<Rightarrow> 'v \<Rightarrow> go_error \<Rightarrow> go_error \<times> 'v thin_world" where
  "thin_spec f [] n v x = (case f None v of (_, v') \<Rightarrow> (ErrWrap x ''serviceEngine returned error'', ([], n, v')))"
| "thin_spec f (r # rs) n v x =
     (case f (Some r) v of
        (Some y, v') \<Rightarrow> (ErrWrap y ''serviceEngine returned error'', (rs, n, v'))
      | (None, v') \<Rightarrow> thin_spec f rs (n + 1) v' x)"

text \<open>
  The thin engine hands the results to the service in order and releases the emitter once after
  each one that is handled; it stops at the first error of the service, and when the channel is
  closed it calls the service with a nil result, whose error is what ends the loop.
\<close>

theorem thin_handleResults_in_order:
  assumes "ec_pollResultChan (thin_client e) = thin_pop" "emitterSyncChan (thin_client e) = Some (thin_sync, close)"
    "HandleFilterResult (thin_serviceEngine e) = thin_call f" "\<And>v. fst (f None v) = Some x"
  shows "thin_handleResults e (rs, n, v) = Ret (thin_spec f rs n v x)"
proof -
  have "thin_loop e (rs, n, v) = Some (Ret (thin_spec f rs n v x))"
  proof (induction rs arbitrary: n v)
    case Nil
    obtain v' where "f None v = (Some x, v')" using assms(4) [of v] by (cases "f None v") simp
    then have "thin_round e ([], n, v) = Ret (Inl (thin_spec f [] n v x))"
      by (simp add: thin_round_def WatcherResult_def assms thin_pop_def thin_call_def)
    then show ?case by (simp add: thin_loop.simps [of e "([], n, v)"])
  next
    case (Cons r rs)
    obtain er v' where f: "f (Some r) v = (er, v')" by fastforce
    show ?case
    proof (cases er)
      case None
      then have "thin_round e (r # rs, n, v) = Ret (Inr (rs, n + 1, v'))"
        by (simp add: thin_round_def WatcherResult_def SyncsEmitter_def assms thin_pop_def thin_call_def thin_sync_def f)
      then show ?thesis using Cons.IH None f by (simp add: thin_loop.simps [of e "(r # rs, n, v)"])
    next
      case (Some y)
      then have "thin_round e (r # rs, n, v) = Ret (Inl (thin_spec f (r # rs) n v x))"
        by (simp add: thin_round_def WatcherResult_def assms thin_pop_def thin_call_def f)
      then show ?thesis by (simp add: thin_loop.simps [of e "(r # rs, n, v)"])
    qed
  qed
  then show ?thesis by (simp add: thin_handleResults_def)
qed

definition thin_count :: "poller_result option \<Rightarrow> nat \<Rightarrow> err \<times> nat" where
  "thin_count r n = (case r of None \<Rightarrow> (Some ErrUserError, n) | Some _ \<Rightarrow> (None, n + 1))"

definition thin_no_errors :: "nat thin_world \<Rightarrow> (go_error option \<times> nat thin_world) go" where
  "thin_no_errors w = Ret (None, w)"

definition thin_ignore :: "go_error \<Rightarrow> nat thin_world \<Rightarrow> (err \<times> nat thin_world) go" where
  "thin_ignore x w = Ret (None, w)"

definition thin_record :: "u64 \<Rightarrow> nat thin_world \<Rightarrow> (err \<times> nat thin_world) go" where
  "thin_record n w = Ret (None, w)"

definition thin_sample :: "nat thin_world thinEngine" where
  "thin_sample = thinengine_New
     \<lparr>emitterConfig = some_config, emitterSyncChan = Some (thin_sync, thin_sync), ec_pollResultChan = thin_pop, ec_errChan = thin_no_errors\<rparr>
     \<lparr>HandleFilterResult = thin_call thin_count, thin_HandleEmitterError = thin_ignore\<rparr> thin_record 0"

theorem thin_handleResults_in_order_witness:
  "thin_handleResults thin_sample ([new_PollerResult, new_PollerResult], 0, 0) =
     Ret (ErrWrap ErrUserError ''serviceEngine returned error'', ([], 2, 2))"
proof -
  have "ec_pollResultChan (thin_client thin_sample) = thin_pop" "emitterSyncChan (thin_client thin_sample) = Some (thin_sync, thin_sync)"
    "HandleFilterResult (thin_serviceEngine thin_sample) = thin_call thin_count" "fst (thin_count None v) = Some ErrUserError" for v
    by (simp_all add: thin_sample_def thinengine_New_def thin_count_def)
  from thin_handleResults_in_order [OF this, of "[new_PollerResult, new_PollerResult]" 0 0] show ?thesis
    by (simp add: thin_count_def)
qed

end
