(* ===== verification/Components.thy ===== *)
theory Components
  imports Poller Emitter Engine Thin_Engine
begin

text \<open>
  How the parts are put together (\<open>pkg/components\<close>): the constructors, the options, and the
  \<open>superWatcher\<close> that wraps an emitter and an engine. Objects shared through pointers live in the
  world: a poller in a cell of it, a channel as three operations on it. A nil channel blocks whoever
  uses it, and calling a method of a nil interface panics.
\<close>

section \<open>The poller behind its interface\<close>

record ('w, 'p) cell =
  cell_get :: "'w \<Rightarrow> 'p"
  cell_put :: "'p \<Rightarrow> 'w \<Rightarrow> 'w"

text \<open>The client's state is the world.\<close>

definition poller_interface ::
    "bool \<Rightarrow> ('s, block) sortedset \<Rightarrow> lib \<Rightarrow> ('w, ('s, 'w) poller) cell \<Rightarrow> 'w emitter_poller" where
  "poller_interface logs_first S L c = (let upd = (\<lambda>f w. cell_put c (f (cell_get c w)) w) in \<lparr>
     ep_Poll = (\<lambda>a b w. go_bind (Poll logs_first S L a b (cell_get c w) w) (\<lambda>((res, p'), w'). Ret (res, cell_put c p' w'))),
     ep_Policy = (\<lambda>w. poller_Policy (cell_get c w)),
     ep_SetPolicy = (\<lambda>l w. case SetPolicy l (cell_get c w) of (e, p) \<Rightarrow> (e, cell_put c p w)),
     ep_SetDoReorg = (\<lambda>b w. go_bind (SetDoReorg S b (cell_get c w)) (\<lambda>p. Ret (cell_put c p w))),
     ep_DoReorg = (\<lambda>w. DoReorg (cell_get c w)),
     ep_SetDoHeader = (\<lambda>b. upd (SetDoHeader b)),
     ep_DoHeader = (\<lambda>w. DoHeader (cell_get c w)),
     ep_Addresses = (\<lambda>w. Addresses (cell_get c w)),
     ep_Topics = (\<lambda>w. Topics (cell_get c w)),
     ep_AddAddresses = (\<lambda>as. upd (AddAddresses as)),
     ep_AddTopics = (\<lambda>ts. upd (AddTopics ts)),
     ep_SetAddresses = (\<lambda>as. upd (SetAddresses as)),
     ep_SetTopics = (\<lambda>ts. upd (SetTopics ts))\<rparr>)"

section \<open>Channels\<close>

record ('a, 'w) gochan =
  gc_send :: "'a \<Rightarrow> 'w \<Rightarrow> 'w go"
  gc_recv :: "'w \<Rightarrow> ('a option \<times> 'w) go"
  gc_close :: "'w \<Rightarrow> 'w go"

definition send_end :: "('a, 'w) gochan option \<Rightarrow> ('a, 'w) chan option" where
  "send_end ch = map_option (\<lambda>c. \<lparr>ch_send = gc_send c, ch_close = gc_close c\<rparr>) ch"

definition recv_end :: "('a, 'w) gochan option \<Rightarrow> 'w \<Rightarrow> ('a option \<times> 'w) go" where
  "recv_end ch w = (case ch of None \<Rightarrow> Hang | Some c \<Rightarrow> gc_recv c w)"

definition sync_recv :: "(unit, 'w) gochan option \<Rightarrow> 'w \<Rightarrow> 'w go" where
  "sync_recv ch w = go_bind (recv_end ch w) (\<lambda>(_, w'). Ret w')"

definition sync_send :: "(unit, 'w) gochan option \<Rightarrow> (('w \<Rightarrow> 'w go) \<times> ('w \<Rightarrow> 'w go)) option" where
  "sync_send ch = map_option (\<lambda>c. (gc_send c (), gc_close c)) ch"

section \<open>Constructors (poller.go, emitter.go, emitterclient.go, engine.go)\<close>

definition NewPoller ::
    "('s, block) sortedset \<Rightarrow> address list option \<Rightarrow> hash list list option \<Rightarrow> bool \<Rightarrow> bool \<Rightarrow> u64 \<Rightarrow>
     'c eth_client \<Rightarrow> policy \<Rightarrow> ('s, 'c) poller" where
  "NewPoller S as ts reorg hdr rng cl pol = poller_New S as ts reorg hdr rng cl pol"

definition NewEmitter ::
    "config \<Rightarrow> 'w eth_client \<Rightarrow> ('w \<Rightarrow> ((u64 \<times> err) \<times> 'w) go) \<Rightarrow> 'w emitter_poller \<Rightarrow> (unit, 'w) gochan option \<Rightarrow>
     (poller_result, 'w) gochan option \<Rightarrow> (go_error, 'w) gochan option \<Rightarrow> 'w emitter" where
  "NewEmitter cfg cl gateway pol sync results errs =
     emitter_New cfg (ec_BlockNumber cl) gateway pol (sync_recv sync) (send_end results) (send_end errs)"

text \<open>A constructor that makes a poller also returns it, to be stored in the cell its interface reads.\<close>

definition NewEmitterWithPoller ::
    "bool \<Rightarrow> ('s, block) sortedset \<Rightarrow> lib \<Rightarrow> ('w, ('s, 'w) poller) cell \<Rightarrow> config \<Rightarrow> 'w eth_client \<Rightarrow>
     ('w \<Rightarrow> ((u64 \<times> err) \<times> 'w) go) \<Rightarrow> address list option \<Rightarrow> hash list list option \<Rightarrow> (unit, 'w) gochan option \<Rightarrow>
     (poller_result, 'w) gochan option \<Rightarrow> (go_error, 'w) gochan option \<Rightarrow> ('s, 'w) poller \<times> 'w emitter" where
  "NewEmitterWithPoller lf S L c cfg cl gateway as ts sync results errs =
     (NewPoller S as ts (cfg_DoReorg cfg) (cfg_DoHeader cfg) (FilterRange cfg) cl (cfg_Policy cfg),
      NewEmitter cfg cl gateway (poller_interface lf S L c) sync results errs)"

definition NewEmitterClient ::
    "config \<Rightarrow> (unit, 'w) gochan option \<Rightarrow> (poller_result, 'w) gochan option \<Rightarrow> (go_error, 'w) gochan option \<Rightarrow> 'w emitterClient" where
  "NewEmitterClient cfg sync results errs = emitterclient_New cfg (sync_send sync) (recv_end results) (recv_end errs)"

definition NewEngine ::
    "('s, nat) sortedset \<Rightarrow> 'w emitterClient \<Rightarrow> ('a, 'w) service_engine \<Rightarrow> (u64 \<Rightarrow> 'w \<Rightarrow> (err \<times> 'w) go) \<Rightarrow> u8 \<Rightarrow> ('s, 'a, 'w) engine" where
  "NewEngine S cl svc gateway logLevel = engine_New S cl svc gateway logLevel"

definition NewEngineWithEmitterClient ::
    "('s, nat) sortedset \<Rightarrow> config \<Rightarrow> ('a, 'w) service_engine \<Rightarrow> (u64 \<Rightarrow> 'w \<Rightarrow> (err \<times> 'w) go) \<Rightarrow> (unit, 'w) gochan option \<Rightarrow>
     (poller_result, 'w) gochan option \<Rightarrow> (go_error, 'w) gochan option \<Rightarrow> ('s, 'a, 'w) engine" where
  "NewEngineWithEmitterClient S cfg svc gateway sync results errs =
     NewEngine S (NewEmitterClient cfg sync results errs) svc gateway (LogLevel cfg)"

text \<open>The channels \<open>NewDefault\<close> makes are arguments of the model.\<close>

definition NewDefault ::
    "bool \<Rightarrow> ('s, block) sortedset \<Rightarrow> ('t, nat) sortedset \<Rightarrow> lib \<Rightarrow> ('w, ('s, 'w) poller) cell \<Rightarrow> (unit, 'w) gochan \<Rightarrow>
     (poller_result, 'w) gochan \<Rightarrow> (go_error, 'w) gochan \<Rightarrow> config \<Rightarrow> 'w eth_client \<Rightarrow> ('w \<Rightarrow> ((u64 \<times> err) \<times> 'w) go) \<Rightarrow>
     (u64 \<Rightarrow> 'w \<Rightarrow> (err \<times> 'w) go) \<Rightarrow> ('a, 'w) service_engine \<Rightarrow> address list option \<Rightarrow> hash list list option \<Rightarrow>
     (('s, 'w) poller \<times> 'w emitter) \<times> ('t, 'a, 'w) engine" where
  "NewDefault lf S T L c sch rch ech cfg cl getGateway setGateway svc as ts =
     (NewEmitterWithPoller lf S L c cfg cl getGateway as ts (Some sch) (Some rch) (Some ech),
      NewEngineWithEmitterClient T cfg svc setGateway (Some sch) (Some rch) (Some ech))"

definition NewThinEngine ::
    "'w emitterClient \<Rightarrow> 'w thin_service \<Rightarrow> (u64 \<Rightarrow> 'w \<Rightarrow> (err \<times> 'w) go) \<Rightarrow> u8 \<Rightarrow> 'w thinEngine" where
  "NewThinEngine cl svc gateway logLevel = thinengine_New cl svc gateway logLevel"

definition NewThinEngineWithEmitter ::
    "bool \<Rightarrow> ('s, block) sortedset \<Rightarrow> lib \<Rightarrow> ('w, ('s, 'w) poller) cell \<Rightarrow> (unit, 'w) gochan \<Rightarrow>
     (poller_result, 'w) gochan \<Rightarrow> (go_error, 'w) gochan \<Rightarrow> config \<Rightarrow> ('w \<Rightarrow> ((u64 \<times> err) \<times> 'w) go) \<Rightarrow>
     (u64 \<Rightarrow> 'w \<Rightarrow> (err \<times> 'w) go) \<Rightarrow> address list option \<Rightarrow> hash list list option \<Rightarrow> 'w eth_client \<Rightarrow> policy \<Rightarrow> 'w thin_service \<Rightarrow>
     (('s, 'w) poller \<times> 'w emitter) \<times> 'w thinEngine" where
  "NewThinEngineWithEmitter lf S L c sch rch ech cfg getGateway setGateway as ts cl pol svc =
     (let pollr = NewPoller S as ts (cfg_DoReorg cfg) (cfg_DoHeader cfg) (FilterRange cfg) cl pol;
          em = NewEmitter cfg cl getGateway (poller_interface lf S L c) (Some sch) (Some rch) (Some ech);
          ec = NewEmitterClient cfg (Some sch) (Some rch) (Some ech)
      in ((pollr, em), NewThinEngine ec svc setGateway (LogLevel cfg)))"

section \<open>Options (option.go)\<close>

record ('a, 'w) componentConfig =
  cc_config :: "config option"
  cc_serviceEngine :: "('a, 'w) service_engine"
  cc_ethClient :: "'w eth_client"
  cc_addresses :: "address list option"
  cc_topics :: "hash list list option"
  cc_doReorg :: bool
  cc_doHeader :: bool
  cc_filterRange :: u64
  cc_policy :: policy
  cc_logLevel :: u8
  cc_syncChan :: "(unit, 'w) gochan option"
  cc_pollResultChan :: "(poller_result, 'w) gochan option"
  cc_errChan :: "(go_error, 'w) gochan option"
  cc_getStateDataGateway :: "'w \<Rightarrow> ((u64 \<times> err) \<times> 'w) go"
  cc_setStateDataGateway :: "u64 \<Rightarrow> 'w \<Rightarrow> (err \<times> 'w) go"

type_synonym ('a, 'w) option_fun = "('a, 'w) componentConfig \<Rightarrow> ('a, 'w) componentConfig"

definition nil_eth_client :: "'w eth_client" where
  "nil_eth_client = \<lparr>ec_TypeName = ''<nil>'', ec_BlockNumber = (\<lambda>_. nil_call), ec_FilterLogs = (\<lambda>_ _. nil_call),
     ec_HeaderByNumber = (\<lambda>_ _. nil_call), ec_BatchCallContext = (\<lambda>_ _. nil_call)\<rparr>"

definition zero_componentConfig :: "('a, 'w) componentConfig" where
  "zero_componentConfig = \<lparr>cc_config = None,
     cc_serviceEngine = \<lparr>HandleGoodBlocks = (\<lambda>_ _ _. nil_call), HandleReorgedBlocks = (\<lambda>_ _ _. nil_call), svc_HandleEmitterError = (\<lambda>_ _. nil_call)\<rparr>,
     cc_ethClient = nil_eth_client,
     cc_addresses = None, cc_topics = None, cc_doReorg = False, cc_doHeader = False, cc_filterRange = 0,
     cc_policy = 0, cc_logLevel = 0, cc_syncChan = None, cc_pollResultChan = None, cc_errChan = None,
     cc_getStateDataGateway = (\<lambda>_. nil_call), cc_setStateDataGateway = (\<lambda>_ _. nil_call)\<rparr>"

definition WithConfig :: "config \<Rightarrow> ('a, 'w) option_fun" where "WithConfig cfg c = c\<lparr>cc_config := Some cfg\<rparr>"
definition WithEthClient :: "'w eth_client \<Rightarrow> ('a, 'w) option_fun" where "WithEthClient cl c = c\<lparr>cc_ethClient := cl\<rparr>"
definition WithSyncChan :: "(unit, 'w) gochan option \<Rightarrow> ('a, 'w) option_fun" where "WithSyncChan ch c = c\<lparr>cc_syncChan := ch\<rparr>"
definition WithFilterResultChan :: "(poller_result, 'w) gochan option \<Rightarrow> ('a, 'w) option_fun" where
  "WithFilterResultChan ch c = c\<lparr>cc_pollResultChan := ch\<rparr>"
definition WithErrChan :: "(go_error, 'w) gochan option \<Rightarrow> ('a, 'w) option_fun" where "WithErrChan ch c = c\<lparr>cc_errChan := ch\<rparr>"
definition WithServiceEngine :: "('a, 'w) service_engine \<Rightarrow> ('a, 'w) option_fun" where
  "WithServiceEngine svc c = c\<lparr>cc_serviceEngine := svc\<rparr>"
definition WithGetStateDataGateway :: "('w \<Rightarrow> ((u64 \<times> err) \<times> 'w) go) \<Rightarrow> ('a, 'w) option_fun" where
  "WithGetStateDataGateway g c = c\<lparr>cc_getStateDataGateway := g\<rparr>"
definition WithSetStateDataGateway :: "(u64 \<Rightarrow> 'w \<Rightarrow> (err \<times> 'w) go) \<Rightarrow> ('a, 'w) option_fun" where
  "WithSetStateDataGateway g c = c\<lparr>cc_setStateDataGateway := g\<rparr>"
definition WithLogLevel :: "u8 \<Rightarrow> ('a, 'w) option_fun" where "WithLogLevel l c = c\<lparr>cc_logLevel := l\<rparr>"
definition WithFilterRange :: "u64 \<Rightarrow> ('a, 'w) option_fun" where "WithFilterRange r c = c\<lparr>cc_filterRange := r\<rparr>"
definition WithAddresses :: "address list option \<Rightarrow> ('a, 'w) option_fun" where "WithAddresses as c = c\<lparr>cc_addresses := as\<rparr>"
definition WithTopics :: "hash list list option \<Rightarrow> ('a, 'w) option_fun" where "WithTopics ts c = c\<lparr>cc_topics := ts\<rparr>"
definition WithDoReorg :: "bool \<Rightarrow> ('a, 'w) option_fun" where "WithDoReorg b c = c\<lparr>cc_doReorg := b\<rparr>"
definition WithDoHeader :: "bool \<Rightarrow> ('a, 'w) option_fun" where "WithDoHeader b c = c\<lparr>cc_doHeader := b\<rparr>"
definition WithPolicy :: "policy \<Rightarrow> ('a, 'w) option_fun" where "WithPolicy l c = c\<lparr>cc_policy := l\<rparr>"

definition apply_options :: "('a, 'w) option_fun list \<Rightarrow> ('a, 'w) componentConfig" where
  "apply_options options = fold (\<lambda>opt c. opt c) options zero_componentConfig"

definition deref_config :: "('a, 'w) componentConfig \<Rightarrow> config go" where
  "deref_config c = (case cc_config c of None \<Rightarrow> nil_call | Some cfg \<Rightarrow> Ret cfg)"

definition NewPollerOptions :: "('s, block) sortedset \<Rightarrow> lib \<Rightarrow> ('a, 'w) option_fun list \<Rightarrow> ('s, 'w) poller go" where
  "NewPollerOptions S L options =
     (let c = apply_options options in
      go_bind (deref_config c) (\<lambda>cfg.
        Ret (poller_New S (cc_addresses c) (cc_topics c) (cc_doReorg c) (cc_doHeader c) (cc_filterRange c) (cc_ethClient c)
               (gsl_Max L (cc_policy c) (cfg_Policy cfg)))))"

definition NewEmitterOptions ::
    "bool \<Rightarrow> ('s, block) sortedset \<Rightarrow> lib \<Rightarrow> ('w, ('s, 'w) poller) cell \<Rightarrow> ('a, 'w) option_fun list \<Rightarrow> (('s, 'w) poller \<times> 'w emitter) go" where
  "NewEmitterOptions lf S L cl options =
     (let c = apply_options options in
      go_bind (deref_config c) (\<lambda>cfg.
        Ret (NewPoller S (cc_addresses c) (cc_topics c) (cc_doReorg c) (cc_doHeader c) (cc_filterRange c) (cc_ethClient c) (cc_policy c),
             NewEmitter cfg (cc_ethClient c) (cc_getStateDataGateway c) (poller_interface lf S L cl)
               (cc_syncChan c) (cc_pollResultChan c) (cc_errChan c))))"

definition NewEmitterClientOptions :: "('a, 'w) option_fun list \<Rightarrow> 'w emitterClient go" where
  "NewEmitterClientOptions options =
     (let c = apply_options options in
      go_bind (deref_config c) (\<lambda>cfg. Ret (NewEmitterClient cfg (cc_syncChan c) (cc_pollResultChan c) (cc_errChan c))))"

definition NewEngineOptions :: "('s, nat) sortedset \<Rightarrow> lib \<Rightarrow> ('a, 'w) option_fun list \<Rightarrow> ('s, 'a, 'w) engine go" where
  "NewEngineOptions S L options =
     (let c = apply_options options in
      go_bind (deref_config c) (\<lambda>cfg.
        Ret (engine_New S (NewEmitterClient cfg (cc_syncChan c) (cc_pollResultChan c) (cc_errChan c))
               (cc_serviceEngine c) (cc_setStateDataGateway c) (gsl_Max L (cc_logLevel c) (LogLevel cfg)))))"

section \<open>The superWatcher (superwatcher.go, superwatcher_impl.go)\<close>

record ('s, 'a, 'w) superWatcher =
  spw_emitter :: "'w emitter"
  spw_engine :: "('s, 'a, 'w) engine"

definition NewSuperWatcher :: "'w emitter \<Rightarrow> ('s, 'a, 'w) engine \<Rightarrow> ('s, 'a, 'w) superWatcher" where
  "NewSuperWatcher em en = \<lparr>spw_emitter = em, spw_engine = en\<rparr>"

definition NewSuperWatcherOptions ::
    "bool \<Rightarrow> ('s, block) sortedset \<Rightarrow> ('t, nat) sortedset \<Rightarrow> lib \<Rightarrow> ('w, ('s, 'w) poller) cell \<Rightarrow> ('a, 'w) option_fun list \<Rightarrow>
     (('s, 'w) poller \<times> ('t, 'a, 'w) superWatcher) go" where
  "NewSuperWatcherOptions lf S T L cl options =
     (let c = apply_options options in
      go_bind (deref_config c) (\<lambda>cfg.
        let logLevel = gsl_Max L (cc_logLevel c) (LogLevel cfg);
            pollr = NewPoller S (cc_addresses c) (cc_topics c) (cfg_DoReorg cfg \<or> cc_doReorg c) (cfg_DoHeader cfg \<or> cc_doHeader c)
                      (cc_filterRange c) (cc_ethClient c) (gsl_Max L (cc_policy c) (cfg_Policy cfg));
            em = NewEmitter cfg (cc_ethClient c) (cc_getStateDataGateway c) (poller_interface lf S L cl)
                   (cc_syncChan c) (cc_pollResultChan c) (cc_errChan c);
            ec = NewEmitterClient cfg (cc_syncChan c) (cc_pollResultChan c) (cc_errChan c);
            en = NewEngine T ec (cc_serviceEngine c) (cc_setStateDataGateway c) logLevel
        in Ret (pollr, NewSuperWatcher em en)))"

definition NewSuperWatcherDefault ::
    "bool \<Rightarrow> ('s, block) sortedset \<Rightarrow> ('t, nat) sortedset \<Rightarrow> lib \<Rightarrow> ('w, ('s, 'w) poller) cell \<Rightarrow> (unit, 'w) gochan \<Rightarrow>
     (poller_result, 'w) gochan \<Rightarrow> (go_error, 'w) gochan \<Rightarrow> config \<Rightarrow> 'w eth_client \<Rightarrow> ('w \<Rightarrow> ((u64 \<times> err) \<times> 'w) go) \<Rightarrow>
     (u64 \<Rightarrow> 'w \<Rightarrow> (err \<times> 'w) go) \<Rightarrow> ('a, 'w) service_engine \<Rightarrow> address list option \<Rightarrow> hash list list option \<Rightarrow>
     ('s, 'w) poller \<times> ('t, 'a, 'w) superWatcher" where
  "NewSuperWatcherDefault lf S T L cl sch rch ech cfg ethClient getGateway setGateway svc as ts =
     (case NewDefault lf S T L cl sch rch ech cfg ethClient getGateway setGateway svc as ts of
        ((pollr, em), en) \<Rightarrow> (pollr, NewSuperWatcher em en))"

definition spw_Emitter :: "('s, 'a, 'w) superWatcher \<Rightarrow> 'w emitter" where "spw_Emitter spw = spw_emitter spw"
definition spw_Engine :: "('s, 'a, 'w) superWatcher \<Rightarrow> ('s, 'a, 'w) engine" where "spw_Engine spw = spw_engine spw"
definition spw_Shutdown :: "('s, 'a, 'w) superWatcher \<Rightarrow> 'w \<Rightarrow> 'w go" where "spw_Shutdown spw w = Shutdown (spw_emitter spw) w"

definition spw_SetDoReorg :: "('s, 'a, 'w) superWatcher \<Rightarrow> bool \<Rightarrow> 'w \<Rightarrow> 'w go" where
  "spw_SetDoReorg spw b w = ep_SetDoReorg (emitter_Poller (spw_emitter spw)) b w"
definition spw_DoReorg :: "('s, 'a, 'w) superWatcher \<Rightarrow> 'w \<Rightarrow> bool" where
  "spw_DoReorg spw w = ep_DoReorg (emitter_Poller (spw_emitter spw)) w"
definition spw_SetDoHeader :: "('s, 'a, 'w) superWatcher \<Rightarrow> bool \<Rightarrow> 'w \<Rightarrow> 'w" where
  "spw_SetDoHeader spw b w = ep_SetDoHeader (emitter_Poller (spw_emitter spw)) b w"
definition spw_DoHeader :: "('s, 'a, 'w) superWatcher \<Rightarrow> 'w \<Rightarrow> bool" where
  "spw_DoHeader spw w = ep_DoHeader (emitter_Poller (spw_emitter spw)) w"
definition spw_Addresses :: "('s, 'a, 'w) superWatcher \<Rightarrow> 'w \<Rightarrow> address list option" where
  "spw_Addresses spw w = ep_Addresses (emitter_Poller (spw_emitter spw)) w"
definition spw_Topics :: "('s, 'a, 'w) superWatcher \<Rightarrow> 'w \<Rightarrow> hash list list option" where
  "spw_Topics spw w = ep_Topics (emitter_Poller (spw_emitter spw)) w"
definition spw_AddAddresses :: "('s, 'a, 'w) superWatcher \<Rightarrow> address list option \<Rightarrow> 'w \<Rightarrow> 'w" where
  "spw_AddAddresses spw as w = ep_AddAddresses (emitter_Poller (spw_emitter spw)) as w"
definition spw_AddTopics :: "('s, 'a, 'w) superWatcher \<Rightarrow> hash list list option \<Rightarrow> 'w \<Rightarrow> 'w" where
  "spw_AddTopics spw ts w = ep_AddTopics (emitter_Poller (spw_emitter spw)) ts w"
definition spw_SetAddresses :: "('s, 'a, 'w) superWatcher \<Rightarrow> address list option \<Rightarrow> 'w \<Rightarrow> 'w" where
  "spw_SetAddresses spw as w = ep_SetAddresses (emitter_Poller (spw_emitter spw)) as w"
definition spw_SetTopics :: "('s, 'a, 'w) superWatcher \<Rightarrow> hash list list option \<Rightarrow> 'w \<Rightarrow> 'w" where
  "spw_SetTopics spw ts w = ep_SetTopics (emitter_Poller (spw_emitter spw)) ts w"

text \<open>
  \<open>Run\<close> starts the emitter's loop in a goroutine, which cancels the context when it fails, and
  returns what the engine's loop returns: the two parts, each on the world it finds.
\<close>

definition Run_emitter ::
    "lib \<Rightarrow> 'w go_context \<Rightarrow> ('w \<Rightarrow> 'w) \<Rightarrow> ('s, 'a, 'w) superWatcher \<Rightarrow> nat \<Rightarrow> 'w \<Rightarrow> (emitter_phase \<times> 'w) go" where
  "Run_emitter L ctx cancel spw n w =
     go_bind (Loop L (spw_emitter spw) ctx n (Loop_start, w)) (\<lambda>(ph, w1).
       case ph of Stopped _ \<Rightarrow> Ret (ph, cancel w1) | _ \<Rightarrow> Ret (ph, w1))"

definition Run :: "('s, 'a, 'w) superWatcher \<Rightarrow> 'w \<Rightarrow> (err \<times> 'w) go" where
  "Run spw w =
     go_bind (engine_handleEmitterError (spw_engine spw) w) (\<lambda>(e, w1). Ret (errors_Wrap e ''engine.Loop exited'', w1))"

end
