(* ===== verification/Components_Theorems.thy ===== *)
theory Components_Theorems
  imports Components Poller_Behaviour
begin

text \<open>
  What the constructors of \<open>pkg/components\<close> build: the wiring of the default watcher, the controls
  of a running watcher, and the filter range a watcher built from options polls with.
\<close>

lemma SetDoReorg_keeps:
  assumes "SetDoReorg S b p = Ret q"
  shows "client q = client p" "doReorg q = b" "doHeader q = doHeader p" "addresses q = addresses p" "topics q = topics p"
    "filterRange q = filterRange p" "lastRecordedBlock q = lastRecordedBlock p"
  using assms
  by (auto simp: SetDoReorg_def go_bind_Ret_iff tracker_clearUntil_def nil_call_def split: if_splits option.splits)

section \<open>The cell that holds the poller\<close>

text \<open>
  The world holds every field of the poller but its client, which no operation changes; the laws
  below are those of such a cell.
\<close>

locale poller_cell =
  fixes c :: "('w, ('s, 'w) poller) cell" and cl :: "'w eth_client"
  assumes get_client: "client (cell_get c w) = cl"
    and get_put: "client p = cl \<Longrightarrow> cell_get c (cell_put c p w) = p"
begin

lemma set_client [simp]:
  "client (SetDoHeader b p) = client p" "client (SetAddresses as p) = client p" "client (SetTopics ts p) = client p"
  "client (AddAddresses as p) = client p" "client (AddTopics ts p) = client p"
  by (simp_all add: SetDoHeader_def SetAddresses_def SetTopics_def AddAddresses_def AddTopics_def)

lemma get_upd:
  "client (f (cell_get c w)) = client (cell_get c w) \<Longrightarrow> cell_get c (cell_put c (f (cell_get c w)) w) = f (cell_get c w)"
  by (simp add: get_client get_put)

lemma interface_controls:
  fixes w :: 'w and lf S L
  defines "I \<equiv> poller_interface lf S L c"
  shows "cell_get c (ep_SetAddresses I as w) = SetAddresses as (cell_get c w)"
    "cell_get c (ep_AddAddresses I as w) = AddAddresses as (cell_get c w)"
    "cell_get c (ep_SetTopics I ts w) = SetTopics ts (cell_get c w)"
    "cell_get c (ep_AddTopics I ts w) = AddTopics ts (cell_get c w)"
    "cell_get c (ep_SetDoHeader I b w) = SetDoHeader b (cell_get c w)"
    "ep_SetDoReorg I b w = Ret w' \<Longrightarrow> SetDoReorg S b (cell_get c w) = Ret (cell_get c w')"
  using SetDoReorg_keeps(1) [of S b "cell_get c w"]
  by (auto simp: I_def poller_interface_def Let_def get_upd go_bind_Ret_iff get_client get_put)

end

text \<open>The cell of a world whose first part is the poller without its client.\<close>

definition with_client :: "'d eth_client \<Rightarrow> ('s, 'c) poller \<Rightarrow> ('s, 'd) poller" where
  "with_client cl p = \<lparr>addresses = addresses p, topics = topics p, lastRecordedBlock = lastRecordedBlock p,
     filterRange = filterRange p, client = cl, doReorg = doReorg p, doHeader = doHeader p, p_policy = p_policy p,
     tracker = tracker p\<rparr>"

definition pair_cell ::
    "(('s, unit) poller \<times> 'v) eth_client \<Rightarrow> (('s, unit) poller \<times> 'v, ('s, ('s, unit) poller \<times> 'v) poller) cell" where
  "pair_cell cl = \<lparr>cell_get = (\<lambda>w. with_client cl (fst w)), cell_put = (\<lambda>p w. (with_client nil_eth_client p, snd w))\<rparr>"

interpretation pc: poller_cell "pair_cell cl" cl
  by unfold_locales (simp_all add: pair_cell_def with_client_def)

section \<open>Controlling a watcher\<close>

text \<open>
  The controls of a watcher act on the poller its emitter polls with: what is set is what is read
  back, adding appends, switching reorg detection is seen, and no control changes what another one
  set.
\<close>

theorem superWatcher_controls:
  assumes "poller_cell c cl" "em_poller (spw_Emitter spw) = poller_interface lf S L c"
  shows "spw_Addresses spw (spw_SetAddresses spw as w) = as \<and> spw_Topics spw (spw_SetAddresses spw as w) = spw_Topics spw w \<and>
    spw_Topics spw (spw_SetTopics spw ts w) = ts \<and> spw_Addresses spw (spw_SetTopics spw ts w) = spw_Addresses spw w \<and>
    slice (spw_Addresses spw (spw_AddAddresses spw as w)) = slice (spw_Addresses spw w) @ slice as \<and>
    slice (spw_Topics spw (spw_AddTopics spw ts w)) = slice (spw_Topics spw w) @ slice ts \<and>
    spw_DoHeader spw (spw_SetDoHeader spw b w) = b \<and> spw_DoReorg spw (spw_SetDoHeader spw b w) = spw_DoReorg spw w \<and>
    (spw_SetDoReorg spw b w = Ret w' \<longrightarrow> spw_DoReorg spw w' = b \<and> spw_DoHeader spw w' = spw_DoHeader spw w \<and>
       spw_Addresses spw w' = spw_Addresses spw w \<and> spw_Topics spw w' = spw_Topics spw w)"
proof -
  note ctl = poller_cell.interface_controls [OF assms(1), of lf S L]
  have em: "em_poller (spw_emitter spw) = poller_interface lf S L c" using assms(2) by (simp add: spw_Emitter_def)
  note get = spw_Addresses_def spw_Topics_def spw_DoHeader_def spw_DoReorg_def emitter_Poller_def em
  note acts = spw_SetAddresses_def spw_SetTopics_def spw_AddAddresses_def spw_AddTopics_def spw_SetDoHeader_def spw_SetDoReorg_def
  have read: "ep_Addresses (poller_interface lf S L c) v = addresses (cell_get c v)"
      "ep_Topics (poller_interface lf S L c) v = topics (cell_get c v)"
      "ep_DoHeader (poller_interface lf S L c) v = doHeader (cell_get c v)"
      "ep_DoReorg (poller_interface lf S L c) v = doReorg (cell_get c v)" for v
    by (simp_all add: poller_interface_def Let_def Addresses_def Topics_def DoHeader_def DoReorg_def)
  show ?thesis
    using ctl(6) [of b w w'] SetDoReorg_keeps [of S b "cell_get c w" "cell_get c w'"]
    by (auto simp: get acts read ctl(1-5) SetAddresses_def SetTopics_def AddAddresses_def AddTopics_def SetDoHeader_def slice_def
        split: option.splits)
qed

text \<open>A watcher on a simulated node: the world is the poller, the node's chain and a queue of results.\<close>

type_synonym sample_world = "(block ss_node list, unit) poller \<times> eth_log list \<times> poller_result list"

definition queue_send :: "poller_result \<Rightarrow> sample_world \<Rightarrow> sample_world go" where
  "queue_send r w = (case w of (p, s, q) \<Rightarrow> Ret (p, s, q @ [r]))"

definition queue_recv :: "sample_world \<Rightarrow> (poller_result option \<times> sample_world) go" where
  "queue_recv w = (case w of (p, s, []) \<Rightarrow> Hang | (p, s, r # q) \<Rightarrow> Ret (Some r, (p, s, q)))"

definition sample_results :: "(poller_result, sample_world) gochan" where
  "sample_results = \<lparr>gc_send = queue_send, gc_recv = queue_recv, gc_close = Ret\<rparr>"

definition null_chan :: "'a \<Rightarrow> ('a, sample_world) gochan" where
  "null_chan x = \<lparr>gc_send = (\<lambda>_. Ret), gc_recv = (\<lambda>w. Ret (Some x, w)), gc_close = Ret\<rparr>"

definition sample_service :: "(unit, sample_world) service_engine" where
  "sample_service = \<lparr>HandleGoodBlocks = (\<lambda>_ _ w. Ret ((\<lambda>_. [], None), w)), HandleReorgedBlocks = (\<lambda>_ _ w. Ret ((\<lambda>_. [], None), w)),
     svc_HandleEmitterError = (\<lambda>_ w. Ret (None, w))\<rparr>"

definition sample_watcher ::
    "(block ss_node list, sample_world) poller \<times> (nat ss_node list, unit, sample_world) superWatcher" where
  "sample_watcher = NewSuperWatcherDefault True list_ss list_ss std_lib (pair_cell nil_eth_client) (null_chan ()) sample_results
     (null_chan ErrUserError) some_config nil_eth_client (\<lambda>w. Ret ((0, None), w)) (\<lambda>_ w. Ret (None, w)) sample_service (Some [7]) None"

lemmas watcher_defs = NewSuperWatcherDefault_def NewDefault_def NewEmitterWithPoller_def NewEngineWithEmitterClient_def
  NewEmitterClient_def NewEmitter_def NewEngine_def NewPoller_def NewSuperWatcher_def emitter_New_def emitterclient_New_def
  engine_New_def spw_Emitter_def spw_Engine_def

lemma sample_watcher_interface:
  "em_poller (spw_Emitter (snd sample_watcher)) = poller_interface True list_ss std_lib (pair_cell nil_eth_client)"
  by (simp add: sample_watcher_def watcher_defs)

definition sample_start :: sample_world where
  "sample_start = (with_client nil_eth_client (fst sample_watcher), chain1, [])"

theorem superWatcher_controls_witness:
  "spw_Addresses (snd sample_watcher) (spw_SetAddresses (snd sample_watcher) (Some [1, 2]) sample_start) = Some [1, 2] \<and>
   slice (spw_Topics (snd sample_watcher) (spw_AddTopics (snd sample_watcher) (Some [[3]]) sample_start)) = [[3]]"
proof -
  have "spw_Topics (snd sample_watcher) sample_start = None" by code_simp
  then show ?thesis
    using superWatcher_controls [OF pc.poller_cell_axioms sample_watcher_interface, of "Some [1, 2]" sample_start "Some [[3]]"]
    by (simp add: slice_def)
qed

section \<open>The default watcher\<close>



section \<open>A watcher built from options\<close>

text \<open>An option that leaves the filter range alone: all of them but \<open>WithFilterRange\<close>.\<close>

definition keeps_range :: "('a, 'w) option_fun \<Rightarrow> bool" where
  "keeps_range opt \<longleftrightarrow> (\<forall>c. cc_filterRange (opt c) = cc_filterRange c)"

lemma options_keep_range:
  "keeps_range (WithConfig cfg)" "keeps_range (WithEthClient cl)" "keeps_range (WithSyncChan sch)"
  "keeps_range (WithFilterResultChan rch)" "keeps_range (WithErrChan ech)" "keeps_range (WithServiceEngine svc)"
  "keeps_range (WithGetStateDataGateway g)" "keeps_range (WithSetStateDataGateway h)" "keeps_range (WithLogLevel l)"
  "keeps_range (WithAddresses as)" "keeps_range (WithTopics ts)" "keeps_range (WithDoReorg b)" "keeps_range (WithDoHeader b)"
  "keeps_range (WithPolicy pol)"
  by (simp_all add: keeps_range_def WithConfig_def WithEthClient_def WithSyncChan_def WithFilterResultChan_def WithErrChan_def
      WithServiceEngine_def WithGetStateDataGateway_def WithSetStateDataGateway_def WithLogLevel_def WithAddresses_def
      WithTopics_def WithDoReorg_def WithDoHeader_def WithPolicy_def)

lemma apply_options_range: "list_all keeps_range options \<Longrightarrow> cc_filterRange (apply_options options) = 0"
proof -
  have "list_all keeps_range options \<Longrightarrow> cc_filterRange (fold (\<lambda>opt c. opt c) options c) = cc_filterRange c" for c
    by (induction options arbitrary: c) (simp_all add: keeps_range_def)
  then show "list_all keeps_range options \<Longrightarrow> cc_filterRange (apply_options options) = 0"
    by (simp add: apply_options_def zero_componentConfig_def)
qed

text \<open>A poller with filter range 0 forgets every block before it looks at it again.\<close>

definition small_reports :: "poller_result list \<Rightarrow> bool" where
  "small_reports rs = list_all (\<lambda>r. unat (ToBlock r) < 2 ^ 63) rs"

lemma sint_mono_small:
  assumes "n \<le> b" "unat b < 2 ^ 63"
  shows "sint n \<le> sint (b :: u64)"
proof -
  have le: "unat n \<le> unat b" using assms(1) by (simp add: word_le_nat_alt)
  then have "unat n < 2 ^ 63" using assms(2) by (rule le_less_trans)
  then show ?thesis unfolding sint_small [OF assms(2)] using sint_small [of n] le by (simp only: of_nat_le_iff)
qed

lemma watched_set [simp]:
  "watched S (AddAddresses as p) = watched S p" "watched S (SetAddresses as p) = watched S p"
  "watched S (AddTopics ts p) = watched S p" "watched S (SetTopics ts p) = watched S p"
  "watched S (SetDoHeader b p) = watched S p"
  "filterRange (AddAddresses as p) = filterRange p" "filterRange (SetAddresses as p) = filterRange p"
  "filterRange (AddTopics ts p) = filterRange p" "filterRange (SetTopics ts p) = filterRange p"
  "filterRange (SetDoHeader b p) = filterRange p"
  by (simp_all add: fun_eq_iff watched_if tracked_def AddAddresses_def SetAddresses_def AddTopics_def SetTopics_def SetDoHeader_def)

context poller_env
begin

lemma no_range_step:
  assumes "fetched s a b p bm m" "poll_outcome a b p (mark bm (watched S p) (u64_range a b) m) t' r e p'"
    "poller_ok ss_map ss_ok p" "filterRange p = 0" "\<forall>n. watched S p n = None" "unat b < 2 ^ 63"
  shows "ReorgedBlocks r = [] \<and> (\<forall>n. watched S p' n = None)"
proof -
  have none: "ReorgedBlocks r = []"
    using outcome_reorged [OF assms(1-3)] assms(5) by (cases "ReorgedBlocks r") (force+)
  note rec = outcome_recorded [OF assms(2)]
  have last: "lastRecordedBlock p' = b" using rec none LastGoodBlock_no_reorg by simp
  have "watched S p' n = None" for n
  proof (cases "a \<le> n \<and> n \<le> b")
    case True
    then have "sint n \<le> sint b" using sint_mono_small assms(6) by blast
    then show ?thesis using last rec(5) assms(4) by (simp add: watched_if)
  next
    case False
    then have "tracked S p' n = None"
      using outcome_tracked [OF assms(1,2), of n] assms(5) by (auto split: option.splits)
    then show ?thesis by (simp add: watched_if)
  qed
  then show ?thesis using none by blast
qed

lemma no_range_run:
  assumes "poll_run S L p rs" "filterRange p = 0" "small_reports rs"
  shows "(\<forall>n. watched S p n = None) \<and> list_all (\<lambda>r. ReorgedBlocks r = []) rs"
  using assms
proof (induction rule: poll_run.induct)
  case (new as ts reorg hdr rng cl pol)
  then show ?case by (simp add: watched_def poller_New_def get_newTracker)
next
  case (reported p rs a b lf s r e p' s')
  have ok: "poller_ok ss_map ss_ok p" using poll_run_history [OF reported.hyps(1)] by (simp add: history_ok_def)
  obtain m bm t' where out: "fetched s a b p bm m"
      "poll_outcome a b p (mark bm (watched S p) (u64_range a b) m) t' r e p'"
    using Poll_report [OF ok reported.hyps(2,3,5,6)] .
  note rec = outcome_recorded [OF out(2)]
  have z: "filterRange p = 0" "small_reports rs" "unat b < 2 ^ 63"
    using rec reported.prems by (simp_all add: small_reports_def)
  have IH: "(\<forall>n. watched S p n = None) \<and> list_all (\<lambda>r. ReorgedBlocks r = []) rs"
    by (rule reported.IH [OF z(1,2)])
  show ?case using no_range_step [OF out ok z(1) conjunct1 [OF IH] z(3)] IH by simp
next
  case (failed p rs a b lf s e p' s')
  have ok: "poller_ok ss_map ss_ok p" using poll_run_history [OF failed.hyps(1)] by (simp add: history_ok_def)
  obtain t where t: "tracker p = Some t" using failed.hyps(2) by auto
  from Poll_ok [OF t poller_ok_tracker [OF ok t] failed.hyps(3,5,6)]
  obtain t' where p': "p' = p\<lparr>tracker := Some t'\<rparr>" "getTrackerBlock S t' = watched S p" by auto
  then have "(\<forall>n. watched S p n = None) \<and> list_all (\<lambda>r. ReorgedBlocks r = []) rs"
    using failed.IH failed.prems by simp
  then show ?case using p' by (simp add: watched_def)
next
  case (addressed p rs p' as)
  then show ?case by auto
next
  case (topiced p rs p' ts)
  then show ?case by auto
next
  case (headed p rs hdr)
  then show ?case by simp
next
  case (switched p rs reorg p')
  have IH: "(\<forall>n. watched S p n = None) \<and> list_all (\<lambda>r. ReorgedBlocks r = []) rs"
    using switched SetDoReorg_keeps(6) by metis
  have "\<forall>n. watched S p' n = None"
    using switched.hyps(2) IH
    by (auto simp: SetDoReorg_def go_bind_Ret_iff watched_def get_newTracker split: if_splits option.splits)
  then show ?case using IH by blast
qed

end

text \<open>
  C17. The option constructor takes the poller's filter range from \<open>WithFilterRange\<close> alone and
  leaves it at 0 when that option is missing, although the emitter gets the configured range; a
  poller with that range never reports a reorg, whatever it polled and whatever the chain did, for
  it forgets every block before it could compare it again.
\<close>

theorem NewSuperWatcherOptions_blind:
  assumes "poller_env S ss_map ss_ok L" "list_all keeps_range options"
    "NewSuperWatcherOptions lf S T L c options = Ret (p0, spw)"
    "poll_run S L p rs" "filterRange p = filterRange p0" "small_reports rs"
  shows "cc_config (apply_options options) = Some (conf (spw_Emitter spw)) \<and>
    filterRange p0 = 0 \<and> list_all (\<lambda>r. ReorgedBlocks r = []) rs"
proof -
  have z: "filterRange p0 = 0" "cc_config (apply_options options) = Some (conf (spw_Emitter spw))"
    using assms(3) apply_options_range [OF assms(2)]
    by (auto simp: NewSuperWatcherOptions_def deref_config_def nil_call_def Let_def watcher_defs poller_New_def split: option.splits)
  then show ?thesis using poller_env.no_range_run [OF assms(1,4)] assms(5,6) by simp
qed

definition blind_poller :: "(block ss_node list, eth_log list) poller" where
  "blind_poller = poller_New list_ss None None True False 0 sample_client PolicyNormal"

definition blind_first :: "(((poller_result option \<times> err) \<times> (block ss_node list, eth_log list) poller) \<times> eth_log list) go" where
  "blind_first = Poll True list_ss std_lib 5 7 blind_poller chain1"

definition blind_second :: "(((poller_result option \<times> err) \<times> (block ss_node list, eth_log list) poller) \<times> eth_log list) go" where
  "blind_second = Poll True list_ss std_lib 5 7 (after blind_poller blind_first) chain2"

definition blind_options :: "(unit, eth_log list) option_fun list" where
  "blind_options = [WithConfig some_config, WithEthClient sample_client, WithDoReorg True]"

lemma blind_run:
  "poll_run list_ss std_lib (after (after blind_poller blind_first) blind_second) [report blind_first, report blind_second]"
proof -
  have ok: "ok_report blind_first" "ok_report blind_second" by code_simp+
  have start: "poll_run list_ss std_lib blind_poller []" unfolding blind_poller_def by (rule poll_run.new)
  have t: "poller_ok list_ss_map list_ss_ok blind_poller" "tracker blind_poller \<noteq> None"
    by (simp_all add: blind_poller_def lpe.poller_ok_New) (simp add: poller_New_def)
  have one: "poll_run list_ss std_lib (after blind_poller blind_first) [report blind_first]"
    using poll_run.reported [OF start t(2), of 5 7 True chain1] ok_report_Ret [OF ok(1), of blind_poller chain1]
    by (simp add: blind_first_def)
  have t1: "tracker (after blind_poller blind_first) \<noteq> None"
    using sample_after_ok(2) [OF t, of 5 7 chain1] ok(1) by (simp add: blind_first_def)
  show ?thesis
    using poll_run.reported [OF one t1, of 5 7 True chain2] ok_report_Ret [OF ok(2), of "after blind_poller blind_first" chain2]
    by (simp add: blind_second_def)
qed

theorem NewSuperWatcherOptions_blind_witness:
  "map (map Hash \<circ> GoodBlocks) [report blind_first, report blind_second] = [[50, 60], [50, 61]] \<and>
   list_all (\<lambda>r. ReorgedBlocks r = []) [report blind_first, report blind_second]"
proof -
  obtain p spw where new: "NewSuperWatcherOptions True list_ss (list_ss :: (nat ss_node list, nat) sortedset) std_lib
      \<lparr>cell_get = (\<lambda>_. blind_poller), cell_put = (\<lambda>_ w. w)\<rparr> blind_options = Ret (p, spw)"
      "filterRange p = 0"
    by (simp add: NewSuperWatcherOptions_def blind_options_def apply_options_def deref_config_def WithConfig_def WithEthClient_def
        WithDoReorg_def zero_componentConfig_def Let_def watcher_defs poller_New_def)
  have range: "filterRange (after (after blind_poller blind_first) blind_second) = 0" by code_simp
  have "map ToBlock [report blind_first, report blind_second] = [7, 7]" by code_simp
  then have small: "small_reports [report blind_first, report blind_second]" by (simp add: small_reports_def)
  have hashes: "map (map Hash \<circ> GoodBlocks) [report blind_first, report blind_second] = [[50, 60], [50, 61]]" by code_simp
  have opts: "list_all keeps_range blind_options" by (simp add: blind_options_def options_keep_range)
  show ?thesis
    using hashes NewSuperWatcherOptions_blind [OF lpe.poller_env_axioms opts new(1) blind_run _ small] range new(2) by simp
qed

end
