(* ===== verification/Pipeline.thy ===== *)
theory Pipeline
  imports Poller_Behaviour Engine_Theorems Components_Theorems
begin

text \<open>
  The poller and the engine together: every report of the poller is handled by the engine before the
  next poll, which the sync channel enforces. The poller remembers blocks by number and drops those
  a filter range behind the last good block; the engine remembers them by hash and drops those
  \<open>FilterRange * MaxGoBackRetries\<close> behind it. What is shown here is that the two memories fit.
\<close>

section \<open>Runs of the pipeline\<close>

text \<open>
  \<open>num\<close> reads the number off a hash: a hash belongs to one block. Any client, service and gateway
  may stand behind the calls, and the watched addresses and topics may change between rounds.
\<close>

inductive pipeline ::
    "('s, block) sortedset \<Rightarrow> ('t, nat) sortedset \<Rightarrow> lib \<Rightarrow> ('t, 'a, 'w) engine \<Rightarrow> (string \<Rightarrow> u64) \<Rightarrow>
     ('s, 'c) poller \<Rightarrow> ('t, 'a) metadataTracker \<Rightarrow> poller_result list \<Rightarrow> bool"
  for S :: "('s, block) sortedset" and T :: "('t, nat) sortedset" and L :: lib and e :: "('t, 'a, 'w) engine"
    and num :: "string \<Rightarrow> u64" where
  start: "pipeline S T L e num
    (poller_New S as ts reorg hdr (FilterRange (WatcherConfig (eng_client e))) cl pol) (metadata_newTracker T) []"
| handled: "pipeline S T L e num p t rs \<Longrightarrow> tracker p \<noteq> None \<Longrightarrow> 0 < a \<Longrightarrow> a \<le> b \<Longrightarrow> unat b < 2 ^ 63 \<Longrightarrow>
    Poll lf S L a b p s = Ret (((Some r, er), p'), s') \<Longrightarrow> list_all (\<lambda>g. Number g = num (Block_String L g)) (GoodBlocks r) \<Longrightarrow>
    handle_result T L e r t w = Ret ((None, t'), w') \<Longrightarrow> pipeline S T L e num p' t' (rs @ [r])"
| failed: "pipeline S T L e num p t rs \<Longrightarrow> tracker p \<noteq> None \<Longrightarrow> 0 < a \<Longrightarrow> a \<le> b \<Longrightarrow> unat b < 2 ^ 63 \<Longrightarrow>
    Poll lf S L a b p s = Ret (((None, er), p'), s') \<Longrightarrow> pipeline S T L e num p' t rs"
| controlled: "pipeline S T L e num p t rs \<Longrightarrow>
    p' \<in> {AddAddresses as p, SetAddresses as p, AddTopics ts p, SetTopics ts p, SetDoHeader hdr p} \<Longrightarrow> pipeline S T L e num p' t rs"
| switched: "pipeline S T L e num p t rs \<Longrightarrow> SetDoReorg S reorg p = Ret p' \<Longrightarrow> pipeline S T L e num p' t rs"

text \<open>The engine keeps at least what the poller keeps, computed without wrapping.\<close>

definition memory_fits :: "config \<Rightarrow> bool" where
  "memory_fits cfg \<longleftrightarrow> MaxGoBackRetries cfg \<noteq> 0 \<and> unat (FilterRange cfg) * unat (MaxGoBackRetries cfg) < 2 ^ 63"

lemma sint_sub:
  assumes "unat a < 2 ^ 63" "unat b \<le> 2 ^ 63"
  shows "sint (a - b :: u64) = int (unat a) - int (unat b)"
proof (cases "unat a < unat b")
  case True
  then show ?thesis by (rule sint_wrapped_sub [OF _ assms(2)])
next
  case False
  then have "b \<le> a" by (simp add: word_le_nat_alt)
  then have u: "unat (a - b) = unat a - unat b" by (rule unat_diff_le)
  then have "unat (a - b) < 2 ^ 63" using assms(1) by simp
  then have "sint (a - b) = int (unat (a - b))" by (rule sint_small)
  then show ?thesis using u False by (simp only: of_nat_diff not_less)
qed

lemma not_top:
  assumes "unat b < 2 ^ 63"
  shows "b \<noteq> (- 1 :: u64)"
proof
  assume "b = - 1"
  then have "sint b = - 1" by simp
  then show False using sint_small [OF assms] by linarith
qed

lemma memory_bounds:
  assumes "memory_fits cfg" "unat n < 2 ^ 63"
  shows "sint (n - FilterRange cfg * MaxGoBackRetries cfg) \<le> sint (n - FilterRange cfg)"
proof -
  let ?r = "unat (FilterRange cfg)" and ?k = "unat (MaxGoBackRetries cfg)"
  have "MaxGoBackRetries cfg \<noteq> 0" using assms(1) by (simp add: memory_fits_def)
  then have k: "1 \<le> ?k" by (simp add: Suc_leI unat_gt_0)
  have small: "?r * ?k < 2 ^ 63" using assms(1) by (simp add: memory_fits_def)
  then have prod: "unat (FilterRange cfg * MaxGoBackRetries cfg) = ?r * ?k" by (simp add: unat_word_ariths)
  have le: "?r \<le> ?r * ?k" using k by simp
  have "sint (n - FilterRange cfg * MaxGoBackRetries cfg) = int (unat n) - int (?r * ?k)"
    using sint_sub [OF assms(2), of "FilterRange cfg * MaxGoBackRetries cfg"] small unfolding prod by simp
  moreover have "sint (n - FilterRange cfg) = int (unat n) - int ?r"
    using le small by (intro sint_sub [OF assms(2)]) linarith
  ultimately show ?thesis using le by (simp only: of_nat_le_iff diff_left_mono)
qed

text \<open>The hashes reported as reorged, and reports in which no hash is good again after that.\<close>

definition reorged_keys :: "lib \<Rightarrow> poller_result list \<Rightarrow> string list" where
  "reorged_keys L rs = concat (map (\<lambda>r. map (Block_String L) (ReorgedBlocks r)) rs)"

fun no_return :: "lib \<Rightarrow> string list \<Rightarrow> poller_result list \<Rightarrow> bool" where
  "no_return L ks [] = True"
| "no_return L ks (r # rs) \<longleftrightarrow>
     (let ks' = ks @ map (Block_String L) (ReorgedBlocks r)
      in list_all (\<lambda>g. Block_String L g \<notin> set ks') (GoodBlocks r) \<and> no_return L ks' rs)"

lemma no_return_snoc:
  "no_return L ks (rs @ [r]) \<longleftrightarrow>
   no_return L ks rs \<and> list_all (\<lambda>g. Block_String L g \<notin> set (ks @ reorged_keys L (rs @ [r]))) (GoodBlocks r)"
  by (induction rs arbitrary: ks) (auto simp: reorged_keys_def Let_def list_all_iff)

section \<open>What the poller's tracker holds after a report\<close>

context poller_env
begin

lemma tracked_origin:
  assumes "fetched s a b p bm m" "poll_outcome a b p (Poller_Correct.mark bm (watched S p) (u64_range a b) m) t' r e p'"
    "history_ok p rs" "tracked S p' n = Some g"
  shows "g \<in> set (GoodBlocks r) \<and> Number g = n \<or> watched S p n = Some g \<and> n \<notin> Number ` set (GoodBlocks r)"
proof -
  let ?m = "Poller_Correct.mark bm (watched S p) (u64_range a b) m"
  have fresh: "results_fresh m" using assms(1) by (simp add: fetched_def)
  have logs: "Logs h \<noteq> []" if "watched S p n = Some h" "p_policy p = PolicyFast" for h
    using that assms(3) watched_tracked [of S p n h] by (simp add: history_ok_def)
  show ?thesis
  proof (cases "\<exists>x. ?m n = Some x \<and> a \<le> n \<and> n \<le> b")
    case True
    then obtain x where x: "?m n = Some x" "a \<le> n" "n \<le> b" by blast
    then have ta: "tracked_after (p_policy p) x (watched S p n) = Some g"
      using outcome_tracked [OF assms(1,2), of n] assms(4) by simp
    then have "\<not> (p_policy p = PolicyFast \<and> Logs (res_Block x) = [])"
      using fast_empty_removed [OF assms(1) x] logs by fastforce
    then have "g = res_Block x" using ta by (auto simp: tracked_after_def)
    moreover have "Number (res_Block x) = n" using mark_fresh(1) [OF fresh] x(1) by blast
    ultimately show ?thesis using x outcome_good [OF assms(1,2), of g] by auto
  next
    case False
    then show ?thesis
      using outcome_tracked [OF assms(1,2), of n] assms(4) outcome_good [OF assms(1,2)] by (cases "?m n") auto
  qed
qed

lemma last_good_small:
  assumes "fetched s a b p bm m" "poll_outcome a b p (Poller_Correct.mark bm (watched S p) (u64_range a b) m) t' r e p'"
    "poller_ok ss_map ss_ok p" "0 < a" "a \<le> b" "unat b < 2 ^ 63"
  shows "unat (LastGoodBlock r) < 2 ^ 63"
proof -
  note rec = outcome_recorded [OF assms(2)]
  have "LastGoodBlock r \<le> ToBlock r"
    using report_blocks(4) [OF assms(1,2)] outcome_reorged [OF assms(1-3)] assms(4,5)
    by (intro LastGoodBlock_le_to) (auto simp: rec)
  then show ?thesis using assms(6) rec(4) by (simp add: word_le_nat_alt)
qed

end

section \<open>The two memories fit\<close>

locale watcher_pipeline = poller_env S ss_map ss_ok L + tr: metadata_tracker T mt_map mt_ok L
  for S :: "('s, block) sortedset" and ss_map and ss_ok and T :: "('t, nat) sortedset" and mt_map and mt_ok and L :: lib
begin

text \<open>
  The invariant: every block the poller would compare at its next poll is known to the engine under
  its hash and with its number.
\<close>

definition pipe_ok :: "('t, 'a, 'w) engine \<Rightarrow> (string \<Rightarrow> u64) \<Rightarrow> ('s, 'c) poller \<Rightarrow> ('t, 'a) metadataTracker \<Rightarrow> poller_result list \<Rightarrow> bool" where
  "pipe_ok e num p t rs \<longleftrightarrow> history_ok p rs \<and> filterRange p = FilterRange (WatcherConfig (eng_client e)) \<and>
     (\<exists>hist bounds. engine_run T mt_map L e num t hist bounds) \<and>
     (\<forall>n g. watched S p n = Some g \<longrightarrow> num (Block_String L g) = n \<and> metadata_abs mt_map t (Block_String L g) \<noteq> None)"

lemma pipe_engine:
  assumes "pipe_ok e num p t rs"
  shows "metadata_ok mt_map mt_ok t" "settled (metadata_abs mt_map t)"
    "metadata_abs mt_map t h = Some (n, st, a) \<Longrightarrow> n = num h"
  using assms engine_run_ok [OF tr.metadata_tracker_axioms] unfolding pipe_ok_def run_ok_def by blast+

text \<open>The reorged blocks of the next report are known, and its hashes are distinct.\<close>

lemma pipe_report:
  assumes "pipe_ok e num p t rs" "fetched s a b p bm m"
    "poll_outcome a b p (Poller_Correct.mark bm (watched S p) (u64_range a b) m) t' r er p'"
    "list_all (\<lambda>g. Number g = num (Block_String L g)) (GoodBlocks r)"
  shows "old \<in> set (ReorgedBlocks r) \<Longrightarrow> watched S p (Number old) = Some old"
    "old \<in> set (ReorgedBlocks r) \<Longrightarrow> Number old = num (Block_String L old)"
    "old \<in> set (ReorgedBlocks r) \<Longrightarrow> metadata_abs mt_map t (Block_String L old) \<noteq> None"
    "old \<in> set (ReorgedBlocks r) \<Longrightarrow> Number old \<in> Number ` set (GoodBlocks r)"
    "distinct_hashes L r"
proof -
  have ok: "poller_ok ss_map ss_ok p" using assms(1) by (simp add: pipe_ok_def history_ok_def)
  note reorged = outcome_reorged [OF assms(2,3) ok]
  have num: "Number g = num (Block_String L g)" if "g \<in> set (GoodBlocks r)" for g
    using that assms(4) by (simp add: list_all_iff)
  show w: "watched S p (Number old) = Some old" if "old \<in> set (ReorgedBlocks r)" for old using that reorged by blast
  show n: "Number old = num (Block_String L old)" if "old \<in> set (ReorgedBlocks r)" for old
    using w [OF that] assms(1) unfolding pipe_ok_def by simp
  show "metadata_abs mt_map t (Block_String L old) \<noteq> None" if "old \<in> set (ReorgedBlocks r)" for old
    using w [OF that] assms(1) unfolding pipe_ok_def by simp
  show "Number old \<in> Number ` set (GoodBlocks r)" if "old \<in> set (ReorgedBlocks r)" for old
    using that reorged [of old] by (auto simp: image_iff dest: sym)
  have inj: "distinct (map (Block_String L) bs)"
    if "distinct (map Number bs)" "\<And>g. g \<in> set bs \<Longrightarrow> Number g = num (Block_String L g)" for bs
  proof -
    have "map num (map (Block_String L) bs) = map Number bs" using that(2) by simp
    then show ?thesis using that(1) distinct_map [of num "map (Block_String L) bs"] by metis
  qed
  have "distinct (map Number (GoodBlocks r))"
    using report_blocks(3) [OF assms(2,3)] strict_sorted_iff by blast
  moreover have "distinct (map Number (ReorgedBlocks r))" by (rule reorged_ascending(2) [OF assms(2,3) ok])
  ultimately show "distinct_hashes L r" unfolding distinct_hashes_def using inj num n by blast
qed

lemma pipe_poll:
  assumes "pipe_ok e num p t rs" "tracker p \<noteq> None" "0 < a" "a \<le> b" "unat b < 2 ^ 63"
    "Poll lf S L a b p s = Ret (((Some r, er), p'), s')"
  obtains m bm t' where "fetched s a b p bm m"
    "poll_outcome a b p (Poller_Correct.mark bm (watched S p) (u64_range a b) m) t' r er p'" "unat (LastGoodBlock r) < 2 ^ 63"
proof -
  have ok: "poller_ok ss_map ss_ok p" using assms(1) by (simp add: pipe_ok_def history_ok_def)
  have "b \<noteq> - 1" by (rule not_top [OF assms(5)])
  then obtain m bm t' where out: "fetched s a b p bm m"
      "poll_outcome a b p (Poller_Correct.mark bm (watched S p) (u64_range a b) m) t' r er p'"
    using Poll_report [OF ok assms(2,3) _ assms(6)] by blast
  show thesis by (rule that [OF out last_good_small [OF out ok assms(3-5)]])
qed

lemma pipe_handled:
  assumes "pipe_ok e num p t rs" "memory_fits (WatcherConfig (eng_client e))" "fetched s a b p bm m"
    "poll_outcome a b p (Poller_Correct.mark bm (watched S p) (u64_range a b) m) tr' r er p'" "unat (LastGoodBlock r) < 2 ^ 63"
    "list_all (\<lambda>g. Number g = num (Block_String L g)) (GoodBlocks r)" "handle_result T L e r t w = Ret ((None, t'), w')"
  shows "pipe_ok e num p' t' (rs @ [r])"
proof -
  let ?key = "Block_String L" and ?m = "metadata_abs mt_map t"
  note eng = pipe_engine [OF assms(1)] and rep = pipe_report [OF assms(1,3,4,6)] and rec = outcome_recorded [OF assms(4)]
  have hist: "history_ok p rs" "filterRange p = FilterRange (WatcherConfig (eng_client e))" using assms(1) by (simp_all add: pipe_ok_def)
  obtain hs bs where run: "engine_run T mt_map L e num t hs bs" using assms(1) unfolding pipe_ok_def by blast
  have watched: "num (?key g) = n \<and> ?m (?key g) \<noteq> None" if "watched S p n = Some g" for n g
    using assms(1) that unfolding pipe_ok_def by blast
  have "list_all (\<lambda>b. Number b = num (?key b)) (ReorgedBlocks r @ GoodBlocks r)"
    using rep(2) assms(6) by (auto simp: list_all_iff)
  note run' = engine_run.round [OF run rep(5) this assms(7)]
  from handle_result_closed(1) [OF tr.metadata_tracker_axioms eng(1,2) rep(5) assms(7)] obtain arts1 arts2 where
    m': "metadata_abs mt_map t' = spec_clear (clear_bound e r) (after_good L r arts2 (after_reorged L r arts1 ?m))" by blast
  have "num (?key g) = n \<and> metadata_abs mt_map t' (?key g) \<noteq> None" if g: "watched S p' n = Some g" for n g
  proof -
    have low: "sint (LastGoodBlock r - FilterRange (WatcherConfig (eng_client e))) < sint n" and tg: "tracked S p' n = Some g"
      using g rec(1,5) hist(2) by (auto simp: watched_if split: if_splits)
    from tracked_origin [OF assms(3,4) hist(1) tg]
    have known: "num (?key g) = n \<and> (?m (?key g) \<noteq> None \<or> ?key g \<in> ?key ` set (GoodBlocks r))"
    proof
      assume "g \<in> set (GoodBlocks r) \<and> Number g = n"
      then show ?thesis using assms(6) by (auto simp: list_all_iff)
    next
      assume "watched S p n = Some g \<and> n \<notin> Number ` set (GoodBlocks r)"
      then show ?thesis using watched by blast
    qed
    let ?m2 = "after_good L r arts2 (after_reorged L r arts1 ?m)"
    note ea = entries_after [OF eng(2), where L = L and result = r and ?arts1.0 = arts1 and ?arts2.0 = arts2 and h = "?key g"]
    have "?m2 (?key g) \<noteq> None" unfolding ea(1) using known by blast
    then obtain n2 s2 a2 where e2: "?m2 (?key g) = Some (n2, s2, a2)" by auto
    have "n2 = n"
    proof (cases "?m (?key g)")
      case None
      then show ?thesis using ea(3) [OF None e2] known assms(6) by (auto simp: to_handle_def list_all_iff)
    next
      case (Some x)
      then show ?thesis using ea(2) eng(3) e2 known by (cases x) fastforce
    qed
    moreover have "sint (clear_bound e r) < sint n"
      using memory_bounds [OF assms(2,5)] low rec(2) by (simp add: clear_bound_def)
    ultimately show ?thesis unfolding m' using known e2 spec_clear_Some [of "clear_bound e r" ?m2 "?key g" n2 s2 a2] by simp
  qed
  then show ?thesis unfolding pipe_ok_def
    using history_reported [OF assms(3,4) hist(1)] rec(5) hist(2) run' by auto
qed

lemma pipe_unwatched:
  assumes "pipe_ok e num p t rs" "\<And>n g. watched S p' n = Some g \<Longrightarrow> watched S p n = Some g" "filterRange p' = filterRange p"
    "history_ok p' rs"
  shows "pipe_ok e num p' t rs"
  unfolding pipe_ok_def using assms(1) [unfolded pipe_ok_def] assms(2-4)
  by (intro conjI) (simp, simp, blast, blast)

lemma switched_watched: "SetDoReorg S reorg p = Ret p' \<Longrightarrow> watched S p' n = Some g \<Longrightarrow> watched S p n = Some g"
  by (auto simp: SetDoReorg_def go_bind_Ret_iff watched_def get_newTracker split: if_splits option.splits)

lemma pipe_failed:
  assumes "history_ok p rs" "tracker p \<noteq> None" "0 < a" "a \<le> b" "unat b < 2 ^ 63"
    "Poll lf S L a b p s = Ret (((None, er), p'), s')"
  shows "history_ok p' rs" "filterRange p' = filterRange p" "\<And>n g. watched S p' n = Some g \<Longrightarrow> watched S p n = Some g"
proof -
  have b: "b \<noteq> - 1" by (rule not_top [OF assms(5)])
  have ok: "poller_ok ss_map ss_ok p" using assms(1) by (simp add: history_ok_def)
  obtain t where t: "tracker p = Some t" using assms(2) by auto
  from Poll_ok [OF t poller_ok_tracker [OF ok t] assms(3) b assms(6)]
  obtain t' where p': "p' = p\<lparr>tracker := Some t'\<rparr>" "tracker_ok t'" "getTrackerBlock S t' = watched S p" by auto
  have tr: "tracked S p' n = watched S p n" for n using p' by (simp add: tracked_def)
  show "filterRange p' = filterRange p" using p' by simp
  show "watched S p' n = Some g \<Longrightarrow> watched S p n = Some g" for n g using watched_tracked tr by metis
  have pol: "poller_ok ss_map ss_ok p'" "p_policy p' = p_policy p" using p' by (simp_all add: poller_ok_def)
  show "history_ok p' rs" using assms(1) watched_tracked [of S p] tr pol unfolding history_ok_def by simp blast
qed

lemma pipeline_ok:
  assumes "pipeline S T L e num p t rs" "memory_fits (WatcherConfig (eng_client e))"
  shows "pipe_ok e num p t rs"
  using assms
proof (induction rule: pipeline.induct)
  case (start as ts reorg hdr cl pol)
  let ?p = "poller_New S as ts reorg hdr (FilterRange (WatcherConfig (eng_client e))) cl pol"
  have none: "tracked S ?p n = None" for n by (simp add: tracked_def poller_New_def get_newTracker)
  have "history_ok ?p []" by (rule history_untracked [OF none poller_ok_New])
  moreover have "filterRange ?p = FilterRange (WatcherConfig (eng_client e))" by (simp add: poller_New_def)
  moreover have "\<exists>hist bounds. engine_run T mt_map L e num (metadata_newTracker T) hist bounds" using engine_run.start by blast
  ultimately show ?case using none by (simp add: pipe_ok_def watched_if)
next
  case (handled p t rs a b lf s r er p' s' w t' w')
  have IH: "pipe_ok e num p t rs" by (rule handled.IH [OF handled.prems])
  obtain m bm tr' where out: "fetched s a b p bm m"
      "poll_outcome a b p (Poller_Correct.mark bm (watched S p) (u64_range a b) m) tr' r er p'" "unat (LastGoodBlock r) < 2 ^ 63"
    using pipe_poll [OF IH handled.hyps(2-6)] .
  show ?case by (rule pipe_handled [OF IH handled.prems out handled.hyps(7,8)])
next
  case (failed p t rs a b lf s er p' s')
  have IH: "pipe_ok e num p t rs" by (rule failed.IH [OF failed.prems])
  then have h: "history_ok p rs" by (simp add: pipe_ok_def)
  note f = pipe_failed [OF h failed.hyps(2-6)]
  show ?case by (rule pipe_unwatched [OF IH f(3,2,1)])
next
  case (controlled p t rs p' as ts hdr)
  have IH: "pipe_ok e num p t rs" by (rule controlled.IH [OF controlled.prems])
  then have h: "history_ok p rs" by (simp add: pipe_ok_def)
  have "history_ok p' rs"
    by (rule history_cong [OF h]) (use controlled.hyps(2) in \<open>auto simp: AddAddresses_def SetAddresses_def AddTopics_def SetTopics_def SetDoHeader_def\<close>)
  then show ?case using controlled.hyps(2) by (intro pipe_unwatched [OF IH]) auto
next
  case (switched p t rs reorg p')
  have IH: "pipe_ok e num p t rs" by (rule switched.IH [OF switched.prems])
  then have h: "history_ok p rs" by (simp add: pipe_ok_def)
  show ?case
    by (rule pipe_unwatched [OF IH switched_watched [OF switched.hyps(2)] SetDoReorg_keeps(6) [OF switched.hyps(2)]
          history_SetDoReorg [OF h switched.hyps(2)]])
qed

text \<open>
  If no hash comes back once it was reported as reorged, every block the poller would compare is one
  the service handled and has not undone.
\<close>

definition mirrors :: "('s, 'c) poller \<Rightarrow> ('t, 'a) metadataTracker \<Rightarrow> poller_result list \<Rightarrow> bool" where
  "mirrors p t rs \<longleftrightarrow> (\<forall>n g. watched S p n = Some g \<longrightarrow> Block_String L g \<notin> set (reorged_keys L rs)) \<and>
     (\<forall>h n st a. metadata_abs mt_map t h = Some (n, st, a) \<longrightarrow> h \<notin> set (reorged_keys L rs) \<longrightarrow> st = stateHandled)"

lemma mirrors_handled:
  assumes "pipe_ok e num p t rs" "mirrors p t rs" "fetched s a b p bm m"
    "poll_outcome a b p (Poller_Correct.mark bm (watched S p) (u64_range a b) m) tr' r er p'"
    "list_all (\<lambda>g. Number g = num (Block_String L g)) (GoodBlocks r)" "handle_result T L e r t w = Ret ((None, t'), w')"
    "list_all (\<lambda>g. Block_String L g \<notin> set (reorged_keys L (rs @ [r]))) (GoodBlocks r)"
  shows "mirrors p' t' (rs @ [r])"
proof -
  let ?key = "Block_String L" and ?m = "metadata_abs mt_map t"
  note eng = pipe_engine [OF assms(1)] and rep = pipe_report [OF assms(1,3,4,5)]
  have hist: "history_ok p rs" using assms(1) by (simp add: pipe_ok_def)
  from handle_result_closed(1) [OF tr.metadata_tracker_axioms eng(1,2) rep(5) assms(6)] obtain arts1 arts2 where
    m': "metadata_abs mt_map t' = spec_clear (clear_bound e r) (after_good L r arts2 (after_reorged L r arts1 ?m))" by blast
  have "?key g \<notin> set (reorged_keys L (rs @ [r]))" if "watched S p' n = Some g" for n g
  proof -
    from tracked_origin [OF assms(3,4) hist watched_tracked [OF that]] show ?thesis
    proof
      assume "g \<in> set (GoodBlocks r) \<and> Number g = n"
      then show ?thesis using assms(7) by (auto simp: list_all_iff)
    next
      assume g: "watched S p n = Some g \<and> n \<notin> Number ` set (GoodBlocks r)"
      then have "num (?key g) = n" "?key g \<notin> set (reorged_keys L rs)" using assms(1,2) unfolding pipe_ok_def mirrors_def by blast+
      moreover have "?key g \<noteq> ?key old" if "old \<in> set (ReorgedBlocks r)" for old
        using rep(2,4) [OF that] g \<open>num (?key g) = n\<close> by auto
      ultimately show ?thesis by (auto simp: reorged_keys_def)
    qed
  qed
  moreover have "st = stateHandled" if known: "metadata_abs mt_map t' h = Some (n, st, a)" "h \<notin> set (reorged_keys L (rs @ [r]))" for h n st a
  proof -
    have m2: "after_good L r arts2 (after_reorged L r arts1 ?m) h = Some (n, st, a)" using known(1) unfolding m' spec_clear_Some by simp
    have h: "h \<notin> set (reorged_keys L rs)" "h \<notin> ?key ` set (ReorgedBlocks r)" using known(2) by (auto simp: reorged_keys_def)
    have same: "after_reorged L r arts1 ?m h = ?m h" using h(2) by (simp add: after_reorged_def)
    have "st0 = stateHandled" if "?m h = Some (n0, st0, a0)" for n0 st0 a0
      using assms(2) that h(1) unfolding mirrors_def by blast
    then show ?thesis using m2 same by (cases "?m h") (auto simp: after_good_def split: option.splits if_splits)
  qed
  ultimately show ?thesis unfolding mirrors_def by blast
qed

lemma mirrors_unwatched:
  assumes "mirrors p t rs" "\<And>n g. watched S p' n = Some g \<Longrightarrow> watched S p n = Some g"
  shows "mirrors p' t rs"
  using assms unfolding mirrors_def by blast

lemma pipeline_mirrors:
  assumes "pipeline S T L e num p t rs" "memory_fits (WatcherConfig (eng_client e))" "no_return L [] rs"
  shows "mirrors p t rs"
  using assms
proof (induction rule: pipeline.induct)
  case (start as ts reorg hdr cl pol)
  then show ?case by (simp add: mirrors_def reorged_keys_def tr.mt_ok_new(2))
next
  case (handled p t rs a b lf s r er p' s' w t' w')
  have ok: "pipe_ok e num p t rs" by (rule pipeline_ok [OF handled.hyps(1) handled.prems(1)])
  have fresh: "no_return L [] rs" "list_all (\<lambda>g. Block_String L g \<notin> set (reorged_keys L (rs @ [r]))) (GoodBlocks r)"
    using handled.prems(2) by (simp_all add: no_return_snoc)
  obtain m bm tr' where out: "fetched s a b p bm m"
      "poll_outcome a b p (Poller_Correct.mark bm (watched S p) (u64_range a b) m) tr' r er p'"
    using pipe_poll [OF ok handled.hyps(2-6)] .
  show ?case by (rule mirrors_handled [OF ok handled.IH [OF handled.prems(1) fresh(1)] out handled.hyps(7,8) fresh(2)])
next
  case (failed p t rs a b lf s er p' s')
  have "history_ok p rs" using pipeline_ok [OF failed.hyps(1) failed.prems(1)] by (simp add: pipe_ok_def)
  from pipe_failed(3) [OF this failed.hyps(2-6)] show ?case by (rule mirrors_unwatched [OF failed.IH [OF failed.prems]])
next
  case (controlled p t rs p' as ts hdr)
  then show ?case by (intro mirrors_unwatched [OF controlled.IH [OF controlled.prems]]) auto
next
  case (switched p t rs reorg p')
  show ?case by (rule mirrors_unwatched [OF switched.IH [OF switched.prems] switched_watched [OF switched.hyps(2)]])
qed

end

interpretation spl: watcher_pipeline list_ss list_ss_map list_ss_ok list_ss list_ss_map list_ss_ok short_lib
  by unfold_locales

text \<open>Everything the engine calls returns, with data or with an error.\<close>

definition consumer_returns :: "('t, 'a, 'w) engine \<Rightarrow> bool" where
  "consumer_returns e \<longleftrightarrow>
     (\<forall>bs as w. returns (HandleGoodBlocks (serviceEngine e) bs as w) \<and> returns (HandleReorgedBlocks (serviceEngine e) bs as w)) \<and>
     (\<forall>n w. returns (eng_gateway e n w)) \<and> (\<forall>w. returns (SyncsEmitter (eng_client e) w))"

lemma spec_round_returns:
  assumes "consumer_returns e" "\<forall>b\<in>set (ReorgedBlocks r). m (Block_String L b) \<noteq> None"
  shows "returns (spec_round L e r m w)"
proof -
  obtain m1 rb where see: "spec_see_reorged (Block_String L) (ReorgedBlocks r) m = Ret (m1, rb)"
    using see_reorged_returns [OF assms(2)] by blast
  have calls: "returns (HandleGoodBlocks (serviceEngine e) bs as w)" "returns (HandleReorgedBlocks (serviceEngine e) bs as w)"
      "returns (eng_gateway e n w)" "returns (SyncsEmitter (eng_client e) w)" for bs as n w
    using assms(1) by (simp_all add: consumer_returns_def)
  have reorged: "returns (spec_reorged L e r m w)" for w
    unfolding spec_reorged_def see by (auto intro!: returns_bind calls split: if_splits)
  have good: "returns (spec_good L e r m w)" for m w
    unfolding spec_good_def by (auto intro!: returns_bind calls split: prod.splits if_splits)
  show ?thesis unfolding spec_round_def
    by (auto intro!: returns_bind reorged good calls simp: Let_def split: if_splits)
qed

section \<open>A sample pipeline\<close>

text \<open>The sample node, polled twice around a reorg of block 6, with the sample service behind the engine.\<close>

definition pl_poller :: "(block ss_node list, eth_log list) poller" where
  "pl_poller = poller_New list_ss None None True False (FilterRange (WatcherConfig (eng_client ew_engine))) sample_client PolicyNormal"

definition pl_first where "pl_first = Poll True list_ss short_lib 5 7 pl_poller chain1"
definition pl_round where "pl_round = handle_result list_ss short_lib ew_engine (report pl_first) ew_start ([], [], 0)"
definition pl_second where "pl_second = Poll True list_ss short_lib 5 7 (after pl_poller pl_first) chain2"

definition pl_num :: "string \<Rightarrow> u64" where
  "pl_num h = (if h = short_lower 50 then 5 else 6)"

lemma pl_ok: "ok_report pl_first" "ok_report pl_second" "ok_round pl_round"
  by code_simp+

lemma pl_honest:
  "list_all (\<lambda>g. Number g = pl_num (Block_String short_lib g)) (GoodBlocks (report pl_first))"
  "list_all (\<lambda>g. Number g = pl_num (Block_String short_lib g)) (GoodBlocks (report pl_second))"
  by code_simp+

lemma pl_tracker: "tracker pl_poller \<noteq> None" "tracker (after pl_poller pl_first) \<noteq> None"
  by code_simp+

lemma pl_memory: "memory_fits (WatcherConfig (eng_client ew_engine))"
  by (simp add: memory_fits_def ew_engine_def engine_New_def ew_client_def WatcherConfig_def some_config_def)

lemma pl_run: "pipeline list_ss list_ss short_lib ew_engine pl_num (after pl_poller pl_first) (round_state pl_round) [report pl_first]"
proof -
  have start: "pipeline list_ss list_ss short_lib ew_engine pl_num pl_poller ew_start []"
    unfolding pl_poller_def ew_start_def by (rule pipeline.start)
  show ?thesis
    using pipeline.handled [OF start pl_tracker(1) _ _ _ ok_report_Ret [OF pl_ok(1), of pl_poller chain1, unfolded pl_first_def]
        pl_honest(1) [unfolded pl_first_def] ok_round_Ret [OF pl_ok(3), unfolded pl_round_def pl_first_def]]
    by (simp add: pl_first_def pl_round_def)
qed

lemmas pl_second_Ret = ok_report_Ret [OF pl_ok(2), of "after pl_poller pl_first" chain2, unfolded pl_second_def]

lemma pl_consumer: "consumer_returns ew_engine"
  by (auto simp: consumer_returns_def returns_def ew_engine_def engine_New_def ew_good_def ew_reorged_def ew_record_def
      SyncsEmitter_def ew_client_def ew_sync_def split: prod.splits)

section \<open>The engine never meets an unknown reorged block\<close>

text \<open>
  C5. The two memories fit. When the engine clears no further ahead than the poller
  (\<open>MaxGoBackRetries\<close> is not 0), a report of the poller never contains a reorged block the engine
  does not know, however many rounds were run before, so a round returns whenever the service,
  the gateway and the emitter's sync do: the panic on nil metadata is out of reach.
\<close>

theorem pipeline_engine_returns:
  assumes "watcher_pipeline S ss_map ss_ok T mt_map mt_ok L" "pipeline S T L e num p t rs"
    "memory_fits (WatcherConfig (eng_client e))" "tracker p \<noteq> None" "0 < a" "a \<le> b" "unat b < 2 ^ 63"
    "Poll lf S L a b p s = Ret (((Some r, er), p'), s')" "list_all (\<lambda>g. Number g = num (Block_String L g)) (GoodBlocks r)"
    "consumer_returns e"
  shows "(\<forall>old\<in>set (ReorgedBlocks r). metadata_abs mt_map t (Block_String L old) \<noteq> None) \<and> returns (handle_result T L e r t w)"
proof -
  note env = assms(1)
  have ok: "watcher_pipeline.pipe_ok S ss_map ss_ok T mt_map L e num p t rs"
    by (rule watcher_pipeline.pipeline_ok [OF env assms(2,3)])
  obtain m bm t' where out: "poller_env.fetched S s a b p bm m"
      "poller_env.poll_outcome S ss_map ss_ok a b p (Poller_Correct.mark bm (watched S p) (u64_range a b) m) t' r er p'"
    using watcher_pipeline.pipe_poll [OF env ok assms(4-8)] by blast
  have known: "\<forall>old\<in>set (ReorgedBlocks r). metadata_abs mt_map t (Block_String L old) \<noteq> None"
    using watcher_pipeline.pipe_report(3) [OF env ok out assms(9)] by blast
  have mt: "metadata_tracker T mt_map mt_ok L" using env by (simp add: watcher_pipeline_def)
  have "returns (spec_round L e r (metadata_abs mt_map t) w)" by (rule spec_round_returns [OF assms(10) known])
  then have "returns (handle_result T L e r t w)"
    using metadata_tracker.handle_result_refines_aux [OF mt watcher_pipeline.pipe_engine(1) [OF env ok], of e r w]
    by (cases "handle_result T L e r t w") (auto simp: returns_def)
  then show ?thesis using known by blast
qed

theorem pipeline_engine_returns_witness:
  "map Hash (ReorgedBlocks (report pl_second)) = [60] \<and>
   returns (handle_result list_ss short_lib ew_engine (report pl_second) (round_state pl_round) (round_world pl_round))"
proof -
  have "map Hash (ReorgedBlocks (report pl_second)) = [60]" by code_simp
  then show ?thesis
    using pipeline_engine_returns [OF spl.watcher_pipeline_axioms pl_run pl_memory pl_tracker(2) _ _ _ pl_second_Ret
        pl_honest(2) [unfolded pl_second_def] pl_consumer]
    by (simp add: pl_second_def)
qed



end
