(* ===== verification/Emitter_Theorems.thy ===== *)
theory Emitter_Theorems
  imports Emitter
begin

text \<open>
  What the emitter does over whole runs of \<open>Loop\<close>: the ranges it polls, how often it goes back,
  how it stops, and what its two status objects hold.
\<close>

section \<open>The computed range\<close>

text \<open>
  No error of the gateway or the node is the emitter's own unexported \<open>errNoNewBlock\<close>.
\<close>

definition foreign_errors :: "'w emitter \<Rightarrow> bool" where
  "foreign_errors e \<longleftrightarrow>
     (\<forall>w n x w'. em_stateDataGateway e w = Ret ((n, Some x), w') \<longrightarrow> \<not> errors_Is x errNoNewBlock) \<and>
     (\<forall>w n x w'. em_BlockNumber e w = Ret ((n, Some x), w') \<longrightarrow> \<not> errors_Is x errNoNewBlock)"

text \<open>The status and the last block the method goes on with once the gateway has answered.\<close>

definition first_status :: "err \<Rightarrow> emitterStatus \<Rightarrow> emitterStatus" where
  "first_status e1 prev = (if e1 \<noteq> None then prev\<lparr>GoBackFirstStart := False\<rparr> else prev)"

definition first_block :: "'w emitter \<Rightarrow> u64 \<Rightarrow> err \<Rightarrow> u64" where
  "first_block e lst0 e1 = (if e1 \<noteq> None then StartBlock (conf e) else lst0)"

lemma first_status_cases: "first_status e1 prev = prev \<or> first_status e1 prev = prev\<lparr>GoBackFirstStart := False\<rparr>"
  by (simp add: first_status_def)

text \<open>What it does with the head.\<close>

definition from_head ::
    "lib \<Rightarrow> 'w emitter \<Rightarrow> emitterStatus \<Rightarrow> u64 \<Rightarrow> (u64 \<times> err) \<times> 'w \<Rightarrow> (((emitterStatus option \<times> err) \<times> emitterStatus) \<times> 'w) go" where
  "from_head L e prev1 lst h =
     (case h of ((cur, e2), w2) \<Rightarrow>
        if e2 \<noteq> None then Ret (((None, errors_Wrap e2 ''failed to get current block number from node''), prev1), w2)
        else if lst = cur \<and> \<not> GoBackFirstStart prev1 then Ret (((None, Some (ErrWrap errNoNewBlock ''block %d'')), prev1), w2)
        else
          let ((f, t, e3), prev3) = computeFromBlockToBlock L (prev1\<lparr>CurrentBlock := cur, LastRecordedBlock := lst\<rparr>) cur lst (FilterRange (conf e))
                (MaxGoBackRetries (conf e)) (StartBlock (conf e)) (ep_DoReorg (em_poller e) w2)
          in if e3 \<noteq> None then Ret (((None, errors_Wrap e3 ''failed to compute fromBlockToBlock''), prev3), w2)
             else Ret (((Some \<lparr>st_FromBlock = (if f < StartBlock (conf e) then StartBlock (conf e) else f), st_ToBlock = t, CurrentBlock = cur,
               LastRecordedBlock = lst, GoBackFirstStart = False, IsReorging = IsReorging prev3, RetriesCount = RetriesCount prev3\<rparr>, None), prev3), w2))"

lemma method_from_head:
  assumes "em_stateDataGateway e w = Ret ((lst0, e1), w1)" "\<not> (e1 \<noteq> None \<and> \<not> err_Is e1 ErrRecordNotFound)"
  shows "emitter_computeFromBlockToBlock L e prev w = go_bind (em_BlockNumber e w1) (from_head L e (first_status e1 prev) (first_block e lst0 e1))"
  unfolding emitter_computeFromBlockToBlock_def assms(1) go_bind_simps prod.case first_status_def first_block_def from_head_def [abs_def]
  by (simp only: assms(2) if_False Let_def case_prod_unfold)

text \<open>The outcome of the method, inverted: it either fails or returns a new status.\<close>

lemma method_cases:
  assumes "emitter_computeFromBlockToBlock L e prev w = Ret (((ns, er), prev'), w')"
  obtains (gateway) lst0 x where "em_stateDataGateway e w = Ret ((lst0, Some x), w')" "\<not> errors_Is x ErrRecordNotFound"
      "ns = None" "er = Some (ErrWrap x ''failed to get last recorded block from Redis'')" "prev' = prev"
    | (head) lst0 e1 w1 cur e2 where "em_stateDataGateway e w = Ret ((lst0, e1), w1)" "e1 = None \<or> err_Is e1 ErrRecordNotFound"
      "em_BlockNumber e w1 = Ret ((cur, e2), w')"
      "from_head L e (first_status e1 prev) (first_block e lst0 e1) ((cur, e2), w') = Ret (((ns, er), prev'), w')"
proof -
  from assms obtain lst0 e1 w1 where g: "em_stateDataGateway e w = Ret ((lst0, e1), w1)"
    by (auto simp: emitter_computeFromBlockToBlock_def go_bind_Ret_iff)
  show thesis
  proof (cases "e1 \<noteq> None \<and> \<not> err_Is e1 ErrRecordNotFound")
    case True
    then obtain x where x: "e1 = Some x" "\<not> errors_Is x ErrRecordNotFound" by auto
    then show thesis using assms g by (intro gateway [of lst0 x]) (auto simp: emitter_computeFromBlockToBlock_def)
  next
    case False
    note m = assms [unfolded method_from_head [OF g False] go_bind_Ret_iff]
    obtain cur e2 w2 where h: "em_BlockNumber e w1 = Ret ((cur, e2), w2)"
        "from_head L e (first_status e1 prev) (first_block e lst0 e1) ((cur, e2), w2) = Ret (((ns, er), prev'), w')"
      using m by (metis prod.exhaust)
    then have "w2 = w'" by (auto simp: from_head_def Let_def split: if_splits prod.splits)
    then show thesis using head [OF g _ h(1) [unfolded \<open>w2 = w'\<close>]] h(2) False by auto
  qed
qed

lemma from_head_cases:
  assumes "from_head L e prev1 lst ((cur, e2), w') = Ret (((ns, er), prev'), w')"
  obtains (node) x where "e2 = Some x" "ns = None" "er = Some (ErrWrap x ''failed to get current block number from node'')" "prev' = prev1"
    | (no_new) "e2 = None" "lst = cur" "\<not> GoBackFirstStart prev1" "ns = None" "er = Some (ErrWrap errNoNewBlock ''block %d'')" "prev' = prev1"
    | (computed) f t e3 where "e2 = None" "computeFromBlockToBlock L (prev1\<lparr>CurrentBlock := cur, LastRecordedBlock := lst\<rparr>) cur lst (FilterRange (conf e))
         (MaxGoBackRetries (conf e)) (StartBlock (conf e)) (ep_DoReorg (em_poller e) w') = ((f, t, e3), prev')"
      "lst = cur \<longrightarrow> GoBackFirstStart prev1"
      "e3 \<noteq> None \<longrightarrow> ns = None \<and> er = errors_Wrap e3 ''failed to compute fromBlockToBlock''"
      "e3 = None \<longrightarrow> er = None \<and> ns = Some \<lparr>st_FromBlock = (if f < StartBlock (conf e) then StartBlock (conf e) else f),
         st_ToBlock = t, CurrentBlock = cur, LastRecordedBlock = lst, GoBackFirstStart = False,
         IsReorging = IsReorging prev', RetriesCount = RetriesCount prev'\<rparr>"
proof -
  obtain f t e3 prev3 where c: "computeFromBlockToBlock L (prev1\<lparr>CurrentBlock := cur, LastRecordedBlock := lst\<rparr>) cur lst
      (FilterRange (conf e)) (MaxGoBackRetries (conf e)) (StartBlock (conf e)) (ep_DoReorg (em_poller e) w') = ((f, t, e3), prev3)"
    by (metis prod.exhaust)
  consider "e2 \<noteq> None" | "e2 = None" "lst = cur \<and> \<not> GoBackFirstStart prev1" | "e2 = None" "\<not> (lst = cur \<and> \<not> GoBackFirstStart prev1)" by blast
  then show thesis
  proof cases
    case 1
    then obtain x where "e2 = Some x" by auto
    then show thesis using assms by (intro node [of x]) (auto simp: from_head_def)
  next
    case 2
    then show thesis using assms by (intro no_new) (auto simp: from_head_def)
  next
    case 3
    then show thesis using assms c by (intro computed [of f t e3]) (auto simp: from_head_def Let_def split: if_splits)
  qed
qed

lemma compute_cases:
  assumes "emitter_computeFromBlockToBlock L e prev w = Ret (((ns, er), prev'), w')"
  obtains (gateway) n x w1 where "em_stateDataGateway e w = Ret ((n, Some x), w1)" "\<not> errors_Is x ErrRecordNotFound"
      "ns = None" "er = Some (ErrWrap x ''failed to get last recorded block from Redis'')" "prev' = prev"
    | (node) w1 c x where "em_BlockNumber e w1 = Ret ((c, Some x), w')" "ns = None"
      "er = Some (ErrWrap x ''failed to get current block number from node'')"
      "prev' = prev \<or> prev' = prev\<lparr>GoBackFirstStart := False\<rparr>"
    | (no_new) "ns = None" "er = Some (ErrWrap errNoNewBlock ''block %d'')" "\<not> GoBackFirstStart prev'"
      "prev' = prev \<or> prev' = prev\<lparr>GoBackFirstStart := False\<rparr>"
    | (computed) prev1 cur lst f t e3 where "prev1 = prev \<or> prev1 = prev\<lparr>GoBackFirstStart := False\<rparr>"
      "computeFromBlockToBlock L (prev1\<lparr>CurrentBlock := cur, LastRecordedBlock := lst\<rparr>) cur lst (FilterRange (conf e))
         (MaxGoBackRetries (conf e)) (StartBlock (conf e)) (ep_DoReorg (em_poller e) w') = ((f, t, e3), prev')"
      "lst = cur \<longrightarrow> GoBackFirstStart prev1"
      "e3 \<noteq> None \<longrightarrow> ns = None \<and> er = errors_Wrap e3 ''failed to compute fromBlockToBlock''"
      "e3 = None \<longrightarrow> er = None \<and> ns = Some \<lparr>st_FromBlock = (if f < StartBlock (conf e) then StartBlock (conf e) else f),
         st_ToBlock = t, CurrentBlock = cur, LastRecordedBlock = lst, GoBackFirstStart = False,
         IsReorging = IsReorging prev', RetriesCount = RetriesCount prev'\<rparr>"
  using assms
proof (cases rule: method_cases)
  case (gateway lst0 x)
  then show thesis using that(1) by blast
next
  case (head lst0 e1 w1 cur e2)
  note p = first_status_cases [of e1 prev]
  from head(4) show thesis
  proof (cases rule: from_head_cases)
    case (node x)
    then show thesis using that(2) head(3) p by metis
  next
    case no_new
    then show thesis using that(3) p by metis
  next
    case (computed f t e3)
    then show thesis using that(4) [OF p] by blast
  qed
qed

lemma compute_status:
  assumes "computeFromBlockToBlock L prev cur lst r mx start reorg = ((f, t, e3), prev')"
  shows "IsReorging prev' = IsReorging prev" "RetriesCount prev' = RetriesCount prev" "\<not> GoBackFirstStart prev'"
    "e3 = None \<Longrightarrow> IsReorging prev \<Longrightarrow> \<not> GoBackFirstStart prev \<Longrightarrow> RetriesCount prev \<le> mx"
  using assms
  by (auto simp: computeFromBlockToBlock_def fromBlockToBlockIsReorging_def Let_def split: if_splits prod.splits)

lemma method_keeps_retries:
  assumes "emitter_computeFromBlockToBlock L e prev w = Ret (((ns, er), prev'), w')"
  shows "IsReorging prev' = IsReorging prev" "RetriesCount prev' = RetriesCount prev"
    "GoBackFirstStart prev' \<Longrightarrow> GoBackFirstStart prev"
  using assms by (cases rule: compute_cases; use compute_status in fastforce)+

section \<open>Invariant of the two status objects\<close>

inductive emitter_reach :: "lib \<Rightarrow> 'w emitter \<Rightarrow> 'w go_context \<Rightarrow> emitter_phase \<times> 'w \<Rightarrow> bool"
  for L e ctx where
  start: "emitter_reach L e ctx (Loop_start, w)"
| step: "emitter_reach L e ctx cfg \<Longrightarrow> Loop_step L e ctx cfg = Ret cfg' \<Longrightarrow> emitter_reach L e ctx cfg'"

definition calm :: "emitterStatus \<Rightarrow> bool" where
  "calm s \<longleftrightarrow> \<not> IsReorging s \<and> RetriesCount s = 0"

definition status_ok :: "config \<Rightarrow> emitterStatus \<Rightarrow> bool" where
  "status_ok cfg s \<longleftrightarrow> (\<not> IsReorging s \<longrightarrow> RetriesCount s = 0) \<and> (GoBackFirstStart s \<longrightarrow> \<not> IsReorging s) \<and>
     unat (RetriesCount s) \<le> unat (MaxGoBackRetries cfg) + 1"

definition emit_state_ok :: "config \<Rightarrow> emit_state \<Rightarrow> bool" where
  "emit_state_ok cfg st \<longleftrightarrow> calm (outer st) \<and> status_ok cfg (status st)"

definition phase_ok :: "config \<Rightarrow> emitter_phase \<Rightarrow> bool" where
  "phase_ok cfg ph \<longleftrightarrow> (case ph of AtLoop s \<Rightarrow> calm s | InEmit st \<Rightarrow> emit_state_ok cfg st | Stopped _ \<Rightarrow> True)"

lemma calm_status_ok: "calm s \<Longrightarrow> status_ok cfg s"
  by (simp add: calm_def status_ok_def)

lemma status_write [simp]: "status (write_status s st) = s"
  by (simp add: status_def write_status_def split: option.split)

lemma emit_state_write:
  assumes "emit_state_ok cfg st" "IsReorging s = IsReorging (status st)" "RetriesCount s = RetriesCount (status st)"
    "GoBackFirstStart s \<Longrightarrow> GoBackFirstStart (status st)"
  shows "emit_state_ok cfg (write_status s st)"
  using assms by (cases "local_status st")
    (auto simp: emit_state_ok_def status_ok_def calm_def write_status_def status_def)

lemma emit_state_update:
  assumes "calm (outer st)" "\<not> GoBackFirstStart n" "RetriesCount n \<le> MaxGoBackRetries cfg" "MaxGoBackRetries cfg \<noteq> - 1"
  shows "emit_state_ok cfg (updateStatus b (Some n) st)"
proof -
  have "unat (RetriesCount n) + 1 < 2 ^ 64"
  proof -
    have "RetriesCount n \<noteq> - 1" using assms(3,4) by (metis word_n1_ge order_antisym)
    then have "RetriesCount n + 1 \<noteq> 0" by (metis add.commute add_eq_0_iff)
    then have "unat (RetriesCount n + 1) = unat (RetriesCount n) + 1" by (metis Suc_eq_plus1 add.commute unatSuc)
    then show ?thesis using unat_less64 [of "RetriesCount n + 1"] by simp
  qed
  then have "unat (RetriesCount n + 1) = unat (RetriesCount n) + 1" by (rule unat_Suc_small)
  then show ?thesis using assms
    by (simp add: emit_state_ok_def status_def updateStatus_def reorg_status_def status_ok_def word_le_nat_alt)
qed

text \<open>The new status of a round, if it has one.\<close>

lemma method_new_status:
  assumes "emitter_computeFromBlockToBlock L e prev w = Ret (((ns, er), prev'), w')" "status_ok (conf e) prev" "foreign_errors e"
  shows "er = None \<Longrightarrow> \<exists>n. ns = Some n \<and> \<not> GoBackFirstStart n \<and> RetriesCount n \<le> MaxGoBackRetries (conf e) \<and>
           StartBlock (conf e) \<le> st_FromBlock n"
    "GoBackFirstStart prev' \<Longrightarrow> \<not> err_Is er errNoNewBlock"
proof -
  show "\<exists>n. ns = Some n \<and> \<not> GoBackFirstStart n \<and> RetriesCount n \<le> MaxGoBackRetries (conf e) \<and> StartBlock (conf e) \<le> st_FromBlock n"
    if er: "er = None"
    using assms(1)
  proof (cases rule: compute_cases)
    case (computed prev1 cur lst f t e3)
    then have e3: "e3 = None" using er by (cases e3) auto
    have ok: "status_ok (conf e) prev1" using computed(1) assms(2) by (auto simp: status_ok_def)
    have "RetriesCount prev' \<le> MaxGoBackRetries (conf e)"
    proof (cases "IsReorging prev1")
      case True
      then show ?thesis using compute_status(2,4) [OF computed(2)] e3 ok by (simp add: status_ok_def)
    next
      case False
      then show ?thesis using compute_status(2) [OF computed(2)] ok by (simp add: status_ok_def)
    qed
    then show ?thesis using computed(5) e3 by (simp add: not_less)
  qed (use er in simp_all)
  show "\<not> err_Is er errNoNewBlock" if g: "GoBackFirstStart prev'"
    using assms(1)
  proof (cases rule: compute_cases)
    case (gateway n x w1)
    then have "\<not> errors_Is x errNoNewBlock" using assms(3) unfolding foreign_errors_def by blast
    then show ?thesis using gateway by (simp add: emitter_error_defs)
  next
    case (node w1 c x)
    then have "\<not> errors_Is x errNoNewBlock" using assms(3) unfolding foreign_errors_def by blast
    then show ?thesis using node by (simp add: emitter_error_defs)
  next
    case no_new
    then show ?thesis using g by simp
  next
    case computed
    then show ?thesis using compute_status(3) [OF computed(2)] g by simp
  qed
qed

lemma round_keeps:
  assumes "loopEmit_round L e ctx st w = Ret ((er, st'), w')" "emit_state_ok (conf e) st" "foreign_errors e"
    "MaxGoBackRetries (conf e) \<noteq> - 1"
  shows "emit_state_ok (conf e) st'"
proof (cases "ctx_Done ctx w")
  case True
  then show ?thesis using assms(1,2) by (simp add: loopEmit_round_def)
next
  case False
  then obtain ns err0 prev w1 where c: "emitter_computeFromBlockToBlock L e (status st) w = Ret (((ns, err0), prev), w1)"
    using assms(1) by (auto simp: loopEmit_round_def go_bind_Ret_iff)
  have ok: "status_ok (conf e) (status st)" "calm (outer st)" using assms(2) by (simp_all add: emit_state_ok_def)
  have w: "emit_state_ok (conf e) (write_status prev st)"
    using emit_state_write [OF assms(2)] method_keeps_retries [OF c] by blast
  have calm: "calm (outer (write_status prev st))" using w by (simp add: emit_state_ok_def)
  have nb: "\<not> (GoBackFirstStart prev \<and> err_Is err0 errNoNewBlock)" using method_new_status(2) [OF c ok(1) assms(3)] by blast
  show ?thesis
  proof (cases err0)
    case (Some x)
    then show ?thesis using assms(1) False c w nb by (auto simp: loopEmit_round_def Let_def split: if_splits)
  next
    case None
    then obtain n where n: "ns = Some n" "\<not> GoBackFirstStart n" "RetriesCount n \<le> MaxGoBackRetries (conf e)"
      using method_new_status(1) [OF c ok(1) assms(3)] by blast
    have up: "emit_state_ok (conf e) (updateStatus b ns (write_status prev st))" for b
      using emit_state_update [OF calm n(2,3) assms(4)] n(1) by simp
    show ?thesis using assms(1) False c w up None
      by (auto simp: loopEmit_round_def Let_def go_bind_Ret_iff nil_call_def split: if_splits option.splits)
  qed
qed

lemma Loop_keeps:
  assumes "Loop_step L e ctx (ph, w) = Ret (ph', w')" "phase_ok (conf e) ph" "foreign_errors e" "MaxGoBackRetries (conf e) \<noteq> - 1"
  shows "phase_ok (conf e) ph'"
proof (cases ph)
  case (AtLoop s)
  then have "calm s" using assms(2) by (simp add: phase_ok_def)
  then have "calm (s\<lparr>GoBackFirstStart := True\<rparr>)" by (simp add: calm_def)
  then show ?thesis using AtLoop assms(1) calm_status_ok [of "s\<lparr>GoBackFirstStart := True\<rparr>" "conf e"]
    by (auto simp: Loop_step_def go_bind_Ret_iff phase_ok_def emit_state_ok_def status_def split: if_splits)
next
  case (InEmit st)
  then obtain er st1 w1 where r: "loopEmit_round L e ctx st w = Ret ((er, st1), w1)"
    using assms(1) by (auto simp: Loop_step_def go_bind_Ret_iff)
  have "emit_state_ok (conf e) st1"
    using round_keeps [OF r _ assms(3,4)] assms(2) InEmit by (simp add: phase_ok_def)
  then show ?thesis using InEmit assms(1) r
    by (cases er) (auto simp: Loop_step_def go_bind_Ret_iff phase_ok_def emit_state_ok_def)
next
  case (Stopped x)
  then show ?thesis using assms(1) by (auto simp: Loop_step_def phase_ok_def)
qed

lemma emitter_reach_ok:
  assumes "emitter_reach L e ctx cfg" "foreign_errors e" "MaxGoBackRetries (conf e) \<noteq> - 1"
  shows "phase_ok (conf e) (fst cfg)"
  using assms
proof (induction rule: emitter_reach.induct)
  case (start w)
  show ?case by (simp add: phase_ok_def Loop_start_def calm_def zero_status_def)
next
  case (step cfg cfg')
  then show ?case using Loop_keeps [of L e ctx "fst cfg" "snd cfg" "fst cfg'" "snd cfg'"] by simp
qed

section \<open>A sample environment\<close>

text \<open>
  A world with a recorded block, the chain's head and whether the context is done. Its poller
  reports every poll as good up to its last block, or, below block 200, as reorged from its first
  block; its consumer records the last good block of each result.
\<close>

type_synonym sample_world = "u64 option \<times> u64 \<times> bool"

definition sw_gateway :: "sample_world \<Rightarrow> ((u64 \<times> err) \<times> sample_world) go" where
  "sw_gateway w = (case w of (None, h, d) \<Rightarrow> Ret ((0, Some ErrRecordNotFound), w) | (Some n, h, d) \<Rightarrow> Ret ((n, None), w))"

definition sw_head :: "sample_world \<Rightarrow> ((u64 \<times> err) \<times> sample_world) go" where
  "sw_head w = (case w of (r, h, d) \<Rightarrow> Ret ((h, None), w))"

definition sw_result :: "u64 \<Rightarrow> u64 \<Rightarrow> u64 \<Rightarrow> poller_result" where
  "sw_result a b l = new_PollerResult\<lparr>FromBlock := a, ToBlock := b, res_LastGoodBlock := l\<rparr>"

definition sw_Poll :: "u64 \<Rightarrow> u64 \<Rightarrow> sample_world \<Rightarrow> ((poller_result option \<times> err) \<times> sample_world) go" where
  "sw_Poll a b w =
     (if b < 200 then Ret ((Some (sw_result a b a), Some ErrFromBlockReorged), w)
      else if b < 300 then Ret ((None, Some ErrChainIsReorging), w)
      else Ret ((Some (sw_result a b b), None), w))"

definition sw_DoReorg :: "sample_world \<Rightarrow> bool" where
  "sw_DoReorg w = True"

definition sw_send :: "poller_result \<Rightarrow> sample_world \<Rightarrow> sample_world go" where
  "sw_send r w = (case w of (_, h, d) \<Rightarrow> Ret (Some (res_LastGoodBlock r), h, d))"

definition sw_close :: "sample_world \<Rightarrow> sample_world go" where
  "sw_close w = Ret w"

definition sw_send_err :: "go_error \<Rightarrow> sample_world \<Rightarrow> sample_world go" where
  "sw_send_err x w = Ret w"

definition sw_done :: "sample_world \<Rightarrow> bool" where
  "sw_done w = snd (snd w)"

definition sw_always :: "sample_world \<Rightarrow> bool" where
  "sw_always w = True"

definition sw_policy :: "sample_world \<Rightarrow> policy" where "sw_policy w = PolicyFast"
definition sw_set_policy :: "policy \<Rightarrow> sample_world \<Rightarrow> err \<times> sample_world" where "sw_set_policy l w = (None, w)"
definition sw_set_reorg :: "bool \<Rightarrow> sample_world \<Rightarrow> sample_world go" where "sw_set_reorg b w = Ret w"
definition sw_none :: "sample_world \<Rightarrow> 'a list option" where "sw_none w = None"
definition sw_set :: "'a \<Rightarrow> sample_world \<Rightarrow> sample_world" where "sw_set x w = w"

definition sw_emitter :: "sample_world emitter" where
  "sw_emitter = emitter_New
     \<lparr>NodeURL = [], StartBlock = 5, FilterRange = 10, cfg_DoReorg = True, cfg_DoHeader = False,
      MaxGoBackRetries = 1, LoopInterval = 0, LogLevel = 0, cfg_Policy = PolicyFast\<rparr>
     sw_head sw_gateway \<lparr>ep_Poll = sw_Poll, ep_Policy = sw_policy, ep_SetPolicy = sw_set_policy, ep_SetDoReorg = sw_set_reorg, ep_DoReorg = sw_DoReorg,
       ep_SetDoHeader = sw_set, ep_DoHeader = sw_DoReorg, ep_Addresses = sw_none, ep_Topics = sw_none,
       ep_AddAddresses = sw_set, ep_AddTopics = sw_set, ep_SetAddresses = sw_set, ep_SetTopics = sw_set\<rparr> sw_close
     (Some \<lparr>ch_send = sw_send, ch_close = sw_close\<rparr>) (Some \<lparr>ch_send = sw_send_err, ch_close = sw_close\<rparr>)"

definition sw_ctx :: "sample_world go_context" where
  "sw_ctx = \<lparr>ctx_Done = sw_done, ctx_Err = ErrNew ''context canceled''\<rparr>"

definition sw_run :: "nat \<Rightarrow> sample_world \<Rightarrow> (emitter_phase \<times> sample_world) go" where
  "sw_run n w = Loop std_lib sw_emitter sw_ctx n (Loop_start, w)"

definition emitting :: "(emitter_phase \<times> 'w) go \<Rightarrow> (emit_state \<times> 'w) option" where
  "emitting x = (case x of Ret (InEmit st, w) \<Rightarrow> Some (st, w) | _ \<Rightarrow> None)"

lemma emitting_Ret: "emitting x = Some (st, w) \<longleftrightarrow> x = Ret (InEmit st, w)"
  by (auto simp: emitting_def split: go.splits emitter_phase.splits)

lemma Loop_reach: "emitter_reach L e ctx cfg \<Longrightarrow> Loop L e ctx n cfg = Ret cfg' \<Longrightarrow> emitter_reach L e ctx cfg'"
  by (induction n arbitrary: cfg) (auto simp: go_bind_Ret_iff intro: emitter_reach.step)

lemma sw_reach: "emitting (sw_run n w) = Some (st, w') \<Longrightarrow> emitter_reach std_lib sw_emitter sw_ctx (InEmit st, w')"
  unfolding emitting_Ret sw_run_def by (rule Loop_reach [OF emitter_reach.start])

lemma sw_foreign: "foreign_errors sw_emitter" "MaxGoBackRetries (conf sw_emitter) \<noteq> - 1"
  by (auto simp: foreign_errors_def sw_emitter_def emitter_New_def sw_gateway_def sw_head_def error_defs emitter_error_defs
      split: option.splits)

section \<open>Properties of the emitter\<close>

text \<open>
  C14. However \<open>Loop\<close> got there, the emitter goes back at most \<open>MaxGoBackRetries\<close> times in a row:
  the retry counter of the current status never exceeds the maximum by more than the one poll
  after which the emitter gives up, and it is zero unless the chain is reorganising.
\<close>

theorem Loop_retries_bounded:
  assumes "foreign_errors e" "MaxGoBackRetries (conf e) \<noteq> - 1" "emitter_reach L e ctx (InEmit st, w)"
  shows "unat (RetriesCount (status st)) \<le> unat (MaxGoBackRetries (conf e)) + 1 \<and>
    (\<not> IsReorging (status st) \<longrightarrow> RetriesCount (status st) = 0)"
  using emitter_reach_ok [OF assms(3,1,2)] by (simp add: phase_ok_def emit_state_ok_def status_ok_def)

theorem Loop_retries_bounded_witness:
  "\<exists>st w. emitting (sw_run 3 (Some 80, 95, False)) = Some (st, w) \<and> RetriesCount (status st) = 2 \<and>
     unat (RetriesCount (status st)) \<le> unat (MaxGoBackRetries (conf sw_emitter)) + 1"
proof -
  have "(case emitting (sw_run 3 (Some 80, 95, False)) of Some (st, w) \<Rightarrow> RetriesCount (status st) = 2 | None \<Rightarrow> False)"
    by code_simp
  then obtain st w where st: "emitting (sw_run 3 (Some 80, 95, False)) = Some (st, w)" "RetriesCount (status st) = 2"
    by (auto split: option.splits)
  then show ?thesis using Loop_retries_bounded [OF sw_foreign sw_reach [OF st(1)]] by blast
qed

lemma max_retries_compute:
  assumes "IsReorging s" "\<not> GoBackFirstStart s" "MaxGoBackRetries (conf e) < RetriesCount s"
    "em_stateDataGateway e w = Ret ((n, None), w1)" "em_BlockNumber e w1 = Ret ((cur, None), w2)" "n \<noteq> cur"
  shows "\<exists>s'. emitter_computeFromBlockToBlock L e s w =
    Ret (((None, Some (ErrWrap (ErrWrap ErrMaxRetriesReached ''%d goBackRetries'') ''failed to compute fromBlockToBlock'')), s'), w2) \<and>
    \<not> GoBackFirstStart s'"
  using assms by (simp add: emitter_computeFromBlockToBlock_def computeFromBlockToBlock_def fromBlockToBlockIsReorging_def Let_def)

text \<open>
  A round that finds the retry counter above the maximum, with new blocks to poll, polls
  nothing and makes \<open>loopEmit\<close> return \<open>ErrMaxRetriesReached\<close>.
\<close>

theorem loopEmit_max_retries:
  assumes "foreign_errors e" "MaxGoBackRetries (conf e) \<noteq> - 1" "emitter_reach L e ctx (InEmit st, w)"
    "MaxGoBackRetries (conf e) < RetriesCount (status st)" "\<not> ctx_Done ctx w"
    "em_stateDataGateway e w = Ret ((n, None), w1)" "em_BlockNumber e w1 = Ret ((cur, None), w2)" "n \<noteq> cur"
  shows "\<exists>x st'. loopEmit_round L e ctx st w = Ret ((Some x, st'), w2) \<and> errors_Is x ErrMaxRetriesReached"
proof -
  have ok: "status_ok (conf e) (status st)"
    using emitter_reach_ok [OF assms(3,1,2)] by (simp add: phase_ok_def emit_state_ok_def)
  have "RetriesCount (status st) \<noteq> 0" using assms(4) by auto
  then have "IsReorging (status st)" "\<not> GoBackFirstStart (status st)" using ok by (auto simp: status_ok_def)
  from max_retries_compute [OF this assms(4,6-8), of L] assms(5) show ?thesis
    by (auto simp: loopEmit_round_def Let_def emitter_error_defs)
qed

theorem loopEmit_max_retries_witness:
  "\<exists>st w x st'. emitting (sw_run 3 (Some 80, 95, False)) = Some (st, w) \<and>
     loopEmit_round std_lib sw_emitter sw_ctx st w = Ret ((Some x, st'), w) \<and> errors_Is x ErrMaxRetriesReached"
proof -
  have "(case emitting (sw_run 3 (Some 80, 95, False)) of
      Some (st, w) \<Rightarrow> RetriesCount (status st) = 2 \<and> w = (Some 71, 95, False) | None \<Rightarrow> False)"
    by code_simp
  then obtain st where st: "emitting (sw_run 3 (Some 80, 95, False)) = Some (st, (Some 71, 95, False))" "RetriesCount (status st) = 2"
    by (auto split: option.splits)
  have "MaxGoBackRetries (conf sw_emitter) < RetriesCount (status st)" by (simp add: st(2) sw_emitter_def emitter_New_def)
  from loopEmit_max_retries [OF sw_foreign sw_reach [OF st(1)] this, of 71 "(Some 71, 95, False)" 95 "(Some 71, 95, False)"]
  show ?thesis using st(1)
    by (simp add: sw_ctx_def sw_done_def sw_emitter_def emitter_New_def sw_gateway_def sw_head_def)
qed

text \<open>
  C21. The first poll of every call of \<open>loopEmit\<close> does not go back at all when a block is recorded:
  it starts right after the recorded block (or at the start block) and spans one filter range,
  because the retry counter of the status object that \<open>Loop\<close> owns is always zero.
\<close>

theorem Loop_restart_range:
  assumes "foreign_errors e" "MaxGoBackRetries (conf e) \<noteq> - 1" "emitter_reach L e ctx (InEmit st, w)"
    "GoBackFirstStart (status st)" "em_stateDataGateway e w = Ret ((n, None), w1)" "em_BlockNumber e w1 = Ret ((cur, None), w2)"
  shows "\<exists>ns prev'. emitter_computeFromBlockToBlock L e (status st) w = Ret (((Some ns, None), prev'), w2) \<and>
    st_FromBlock ns = (if n + 1 < StartBlock (conf e) then StartBlock (conf e) else n + 1) \<and>
    st_ToBlock ns = n + FilterRange (conf e)"
proof -
  have "status_ok (conf e) (status st)"
    using emitter_reach_ok [OF assms(3,1,2)] by (simp add: phase_ok_def emit_state_ok_def)
  then have "RetriesCount (status st) = 0" using assms(4) by (simp add: status_ok_def)
  then show ?thesis using assms(4-6)
    by (simp add: emitter_computeFromBlockToBlock_def computeFromBlockToBlock_def fromBlockToBlockGoBackFirstRun_def Let_def)
qed

theorem Loop_restart_range_witness:
  "\<exists>st ns prev'. emitting (sw_run 1 (Some 380, 395, False)) = Some (st, (Some 380, 395, False)) \<and>
     emitter_computeFromBlockToBlock std_lib sw_emitter (status st) (Some 380, 395, False) = Ret (((Some ns, None), prev'), (Some 380, 395, False)) \<and>
     st_FromBlock ns = 381 \<and> st_ToBlock ns = 390"
proof -
  have "(case emitting (sw_run 1 (Some 380, 395, False)) of
      Some (st, w) \<Rightarrow> GoBackFirstStart (status st) \<and> w = (Some 380, 395, False) | None \<Rightarrow> False)"
    by code_simp
  then obtain st where st: "emitting (sw_run 1 (Some 380, 395, False)) = Some (st, (Some 380, 395, False))" "GoBackFirstStart (status st)"
    by (auto split: option.splits)
  from Loop_restart_range [OF sw_foreign sw_reach [OF st(1)] st(2), of 380 "(Some 380, 395, False)" 395 "(Some 380, 395, False)"]
  show ?thesis using st(1)
    by (auto simp: sw_emitter_def emitter_New_def sw_gateway_def sw_head_def)
qed

text \<open>
  C22. Shutting down. Once the context is done and stays so, \<open>Loop\<close> returns after at most two
  more steps, wherever it was, provided the consumer takes the last error and the channels are
  open; the error it returns is the context's.
\<close>

theorem Loop_stops:
  assumes "\<forall>w. ctx_Done ctx w" "pollResultChan e = Some rc" "errChan e = Some ec"
    "\<forall>w. returns (ch_close rc w)" "\<forall>w. returns (ch_close ec w)" "\<forall>x w. returns (ch_send ec x w)"
  shows "\<exists>x w'. Loop L e ctx 2 (ph, w) = Ret (Stopped x, w') \<and> ((\<forall>y. ph \<noteq> Stopped y) \<longrightarrow> errors_Is x (ctx_Err ctx))"
proof -
  have stop: "\<exists>w'. Loop_step L e ctx (AtLoop s, v) =
      Ret (Stopped (ErrWrap (ctx_Err ctx) ''emitter was told to shutdown - Loop context done''), w')" for s v
  proof -
    obtain v1 where "ch_close rc v = Ret v1" using assms(4) by (auto simp: returns_def)
    moreover obtain v2 where "ch_close ec v1 = Ret v2" using assms(5) by (auto simp: returns_def)
    ultimately show ?thesis using assms(1-3) by (simp add: Loop_step_def Shutdown_def close_chan_def)
  qed
  show ?thesis
  proof (cases ph)
    case (AtLoop s)
    obtain v where "Loop_step L e ctx (AtLoop s, w) =
      Ret (Stopped (ErrWrap (ctx_Err ctx) ''emitter was told to shutdown - Loop context done''), v)" using stop by blast
    then show ?thesis using AtLoop by (simp add: numeral_2_eq_2 Loop_step_def [of L e ctx "(Stopped _, _)"])
  next
    case (InEmit st)
    let ?x = "ErrWrap (ErrWrap (ctx_Err ctx) ''exiting loopEmit'') ''error in loopEmit''"
    obtain v where v: "ch_send ec ?x w = Ret v" using assms(6) by (auto simp: returns_def)
    have "Loop_step L e ctx (InEmit st, w) = Ret (AtLoop (outer st), v)"
      using assms(1,3) v by (simp add: Loop_step_def loopEmit_round_def emitError_def)
    moreover obtain v2 where "Loop_step L e ctx (AtLoop (outer st), v) =
      Ret (Stopped (ErrWrap (ctx_Err ctx) ''emitter was told to shutdown - Loop context done''), v2)" using stop by blast
    ultimately show ?thesis using InEmit by (simp add: numeral_2_eq_2)
  next
    case (Stopped x)
    then show ?thesis by (simp add: numeral_2_eq_2 Loop_step_def)
  qed
qed

theorem Loop_stops_witness:
  "\<exists>x w'. Loop std_lib sw_emitter (sw_ctx\<lparr>ctx_Done := sw_always\<rparr>) 2 (Loop_start, (None, 9, True)) = Ret (Stopped x, w') \<and>
     errors_Is x (ErrNew ''context canceled'')"
  using Loop_stops [of "sw_ctx\<lparr>ctx_Done := sw_always\<rparr>" sw_emitter "\<lparr>ch_send = sw_send, ch_close = sw_close\<rparr>"
      "\<lparr>ch_send = sw_send_err, ch_close = sw_close\<rparr>" std_lib Loop_start "(None, 9, True)"]
  by (auto simp: sw_ctx_def sw_always_def sw_emitter_def emitter_New_def sw_close_def sw_send_err_def Loop_start_def)

text \<open>
  C23. A poll that fails with an error of the kind \<open>ErrChainIsReorging\<close> and no result, as a poll
  that met differing hashes does, makes the emitter panic when it emits the missing result.
\<close>

theorem loopEmit_nil_result_panics:
  assumes "\<not> ctx_Done ctx w" "emitter_computeFromBlockToBlock L e (status st) w = Ret (((Some ns, None), prev), w1)"
    "ep_Poll (em_poller e) (st_FromBlock ns) (st_ToBlock ns) w1 = Ret ((None, Some x), w2)" "errors_Is x ErrChainIsReorging"
  shows "loopEmit_round L e ctx st w = Panic ''nil PollerResult got sent to emitFilterREsult''"
  using assms by (simp add: loopEmit_round_def Let_def emitFilterResult_def)

definition computed_status :: "(((emitterStatus option \<times> err) \<times> emitterStatus) \<times> 'w) go \<Rightarrow> (emitterStatus \<times> emitterStatus \<times> 'w) option" where
  "computed_status x = (case x of Ret (((Some ns, None), prev), w) \<Rightarrow> Some (ns, prev, w) | _ \<Rightarrow> None)"

lemma computed_status_Ret: "computed_status x = Some (ns, prev, w) \<longleftrightarrow> x = Ret (((Some ns, None), prev), w)"
  by (auto simp: computed_status_def split: go.splits option.splits)

theorem loopEmit_nil_result_panics_witness:
  "\<exists>st. emitting (sw_run 1 (Some 250, 295, False)) = Some (st, (Some 250, 295, False)) \<and>
     loopEmit_round std_lib sw_emitter sw_ctx st (Some 250, 295, False) = Panic ''nil PollerResult got sent to emitFilterREsult''"
proof -
  let ?w = "(Some 250, 295, False) :: sample_world" and ?m = "emitting (sw_run 1 (Some 250, 295, False))"
  let ?c = "\<lambda>st. computed_status (emitter_computeFromBlockToBlock std_lib sw_emitter (status st) ?w)"
  have e: "map_option snd ?m = Some ?w" by code_simp
  then obtain st where st1: "?m = Some (st, ?w)" by auto
  have "map_option (\<lambda>(st, w). map_option (\<lambda>(ns, prev, w1). (st_FromBlock ns, st_ToBlock ns, w1)) (?c st)) ?m =
      Some (Some (251, 260, ?w))" by code_simp
  then have "map_option (\<lambda>(ns, prev, w1). (st_FromBlock ns, st_ToBlock ns, w1)) (?c st) = Some (251, 260, ?w)"
    unfolding st1 by simp
  then obtain ns prev where c: "?c st = Some (ns, prev, ?w)" and ft: "st_FromBlock ns = 251" "st_ToBlock ns = 260"
    by (cases "?c st") auto
  note st = st1 c [unfolded computed_status_Ret] ft
  have d: "\<not> ctx_Done sw_ctx (Some 250, 295, False)" by (simp add: sw_ctx_def sw_done_def)
  have p: "ep_Poll (em_poller sw_emitter) (st_FromBlock ns) (st_ToBlock ns) (Some 250, 295, False) =
      Ret ((None, Some ErrChainIsReorging), (Some 250, 295, False))"
    unfolding st(3,4) by (simp add: sw_emitter_def emitter_New_def sw_Poll_def)
  have "errors_Is ErrChainIsReorging ErrChainIsReorging" by (simp add: error_defs)
  from loopEmit_nil_result_panics [OF d st(2) p this] st(1) show ?thesis by blast
qed

end
