(* ===== verification/Coverage.thy ===== *)
theory Coverage
  imports Emitter_Theorems
begin

text \<open>
  No block is skipped. The emitter reads the recorded block from its gateway, chooses a range, and
  waits until its consumer has handled the report and recorded its last good block. The laws below
  are all it relies on; from them follows, for every run of \<open>Loop\<close> with its restarts, go-backs and
  failures, that the handled ranges cover every block up to the recorded one.
\<close>

section \<open>Runs\<close>

text \<open>Runs of \<open>Loop\<close> from a given world in which the recorded block stays away from the end of the 64-bit numbers.\<close>

definition bounded :: "'w emitter \<Rightarrow> ('w \<Rightarrow> u64 option) \<Rightarrow> 'w \<Rightarrow> bool" where
  "bounded e rec w \<longleftrightarrow> (\<forall>r. rec w = Some r \<longrightarrow> in_bounds r (FilterRange (conf e)))"

inductive bounded_run ::
    "lib \<Rightarrow> 'w emitter \<Rightarrow> 'w go_context \<Rightarrow> ('w \<Rightarrow> u64 option) \<Rightarrow> 'w \<Rightarrow> emitter_phase \<times> 'w \<Rightarrow> bool"
  for L e ctx rec start where
  init: "bounded_run L e ctx rec start (Loop_start, start)"
| step: "bounded_run L e ctx rec start cfg \<Longrightarrow> bounded e rec (snd cfg) \<Longrightarrow> Loop_step L e ctx cfg = Ret cfg' \<Longrightarrow>
    bounded_run L e ctx rec start cfg'"

lemma bounded_run_reach: "bounded_run L e ctx rec start cfg \<Longrightarrow> emitter_reach L e ctx cfg"
  by (induction rule: bounded_run.induct) (auto intro: emitter_reach.intros)

text \<open>A round that polls, after the poll.\<close>

lemma loopEmit_polled:
  assumes "\<not> ctx_Done ctx w" "emitter_computeFromBlockToBlock L e (status st) w = Ret (((Some n, None), prev), w1)"
    "ep_Poll (em_poller e) (st_FromBlock n) (st_ToBlock n) w1 = Ret ((res, e2), w2)"
  shows "loopEmit_round L e ctx st w = (case e2 of
      Some x \<Rightarrow>
        if errors_Is x ErrChainIsReorging
        then go_bind (emitFilterResult e res w2) (\<lambda>w3. go_bind (SyncsEngine e w3) (\<lambda>w4.
          Ret ((None, if ep_DoReorg (em_poller e) w2 then updateStatus True (Some n) (write_status prev st) else write_status prev st), w4)))
        else Ret ((Some (ErrWrap x ''unexpected poller error''), write_status prev st), w2)
    | None \<Rightarrow> (case res of None \<Rightarrow> nil_call
        | Some _ \<Rightarrow> go_bind (emitFilterResult e res w2) (\<lambda>w3. go_bind (SyncsEngine e w3) (\<lambda>w4.
            Ret ((None, updateStatus False (Some n) (write_status prev st)), w4)))))"
  by (simp only: loopEmit_round_def assms(1) if_False assms(2,3) go_bind_simps prod.case Let_def if_cancel option.case simp_thms)

section \<open>The contract\<close>

text \<open>
  \<open>rec\<close> reads the recorded block off the world, \<open>ranges\<close> the ranges of the handled reports, \<open>inv\<close> is
  whatever the providers keep invariant. A delivered report is either handled, and its last good
  block recorded, or not handled at all.
\<close>

locale watched_world =
  fixes e :: "'w emitter" and inv :: "'w \<Rightarrow> bool" and rec :: "'w \<Rightarrow> u64 option" and ranges :: "'w \<Rightarrow> (u64 \<times> u64) list"
  assumes gateway: "inv w \<Longrightarrow> em_stateDataGateway e w = Ret ((n, er), w') \<Longrightarrow>
      inv w' \<and> rec w' = rec w \<and> ranges w' = ranges w \<and> (er = None \<longrightarrow> rec w = Some n) \<and> (err_Is er ErrRecordNotFound \<longrightarrow> rec w = None)"
    and head: "inv w \<Longrightarrow> em_BlockNumber e w = Ret ((cur, er), w') \<Longrightarrow>
      inv w' \<and> rec w' = rec w \<and> ranges w' = ranges w \<and> cur \<noteq> - 1"
    and poll: "inv w \<Longrightarrow> 0 < a \<Longrightarrow> b \<noteq> - 1 \<Longrightarrow> ep_Poll (em_poller e) a b w = Ret ((res, er), w') \<Longrightarrow>
      inv w' \<and> rec w' = rec w \<and> ranges w' = ranges w \<and>
      (\<forall>r. res = Some r \<longrightarrow> FromBlock r = a \<and> ToBlock r = b \<and> res_LastGoodBlock r \<le> b \<and> (er \<noteq> None \<longrightarrow> a \<le> res_LastGoodBlock r + 1))"
    and deliver: "inv w \<Longrightarrow> emitFilterResult e (Some r) w = Ret w1 \<Longrightarrow> SyncsEngine e w1 = Ret w2 \<Longrightarrow>
      inv w2 \<and> (rec w2 = Some (res_LastGoodBlock r) \<and> ranges w2 = ranges w @ [(FromBlock r, ToBlock r)] \<or>
                rec w2 = rec w \<and> ranges w2 = ranges w)"
    and report: "inv w \<Longrightarrow> emitError e er w = Ret w' \<Longrightarrow> inv w' \<and> rec w' = rec w \<and> ranges w' = ranges w"
    and close: "inv w \<Longrightarrow> Shutdown e w = Ret w' \<Longrightarrow> inv w' \<and> rec w' = rec w \<and> ranges w' = ranges w"
    and foreign: "foreign_errors e"
    and settings: "MaxGoBackRetries (conf e) \<noteq> - 1" "0 < StartBlock (conf e)" "0 < FilterRange (conf e)"
begin

definition covered :: "u64 \<Rightarrow> 'w \<Rightarrow> bool" where
  "covered base w \<longleftrightarrow> (\<forall>r n. rec w = Some r \<longrightarrow> base \<le> n \<and> n \<le> r \<longrightarrow> (\<exists>(a, b)\<in>set (ranges w). a \<le> n \<and> n \<le> b))"

text \<open>A first block that leaves no gap.\<close>

definition no_gap :: "'w \<Rightarrow> u64 \<Rightarrow> bool" where
  "no_gap w f \<longleftrightarrow> f \<le> StartBlock (conf e) \<or> (\<exists>r. rec w = Some r \<and> f \<le> r + 1)"

lemma u64_sub_le: "b \<le> a \<Longrightarrow> a - b \<le> (a :: u64)"
  by (simp add: word_sub_le)

lemma no_gap_le: "no_gap w f \<Longrightarrow> g \<le> f \<Longrightarrow> no_gap w g"
  unfolding no_gap_def by (meson order_trans)

lemma no_gap_start: "no_gap w (StartBlock (conf e))"
  by (simp add: no_gap_def)

lemma no_gap_clamp: "no_gap w f \<Longrightarrow> no_gap w (if f < StartBlock (conf e) then StartBlock (conf e) else f)"
  by (simp add: no_gap_start)

text \<open>Whichever way the range is computed, it starts without a gap.\<close>

lemma compute_no_gap:
  assumes "lib_spec L"
    "computeFromBlockToBlock L prev cur lst (FilterRange (conf e)) mx (StartBlock (conf e)) reorg = ((f, t, None), prev')"
    "IsReorging prev \<Longrightarrow> \<not> GoBackFirstStart prev \<Longrightarrow> no_gap w (st_FromBlock prev)"
    "rec w = Some lst \<or> rec w = None \<and> lst = StartBlock (conf e) \<and> \<not> GoBackFirstStart prev"
  shows "no_gap w f"
proof -
  have first: "no_gap w (if r > m then StartBlock (conf e) else m - r)" if "m \<le> lst + 1" "rec w = Some lst" for r m :: u64
  proof -
    have "m - r \<le> lst + 1" if "r \<le> m" using \<open>m \<le> lst + 1\<close> u64_sub_le [OF that] by (rule order_trans [rotated])
    then show ?thesis using that(2) by (auto simp: no_gap_def not_less)
  qed
  have fresh: "no_gap w (if FilterRange (conf e) > m then StartBlock (conf e) else m - FilterRange (conf e))"
    if "m \<le> StartBlock (conf e) + 1" for m :: u64
  proof (cases "FilterRange (conf e) \<le> m")
    case True
    have "unat (StartBlock (conf e) + 1) \<le> unat (StartBlock (conf e)) + 1" by (simp add: unat_word_ariths mod_less_eq_dividend)
    then have m: "unat m \<le> unat (StartBlock (conf e)) + 1" using that by (simp add: word_le_nat_alt)
    have "unat (m - FilterRange (conf e)) = unat m - unat (FilterRange (conf e))" by (rule unat_diff_le [OF True])
    moreover have "0 < unat (FilterRange (conf e))" using settings(3) by (simp add: word_less_nat_alt)
    ultimately have "m - FilterRange (conf e) \<le> StartBlock (conf e)" using m by (simp add: word_le_nat_alt)
    then show ?thesis by (simp add: no_gap_def)
  qed (auto simp: no_gap_def not_le)
  have normal: "no_gap w (if FilterRange (conf e) > m then StartBlock (conf e) else m - FilterRange (conf e))"
    if "m = min cur (lst + 1)" for m
  proof -
    have m: "m \<le> lst + 1" using that by simp
    from assms(4) show ?thesis
    proof
      assume "rec w = Some lst"
      then show ?thesis by (rule first [OF m])
    next
      assume "rec w = None \<and> lst = StartBlock (conf e) \<and> \<not> GoBackFirstStart prev"
      then show ?thesis using m by (intro fresh) simp
    qed
  qed
  show ?thesis
  proof (cases "GoBackFirstStart prev")
    case True
    then show ?thesis using assms(2,4) first [of "lst + 1" "FilterRange (conf e) * RetriesCount prev"]
      by (auto simp: computeFromBlockToBlock_def fromBlockToBlockGoBackFirstRun_def Let_def)
  next
    case go: False
    show ?thesis
    proof (cases "IsReorging prev")
      case True
      have "f = StartBlock (conf e) \<or> f \<le> st_FromBlock prev"
        using assms(2) True go u64_sub_le [of "FilterRange (conf e)" "st_FromBlock prev"]
        by (auto simp: computeFromBlockToBlock_def fromBlockToBlockIsReorging_def Let_def not_less split: if_splits)
      then show ?thesis using assms(3) [OF True go] no_gap_le no_gap_start by blast
    next
      case False
      then show ?thesis using assms(2) go normal
        by (simp add: computeFromBlockToBlock_def fromBlockToBlockNormal_def Let_def lib_spec.Min [OF assms(1)])
    qed
  qed
qed

lemma compute_end:
  assumes "lib_spec L"
    "computeFromBlockToBlock L prev cur lst (FilterRange (conf e)) mx (StartBlock (conf e)) reorg = ((f, t, None), prev')"
    "GoBackFirstStart prev \<Longrightarrow> RetriesCount prev = 0 \<and> in_bounds lst (FilterRange (conf e))" "cur \<noteq> - 1"
  shows "t \<noteq> - 1"
proof (cases "GoBackFirstStart prev")
  case True
  then have t: "t = lst + FilterRange (conf e)"
    using assms(2,3) by (auto simp: computeFromBlockToBlock_def fromBlockToBlockGoBackFirstRun_def Let_def)
  have "unat t + 1 < 2 ^ 64"
    using in_bounds_unat(1) [of lst "FilterRange (conf e)"] assms(3) [OF True] by (simp add: t in_bounds_def)
  then have "unat (t + 1) = unat t + 1" by (rule unat_Suc_small)
  then have "t + 1 \<noteq> 0" by auto
  then show ?thesis by (metis add.commute add_eq_0_iff)
next
  case False
  have "t \<le> cur" if "IsReorging prev"
    using assms(2) False that
    by (auto simp: computeFromBlockToBlock_def fromBlockToBlockIsReorging_def Let_def lib_spec.Min [OF assms(1)] split: if_splits)
  moreover have "t \<le> cur" if "\<not> IsReorging prev"
    using assms(2) False that
    by (auto simp: computeFromBlockToBlock_def fromBlockToBlockNormal_def Let_def lib_spec.Min [OF assms(1)] split: if_splits)
  ultimately have "t \<le> cur" by blast
  then show ?thesis using assms(4) by (metis order_antisym word_n1_ge)
qed

lemma compute_keeps_from:
  assumes "computeFromBlockToBlock L prev cur lst r mx start reorg = ((f, t, er), prev')"
  shows "er = None \<Longrightarrow> st_FromBlock prev' = f"
    "er \<noteq> None \<Longrightarrow> st_FromBlock prev' = st_FromBlock prev \<and> IsReorging prev \<and> \<not> GoBackFirstStart prev"
  using assms
  by (auto simp: computeFromBlockToBlock_def fromBlockToBlockIsReorging_def Let_def split: if_splits prod.splits)

text \<open>The method: it changes nothing the emitter relies on, and its new status starts without a gap.\<close>

lemma from_head_no_gap:
  assumes "lib_spec L" "bounded e rec w" "status_ok (conf e) prev" "IsReorging prev \<longrightarrow> no_gap w (st_FromBlock prev)"
    "from_head L e prev1 lst ((cur, e2), w') = Ret (((ns, er), prev'), w')" "prev1 = prev \<or> prev1 = prev\<lparr>GoBackFirstStart := False\<rparr>"
    "rec w = Some lst \<or> rec w = None \<and> lst = StartBlock (conf e) \<and> \<not> GoBackFirstStart prev1" "e2 = None \<Longrightarrow> cur \<noteq> - 1"
  shows "(IsReorging prev' \<longrightarrow> no_gap w (st_FromBlock prev')) \<and>
    (\<forall>n. ns = Some n \<longrightarrow> er = None \<and> no_gap w (st_FromBlock n) \<and> 0 < st_FromBlock n \<and> st_ToBlock n \<noteq> - 1 \<and> st_FromBlock prev' \<le> st_FromBlock n)"
proof -
  have p1: "IsReorging prev1 = IsReorging prev" "st_FromBlock prev1 = st_FromBlock prev" "RetriesCount prev1 = RetriesCount prev"
    "GoBackFirstStart prev1 \<Longrightarrow> GoBackFirstStart prev" using assms(6) by auto
  from assms(5) show ?thesis
  proof (cases rule: from_head_cases)
    case (computed f t e3)
    note c = computed(2)
    show ?thesis
    proof (cases e3)
      case (Some x)
      then have "st_FromBlock prev' = st_FromBlock prev1" "IsReorging prev1" using compute_keeps_from(2) [OF c] by simp_all
      then show ?thesis using assms(4) p1 computed(4) Some by simp
    next
      case None
      have calm: "GoBackFirstStart prev1 \<Longrightarrow> RetriesCount prev1 = 0" using p1 assms(3) by (simp add: status_ok_def)
      have gap: "no_gap w f"
        by (rule compute_no_gap [OF assms(1) c [unfolded None]]) (use assms(4,7) p1 in simp_all)
      have "t \<noteq> - 1"
        by (rule compute_end [OF assms(1) c [unfolded None]]) (use calm assms(2,7,8) computed(1) in \<open>auto simp: bounded_def\<close>)
      then show ?thesis using computed(5) None gap no_gap_clamp [OF gap] settings(2) compute_keeps_from(1) [OF c None]
        by (auto simp: not_less)
    qed
  qed (use assms(4) p1 in auto)
qed

lemma method_no_gap:
  assumes "lib_spec L" "inv w" "bounded e rec w" "status_ok (conf e) prev" "IsReorging prev \<longrightarrow> no_gap w (st_FromBlock prev)"
    "emitter_computeFromBlockToBlock L e prev w = Ret (((ns, er), prev'), w')"
  shows "inv w' \<and> rec w' = rec w \<and> ranges w' = ranges w \<and> (IsReorging prev' \<longrightarrow> no_gap w (st_FromBlock prev')) \<and>
    (\<forall>n. ns = Some n \<longrightarrow> er = None \<and> no_gap w (st_FromBlock n) \<and> 0 < st_FromBlock n \<and> st_ToBlock n \<noteq> - 1 \<and> st_FromBlock prev' \<le> st_FromBlock n)"
  using assms(6)
proof (cases rule: method_cases)
  case (gateway lst0 x)
  then show ?thesis using assms(5) watched_world.gateway [OF watched_world_axioms assms(2) gateway(1)] by auto
next
  case (head lst0 e1 w1 cur e2)
  note gw = watched_world.gateway [OF watched_world_axioms assms(2) head(1)]
  note hd = watched_world.head [OF watched_world_axioms conjunct1 [OF gw] head(3)]
  have "rec w = Some (first_block e lst0 e1) \<or> rec w = None \<and> first_block e lst0 e1 = StartBlock (conf e) \<and> \<not> GoBackFirstStart (first_status e1 prev)"
    using gw head(2) by (auto simp: first_block_def first_status_def)
  from from_head_no_gap [OF assms(1,3,4,5) head(4) first_status_cases this] hd gw show ?thesis by auto
qed

text \<open>A handled report extends the covered blocks up to the block it records.\<close>

lemma covered_handled:
  assumes "covered base w" "no_gap w a" "StartBlock (conf e) \<le> base"
    "rec w' = Some l \<and> ranges w' = ranges w @ [(a, b)] \<and> l \<le> b \<or> rec w' = rec w \<and> ranges w' = ranges w"
  shows "covered base w'"
  using assms(4)
proof
  assume h: "rec w' = Some l \<and> ranges w' = ranges w @ [(a, b)] \<and> l \<le> b"
  have "\<exists>(c, d)\<in>set (ranges w @ [(a, b)]). c \<le> n \<and> n \<le> d" if n: "base \<le> n" "n \<le> l" for n
  proof (cases "a \<le> n")
    case True
    then show ?thesis using h n by auto
  next
    case False
    then have "n < a" by simp
    have "\<not> a \<le> StartBlock (conf e)" using \<open>n < a\<close> assms(3) n(1) by auto
    then obtain r where r: "rec w = Some r" "a \<le> r + 1" using assms(2) by (auto simp: no_gap_def)
    have "n < r + 1" using \<open>n < a\<close> r(2) by (rule less_le_trans)
    then have "n \<le> r" by (rule less_inc_imp_less_eq)
    then show ?thesis using assms(1) r(1) n(1) unfolding covered_def by fastforce
  qed
  then show ?thesis using h unfolding covered_def by auto
next
  assume "rec w' = rec w \<and> ranges w' = ranges w"
  then show ?thesis using assms(1) by (simp add: covered_def)
qed

lemma no_gap_handled:
  assumes "no_gap w a" "rec w' = Some l \<and> a \<le> l + 1 \<or> rec w' = rec w"
  shows "no_gap w' a"
  using assms by (auto simp: no_gap_def)

definition emit_ok :: "u64 \<Rightarrow> emit_state \<Rightarrow> 'w \<Rightarrow> bool" where
  "emit_ok base st w \<longleftrightarrow> inv w \<and> covered base w \<and> (IsReorging (status st) \<longrightarrow> no_gap w (st_FromBlock (status st)))"

lemma deliver_covers:
  assumes "inv w" "covered base w" "StartBlock (conf e) \<le> base" "no_gap w a" "res_LastGoodBlock r \<le> ToBlock r" "FromBlock r = a"
    "go_bind (emitFilterResult e (Some r) w) (\<lambda>w3. go_bind (SyncsEngine e w3) (\<lambda>w4. Ret (x, w4))) = Ret (y, w')"
  shows "inv w' \<and> covered base w' \<and> y = x \<and> (a \<le> res_LastGoodBlock r + 1 \<longrightarrow> no_gap w' a)"
proof -
  obtain w3 where d: "emitFilterResult e (Some r) w = Ret w3" "SyncsEngine e w3 = Ret w'" "y = x"
    using assms(7) by (auto simp: go_bind_Ret_iff)
  note del = deliver [OF assms(1) d(1,2)]
  have "covered base w'"
    by (rule covered_handled [OF assms(2,4,3), where l = "res_LastGoodBlock r" and b = "ToBlock r"]) (use del assms(5,6) in auto)
  moreover have "a \<le> res_LastGoodBlock r + 1 \<longrightarrow> no_gap w' a" using no_gap_handled [OF assms(4)] del by blast
  ultimately show ?thesis using del d(3) by blast
qed

lemma reported_covers:
  assumes "inv w" "covered base w" "StartBlock (conf e) \<le> base" "no_gap w a" "res_LastGoodBlock r \<le> ToBlock r" "FromBlock r = a"
    "IsReorging (status st2) \<Longrightarrow> a \<le> res_LastGoodBlock r + 1 \<and> st_FromBlock (status st2) \<le> a"
    "go_bind (emitFilterResult e (Some r) w) (\<lambda>w3. go_bind (SyncsEngine e w3) (\<lambda>w4. Ret ((None, st2), w4))) = Ret ((er, st'), w')"
  shows "inv w' \<and> covered base w' \<and> emit_ok base st' w'"
  using deliver_covers [OF assms(1-6,8)] assms(7) no_gap_le [of w' a] by (auto simp: emit_ok_def)

lemma round_covers:
  assumes "lib_spec L" "loopEmit_round L e ctx st w = Ret ((er, st'), w')" "emit_ok base st w" "bounded e rec w"
    "emit_state_ok (conf e) st" "StartBlock (conf e) \<le> base"
  shows "inv w' \<and> covered base w' \<and> (er = None \<longrightarrow> emit_ok base st' w')"
proof (cases "ctx_Done ctx w")
  case True
  then show ?thesis using assms(2,3) by (auto simp: loopEmit_round_def emit_ok_def)
next
  case False
  then obtain ns err0 prev w1 where c: "emitter_computeFromBlockToBlock L e (status st) w = Ret (((ns, err0), prev), w1)"
    using assms(2) by (auto simp: loopEmit_round_def go_bind_Ret_iff)
  have I: "inv w" "covered base w" "IsReorging (status st) \<longrightarrow> no_gap w (st_FromBlock (status st))" using assms(3) by (simp_all add: emit_ok_def)
  have ok: "status_ok (conf e) (status st)" using assms(5) by (simp add: emit_state_ok_def)
  note m = method_no_gap [OF assms(1) I(1) assms(4) ok I(3) c]
  have same: "no_gap w1 f = no_gap w f" "covered base w1 = covered base w" for f using m by (simp_all add: no_gap_def covered_def)
  have nb: "\<not> (GoBackFirstStart prev \<and> err_Is err0 errNoNewBlock)" using method_new_status(2) [OF c ok foreign] by blast
  show ?thesis
  proof (cases err0)
    case (Some x)
    then have "w' = w1 \<and> (er = None \<longrightarrow> st' = write_status prev st)"
      using assms(2) False c nb by (auto simp: loopEmit_round_def Let_def split: if_splits)
    then show ?thesis using m I same by (auto simp: emit_ok_def)
  next
    case None
    obtain n where n: "ns = Some n" using method_new_status(1) [OF c ok foreign None] by blast
    let ?a = "st_FromBlock n" and ?b = "st_ToBlock n" and ?st1 = "write_status prev st"
    have gap: "no_gap w1 ?a" "0 < ?a" "?b \<noteq> - 1" "st_FromBlock prev \<le> ?a" using m n same by blast+
    obtain res e2 w2 where P: "ep_Poll (em_poller e) ?a ?b w1 = Ret ((res, e2), w2)"
      using assms(2) False c None n by (auto simp: loopEmit_round_def Let_def go_bind_Ret_iff)
    note pl = poll [OF conjunct1 [OF m] gap(2,3) P]
    have same2: "no_gap w2 f = no_gap w1 f" "covered base w2 = covered base w1" for f using pl by (simp_all add: no_gap_def covered_def)
    note rest = loopEmit_polled [OF False c [unfolded n None] P, unfolded assms(2)]
    have base: "inv w2" "covered base w2" "no_gap w2 ?a" using pl same same2 I(2) gap(1) by simp_all
    show ?thesis
    proof (cases e2)
      case None
      then obtain r where r: "res = Some r" using rest by (cases res) (auto simp: nil_call_def)
      then show ?thesis using reported_covers [OF base(1,2) assms(6) base(3), of r "updateStatus False (Some n) ?st1" er st' w'] pl rest None
        by (auto simp: updateStatus_def status_def reorg_status_def)
    next
      case (Some x)
      show ?thesis
      proof (cases "errors_Is x ErrChainIsReorging")
        case True
        let ?st2 = "if ep_DoReorg (em_poller e) w2 then updateStatus True (Some n) ?st1 else ?st1"
        have R: "go_bind (emitFilterResult e res w2) (\<lambda>w3. go_bind (SyncsEngine e w3) (\<lambda>w4. Ret ((None, ?st2), w4))) = Ret ((er, st'), w')"
          using rest True unfolding Some by simp
        then obtain r where r: "res = Some r" by (cases res) (auto simp: emitFilterResult_def)
        have "status (updateStatus True (Some n) ?st1) = reorg_status True n" by (simp add: updateStatus_def status_def)
        then have "st_FromBlock (status ?st2) \<le> ?a" using gap(4) by (simp add: reorg_status_def)
        moreover have b: "res_LastGoodBlock r \<le> ToBlock r" "FromBlock r = ?a" "?a \<le> res_LastGoodBlock r + 1" using pl r Some by auto
        ultimately show ?thesis using reported_covers [OF base(1,2) assms(6) base(3) b(1,2) _ R [unfolded r]] b(3) by simp
      next
        case False
        then show ?thesis using rest Some pl same same2 I by auto
      qed
    qed
  qed
qed

lemma step_covers:
  assumes "lib_spec L" "Loop_step L e ctx (ph, w) = Ret (ph', w')" "phase_ok (conf e) ph" "bounded e rec w" "StartBlock (conf e) \<le> base"
    "case ph of InEmit st \<Rightarrow> emit_ok base st w | _ \<Rightarrow> inv w \<and> covered base w"
  shows "case ph' of InEmit st \<Rightarrow> emit_ok base st w' | _ \<Rightarrow> inv w' \<and> covered base w'"
proof (cases ph)
  case (AtLoop s)
  have "covered base w'" "inv w'" if "Shutdown e w = Ret w'" using close [OF _ that] assms(6) AtLoop by (simp_all add: covered_def)
  then show ?thesis using assms(2,3,6) AtLoop
    by (auto simp: Loop_step_def go_bind_Ret_iff emit_ok_def status_def phase_ok_def calm_def split: if_splits)
next
  case (InEmit st)
  then obtain er st1 w1 where r: "loopEmit_round L e ctx st w = Ret ((er, st1), w1)"
    using assms(2) by (auto simp: Loop_step_def go_bind_Ret_iff)
  have c: "inv w1 \<and> covered base w1 \<and> (er = None \<longrightarrow> emit_ok base st1 w1)"
    by (rule round_covers [OF assms(1) r _ assms(4) _ assms(5)]) (use assms(3,6) InEmit in \<open>simp_all add: phase_ok_def\<close>)
  show ?thesis
  proof (cases er)
    case None
    then show ?thesis using assms(2) InEmit r c by (auto simp: Loop_step_def)
  next
    case (Some x)
    then obtain w2 where "emitError e (Some (ErrWrap x ''error in loopEmit'')) w1 = Ret w2" "ph' = AtLoop (outer st1)" "w' = w2"
      using assms(2) InEmit r by (auto simp: Loop_step_def go_bind_Ret_iff)
    then show ?thesis using report [of w1 _ w2] c by (auto simp: covered_def)
  qed
next
  case (Stopped x)
  then show ?thesis using assms(2,6) by (auto simp: Loop_step_def)
qed

lemma run_covers:
  assumes "lib_spec L" "bounded_run L e ctx rec start cfg" "inv start" "StartBlock (conf e) \<le> base" "\<forall>r. rec start = Some r \<longrightarrow> r < base"
  shows "case fst cfg of InEmit st \<Rightarrow> emit_ok base st (snd cfg) | _ \<Rightarrow> inv (snd cfg) \<and> covered base (snd cfg)"
  using assms(2)
proof (induction rule: bounded_run.induct)
  case init
  show ?case using assms(3,5) by (auto simp: Loop_start_def covered_def)
next
  case (step cfg cfg')
  have "phase_ok (conf e) (fst cfg)"
    by (rule emitter_reach_ok [OF bounded_run_reach [OF step.hyps(1)] foreign settings(1)])
  then show ?case
    using step_covers [OF assms(1), of ctx "fst cfg" "snd cfg" "fst cfg'" "snd cfg'" base] step.hyps(2,3) step.IH assms(4) by simp
qed

lemma run_covered:
  assumes "lib_spec L" "bounded_run L e ctx rec start (ph, w)" "inv start" "StartBlock (conf e) \<le> base" "\<forall>r. rec start = Some r \<longrightarrow> r < base"
  shows "covered base w" "inv w"
  using run_covers [OF assms] by (auto simp: emit_ok_def split: emitter_phase.splits)

end

end
