(* ===== verification/Mock.thy ===== *)
theory Mock
  imports Watcher_Types
begin

text \<open>
  The mock gateways and the mock poller (\<open>pkg/components/mock\<close>). What every state gateway promises
  its two users, the emitter that reads the recorded block and the engine that writes it, is the
  locale \<open>state_gateway\<close>; both gateways are interpretations of it. The file gateway prints and
  parses the number in decimal, over a file system that is a map from names to contents and may
  refuse a write.
\<close>

section \<open>What a gateway promises\<close>

text \<open>
  A successful write is read back, reading changes nothing, and a gateway nothing was written to
  answers \<open>ErrRecordNotFound\<close>.
\<close>

locale state_gateway =
  fixes g :: "'g data_gateway"
    and fresh :: "'g \<Rightarrow> bool"
  assumes fresh_get: "fresh s \<Longrightarrow> \<exists>e. GetLastRecordedBlock g s = Ret ((0, Some e), s) \<and> errors_Is e ErrRecordNotFound"
    and get_pure: "GetLastRecordedBlock g s = Ret (r, s') \<Longrightarrow> s' = s"
    and set_get: "SetLastRecordedBlock g n s = Ret (None, s') \<Longrightarrow> GetLastRecordedBlock g s' = Ret ((n, None), s')"
    and set_returns: "\<exists>e s'. SetLastRecordedBlock g n s = Ret (e, s')"
begin

text \<open>A run of writes that all succeed: the last one is read back.\<close>

fun writes :: "u64 list \<Rightarrow> 'g \<Rightarrow> 'g option" where
  "writes [] s = Some s"
| "writes (n # ns) s = (case SetLastRecordedBlock g n s of Ret (None, s') \<Rightarrow> writes ns s' | _ \<Rightarrow> None)"

lemma last_write: "writes (ns @ [n]) s = Some s' \<Longrightarrow> GetLastRecordedBlock g s' = Ret ((n, None), s')"
  by (induction ns arbitrary: s) (auto split: go.splits option.splits intro: set_get)

end

section \<open>In memory (fakeredis_mem.go)\<close>

record fakeRedisMem =
  mem_lastRecordedBlock :: u64
  mem_ok :: bool

definition NewDataGatewayMem :: "u64 \<Rightarrow> bool \<Rightarrow> fakeRedisMem" where
  "NewDataGatewayMem n ok = \<lparr>mem_lastRecordedBlock = n, mem_ok = ok\<rparr>"

definition mem_GetLastRecordedBlock :: "fakeRedisMem \<Rightarrow> ((u64 \<times> err) \<times> fakeRedisMem) go" where
  "mem_GetLastRecordedBlock m =
     (if mem_ok m then Ret ((mem_lastRecordedBlock m, None), m)
      else Ret ((0, Some (ErrWrap ErrRecordNotFound ''key not found'')), m))"

definition mem_SetLastRecordedBlock :: "u64 \<Rightarrow> fakeRedisMem \<Rightarrow> (err \<times> fakeRedisMem) go" where
  "mem_SetLastRecordedBlock v m = Ret (None, m\<lparr>mem_ok := True, mem_lastRecordedBlock := v\<rparr>)"

definition mem_Shutdown :: "fakeRedisMem \<Rightarrow> err" where
  "mem_Shutdown m = None"

definition mem_gateway :: "fakeRedisMem data_gateway" where
  "mem_gateway = \<lparr>GetLastRecordedBlock = mem_GetLastRecordedBlock, SetLastRecordedBlock = mem_SetLastRecordedBlock\<rparr>"

definition mem_fresh :: "fakeRedisMem \<Rightarrow> bool" where
  "mem_fresh m = (\<not> mem_ok m)"

interpretation mem: state_gateway mem_gateway mem_fresh
  by unfold_locales
    (auto simp: mem_gateway_def mem_fresh_def mem_GetLastRecordedBlock_def mem_SetLastRecordedBlock_def split: if_splits)

section \<open>In a file (fakeredis_file.go)\<close>

text \<open>The file system: contents by name, and the names that can be written.\<close>

record file_system =
  fs_files :: "(string \<times> string) list"
  fs_writable :: "string \<Rightarrow> bool"

definition os_ReadFile :: "string \<Rightarrow> file_system \<Rightarrow> string option" where
  "os_ReadFile name fs = map_of (fs_files fs) name"

definition os_WriteFile :: "string \<Rightarrow> string \<Rightarrow> file_system \<Rightarrow> err \<times> file_system" where
  "os_WriteFile name content fs =
     (if fs_writable fs name then (None, fs\<lparr>fs_files := (name, content) # fs_files fs\<rparr>)
      else (Some (ErrNew ''open: permission denied''), fs))"

record fakeRedisFile =
  file_filename :: string
  file_ok :: bool

definition writeLastRecordedBlockToFile :: "string \<Rightarrow> u64 \<Rightarrow> file_system \<Rightarrow> err \<times> file_system" where
  "writeLastRecordedBlockToFile filename n fs =
     (case os_WriteFile filename (FormatUint n) fs of
        (e, fs') \<Rightarrow> (errors_Wrap e ''failed to write fakeRedisFile db'', fs'))"

definition NewDataGatewayFile :: "string \<Rightarrow> u64 \<Rightarrow> bool \<Rightarrow> file_system \<Rightarrow> (fakeRedisFile \<times> file_system) go" where
  "NewDataGatewayFile filename n ok fs =
     (let m = \<lparr>file_filename = filename, file_ok = ok\<rparr>
      in if ok then
           (case writeLastRecordedBlockToFile filename n fs of
              (Some e, _) \<Rightarrow> Panic ''failed to write file to init fakeRedisFile: %s''
            | (None, fs') \<Rightarrow> Ret (m, fs'))
         else Ret (m, fs))"

definition file_GetLastRecordedBlock :: "fakeRedisFile \<times> file_system \<Rightarrow> ((u64 \<times> err) \<times> (fakeRedisFile \<times> file_system)) go" where
  "file_GetLastRecordedBlock s =
     (case s of (m, fs) \<Rightarrow>
        if \<not> file_ok m then Ret ((0, Some (ErrWrap ErrRecordNotFound ''key not found'')), s)
        else case os_ReadFile (file_filename m) fs of
               None \<Rightarrow> Ret ((0, Some (ErrWrap (ErrNew ''open: no such file or directory'') ''failed to get lastRecordedBlock from file %s'')), s)
             | Some b \<Rightarrow>
                 (case ParseUint b of
                    None \<Rightarrow> Ret ((0, Some (ErrWrap (ErrNew ''strconv.ParseUint'') ''failed to parse file %s content %s to uint64'')), s)
                  | Some n \<Rightarrow> Ret ((n, None), s)))"

definition file_SetLastRecordedBlock :: "u64 \<Rightarrow> fakeRedisFile \<times> file_system \<Rightarrow> (err \<times> (fakeRedisFile \<times> file_system)) go" where
  "file_SetLastRecordedBlock n s =
     (case s of (m, fs) \<Rightarrow>
        case writeLastRecordedBlockToFile (file_filename m) n fs of
          (e, fs') \<Rightarrow> Ret (e, (m\<lparr>file_ok := True\<rparr>, fs')))"

definition file_Shutdown :: "fakeRedisFile \<Rightarrow> err" where
  "file_Shutdown m = None"

definition file_gateway :: "(fakeRedisFile \<times> file_system) data_gateway" where
  "file_gateway = \<lparr>GetLastRecordedBlock = file_GetLastRecordedBlock, SetLastRecordedBlock = file_SetLastRecordedBlock\<rparr>"

definition file_fresh :: "fakeRedisFile \<times> file_system \<Rightarrow> bool" where
  "file_fresh s = (\<not> file_ok (fst s))"

lemmas file_defs = file_gateway_def file_fresh_def file_GetLastRecordedBlock_def file_SetLastRecordedBlock_def
  writeLastRecordedBlockToFile_def os_WriteFile_def os_ReadFile_def

lemma file_set: "SetLastRecordedBlock file_gateway = file_SetLastRecordedBlock" by (simp add: file_gateway_def)

interpretation dbf: state_gateway file_gateway file_fresh
  by unfold_locales (auto simp: file_defs split: if_splits option.splits prod.splits)

text \<open>
  C40. Round trip through the file: after any sequence of successful writes the file gateway reads
  back the last number written, for every 64-bit number, through its decimal form on disk.
\<close>

theorem file_gateway_roundtrip:
  assumes "dbf.writes (ns @ [n]) s = Some s'"
  shows "file_GetLastRecordedBlock s' = Ret ((n, None), s')"
  using dbf.last_write [OF assms] by (simp add: file_gateway_def)

definition all_writable :: "string \<Rightarrow> bool" where "all_writable name = True"

theorem file_gateway_roundtrip_witness:
  "let s = (\<lparr>file_filename = ''db'', file_ok = True\<rparr>,
       \<lparr>fs_files = [(''db'', FormatUint 18446744073709551615), (''db'', FormatUint 7)], fs_writable = all_writable\<rparr>)
   in file_GetLastRecordedBlock s = Ret ((18446744073709551615, None), s)"
proof -
  let ?init = "(\<lparr>file_filename = ''db'', file_ok = False\<rparr>, \<lparr>fs_files = [], fs_writable = all_writable\<rparr>)"
  let ?s = "(\<lparr>file_filename = ''db'', file_ok = True\<rparr>,
       \<lparr>fs_files = [(''db'', FormatUint 18446744073709551615), (''db'', FormatUint 7)], fs_writable = all_writable\<rparr>)"
  have "dbf.writes ([7] @ [18446744073709551615]) ?init = Some ?s"
    by (simp add: file_SetLastRecordedBlock_def file_set writeLastRecordedBlockToFile_def os_WriteFile_def all_writable_def)
  from file_gateway_roundtrip [OF this] show ?thesis by (simp add: Let_def)
qed

text \<open>
  The in-memory gateway: without an initial value it answers \<open>ErrRecordNotFound\<close> until the first
  write, and afterwards, as with an initial value from the start, the last number written.
\<close>

theorem mem_gateway_behaviour:
  "(\<exists>e. GetLastRecordedBlock mem_gateway (NewDataGatewayMem n False) = Ret ((0, Some e), NewDataGatewayMem n False) \<and>
      errors_Is e ErrRecordNotFound) \<and>
   GetLastRecordedBlock mem_gateway (NewDataGatewayMem n True) = Ret ((n, None), NewDataGatewayMem n True) \<and>
   (\<exists>m. mem.writes (ns @ [v]) (NewDataGatewayMem n ok) = Some m \<and> GetLastRecordedBlock mem_gateway m = Ret ((v, None), m))"
proof (intro conjI)
  show "\<exists>e. GetLastRecordedBlock mem_gateway (NewDataGatewayMem n False) = Ret ((0, Some e), NewDataGatewayMem n False) \<and>
      errors_Is e ErrRecordNotFound"
    by (rule mem.fresh_get) (simp add: mem_fresh_def NewDataGatewayMem_def)
  show "GetLastRecordedBlock mem_gateway (NewDataGatewayMem n True) = Ret ((n, None), NewDataGatewayMem n True)"
    by (simp add: mem_gateway_def mem_GetLastRecordedBlock_def NewDataGatewayMem_def)
  have "SetLastRecordedBlock mem_gateway v m = Ret (None, m\<lparr>mem_ok := True, mem_lastRecordedBlock := v\<rparr>)" for v m
    by (simp add: mem_gateway_def mem_SetLastRecordedBlock_def)
  then have "\<exists>m'. mem.writes ns m = Some m'" for ns m
    by (induction ns arbitrary: m) simp_all
  then obtain m where "mem.writes (ns @ [v]) (NewDataGatewayMem n ok) = Some m" by blast
  then show "\<exists>m. mem.writes (ns @ [v]) (NewDataGatewayMem n ok) = Some m \<and> GetLastRecordedBlock mem_gateway m = Ret ((v, None), m)"
    using mem.last_write by blast
qed

section \<open>The mock poller (mock_poller.go)\<close>

record mockPoller =
  mp_currentIndex :: nat
  mp_reorgedBlocks :: "u64 list"
  mp_seen :: "u64 \<Rightarrow> int"

definition mock_NewPoller :: "u64 list \<Rightarrow> mockPoller" where
  "mock_NewPoller bs = \<lparr>mp_currentIndex = 0, mp_reorgedBlocks = bs, mp_seen = (\<lambda>_. 0)\<rparr>"

definition mock_block :: "lib \<Rightarrow> u64 \<Rightarrow> block" where
  "mock_block L n = \<lparr>LogsMigrated = False, Number = n, Hash = BigToHash L (sint n), Header = None, Logs = []\<rparr>"

text \<open>The blocks a counting loop appends, up to a bound that is included or not.\<close>

definition mock_blocks :: "lib \<Rightarrow> u64 \<Rightarrow> u64 \<Rightarrow> block list go" where
  "mock_blocks L a b =
     go_bind (go_loop (for_up (\<lambda>n bs. Inr (bs @ [mock_block L n])) a b [])) (\<lambda>r. Ret (case r of Inl bs \<Rightarrow> bs | Inr bs \<Rightarrow> bs))"

definition mock_blocks_below :: "lib \<Rightarrow> u64 \<Rightarrow> u64 \<Rightarrow> block list go" where
  "mock_blocks_below L a b = (if b = 0 then Ret [] else mock_blocks L a (b - 1))"

definition mock_Poll :: "lib \<Rightarrow> u64 \<Rightarrow> u64 \<Rightarrow> mockPoller \<Rightarrow> ((poller_result option \<times> err) \<times> mockPoller) go" where
  "mock_Poll L a b p =
     (if length (mp_reorgedBlocks p) \<le> mp_currentIndex p then Panic ''index out of range''
      else
        let result = new_PollerResult\<lparr>FromBlock := a, ToBlock := b\<rparr>;
            reorgedBlock = mp_reorgedBlocks p ! mp_currentIndex p;
            noMoreReorg = (length (mp_reorgedBlocks p) = mp_currentIndex p + 1)
        in go_bind (go_loop (for_up (\<lambda>n seen. (Inr (seen(n := seen n + 1)) :: unit + (u64 \<Rightarrow> int))) a b (mp_seen p))) (\<lambda>r.
           let seen = (case r of Inl _ \<Rightarrow> mp_seen p | Inr s \<Rightarrow> s); p1 = p\<lparr>mp_seen := seen\<rparr>
           in if seen reorgedBlock \<le> 1 \<or> seen reorgedBlock > 3
              then go_bind (mock_blocks L a b) (\<lambda>good.
                     Ret ((Some (result\<lparr>GoodBlocks := good, res_LastGoodBlock := b\<rparr>), None), p1))
              else
                let p2 = (if \<not> noMoreReorg then p1\<lparr>mp_currentIndex := mp_currentIndex p + 1, mp_seen := (\<lambda>_. 0)\<rparr> else p1)
                in if a \<noteq> reorgedBlock
                   then go_bind (mock_blocks_below L a reorgedBlock) (\<lambda>good.
                        go_bind (mock_blocks L reorgedBlock b) (\<lambda>reorged.
                          let r1 = result\<lparr>GoodBlocks := good, ReorgedBlocks := reorged\<rparr>
                          in Ret ((Some (r1\<lparr>res_LastGoodBlock := LastGoodBlock r1\<rparr>), None), p2)))
                   else Ret ((None, Some ErrFromBlockReorged), p2)))"

lemma mock_blocks_range: "b \<noteq> - 1 \<Longrightarrow> mock_blocks L a b = Ret (map (mock_block L) (u64_range a b))"
proof -
  have "for_each (\<lambda>n bs. Inr (bs @ [mock_block L n])) ns bs = (Inr (bs @ map (mock_block L) ns) :: block list + block list)" for ns bs
    by (induction ns arbitrary: bs) auto
  then show "b \<noteq> - 1 \<Longrightarrow> ?thesis" by (simp add: mock_blocks_def for_up_range)
qed

lemma u64_range_split:
  assumes "a < m" "m \<le> b"
  shows "u64_range a b = u64_range a (m - 1) @ u64_range m b"
proof -
  have "0 < m" using assms(1) by (metis word_gt_0 word_not_simps(1))
  then have m: "unat m = Suc (unat (m - 1))" using unat_minus_one [of m] by (simp add: word_less_nat_alt word_neq_0_conv)
  have "[unat a..<Suc (unat b)] = [unat a..<unat m] @ [unat m..<Suc (unat b)]"
    using assms upt_add_eq_append [of "unat a" "unat m" "Suc (unat b) - unat m"] by (simp add: word_less_nat_alt word_le_nat_alt)
  then show ?thesis using m by (simp add: u64_range_def del: upt_Suc)
qed

text \<open>
  A mock poll that returns a result covers its range: the good and then the reorged blocks are
  exactly the numbers of the range in order, the reorged ones from the scripted block on, and the
  last good block is the one before it, or the end of the range when nothing is reorged.
\<close>

theorem mock_Poll_covers:
  assumes "mock_Poll L a b p = Ret ((Some r, e), p')" "a \<le> b" "b \<noteq> - 1"
    "a \<le> mp_reorgedBlocks p ! mp_currentIndex p" "mp_reorgedBlocks p ! mp_currentIndex p \<le> b"
  shows "e = None \<and> map Number (GoodBlocks r @ ReorgedBlocks r) = u64_range a b \<and>
    (ReorgedBlocks r = [] \<and> res_LastGoodBlock r = b \<or>
     ReorgedBlocks r \<noteq> [] \<and> Number (hd (ReorgedBlocks r)) = mp_reorgedBlocks p ! mp_currentIndex p \<and>
     res_LastGoodBlock r = mp_reorgedBlocks p ! mp_currentIndex p - 1)"
proof -
  let ?m = "mp_reorgedBlocks p ! mp_currentIndex p"
  have num: "map Number (map (mock_block L) ns) = ns" for ns by (induction ns) (simp_all add: mock_block_def)
  have b: "mock_blocks L c b = Ret (map (mock_block L) (u64_range c b))" for c by (rule mock_blocks_range [OF assms(3)])
  from assms(1) consider (good) "e = None" "r = new_PollerResult\<lparr>FromBlock := a, ToBlock := b, GoodBlocks := map (mock_block L) (u64_range a b), res_LastGoodBlock := b\<rparr>"
    | (reorg) good where "a \<noteq> ?m" "e = None" "mock_blocks_below L a ?m = Ret good"
        "GoodBlocks r = good" "ReorgedBlocks r = map (mock_block L) (u64_range ?m b)"
        "res_LastGoodBlock r = LastGoodBlock (new_PollerResult\<lparr>FromBlock := a, ToBlock := b, GoodBlocks := good, ReorgedBlocks := map (mock_block L) (u64_range ?m b)\<rparr>)"
    by (auto simp: mock_Poll_def Let_def go_bind_Ret_iff b split: if_splits)
  then show ?thesis
  proof cases
    case good
    then show ?thesis using num by (simp add: new_PollerResult_def)
  next
    case reorg
    have am: "a < ?m" using reorg(1) assms(4) by simp
    then have m0: "?m \<noteq> 0" by (metis word_not_simps(1))
    then have m1: "?m - 1 \<noteq> - 1" by (metis diff_add_cancel add.left_inverse)
    have good: "good = map (mock_block L) (u64_range a (?m - 1))"
      using reorg(3) m0 mock_blocks_range [OF m1] by (simp add: mock_blocks_below_def)
    have range: "u64_range ?m b = ?m # u64_range (?m + 1) b" by (rule u64_range_Cons [OF assms(5,3)])
    have "a \<le> ?m - 1" using am by (simp add: word_le_nat_alt word_less_nat_alt unat_minus_one [OF m0])
    have last: "u64_range a (?m - 1) \<noteq> [] \<and> last (u64_range a (?m - 1)) = ?m - 1"
      using \<open>a \<le> ?m - 1\<close> by (simp add: u64_range_def word_le_nat_alt)
    have "LastGoodBlock (new_PollerResult\<lparr>FromBlock := a, ToBlock := b, GoodBlocks := good, ReorgedBlocks := map (mock_block L) (u64_range ?m b)\<rparr>) = ?m - 1"
      using last good range by (auto simp: LastGoodBlock_def Let_def last_map mock_block_def new_PollerResult_def)
    then show ?thesis using reorg good num range u64_range_split [OF am assms(5)] by (simp add: mock_block_def)
  qed
qed

definition mock_sample :: mockPoller where
  "mock_sample = \<lparr>mp_currentIndex = 0, mp_reorgedBlocks = [6], mp_seen = (\<lambda>_. 1)\<rparr>"

definition mock_numbers :: "((poller_result option \<times> err) \<times> mockPoller) go \<Rightarrow> (u64 list \<times> u64 list) option" where
  "mock_numbers x = (case x of Ret ((Some r, _), _) \<Rightarrow> Some (map Number (GoodBlocks r), map Number (ReorgedBlocks r)) | _ \<Rightarrow> None)"

theorem mock_Poll_covers_witness:
  "\<exists>r p'. mock_Poll std_lib 5 7 mock_sample = Ret ((Some r, None), p') \<and>
     map Number (GoodBlocks r) = [5] \<and> map Number (ReorgedBlocks r) = [6, 7] \<and> res_LastGoodBlock r = 5"
proof -
  have "mock_numbers (mock_Poll std_lib 5 7 mock_sample) = Some ([5], [6, 7])" by code_simp
  then obtain r e p' where r: "mock_Poll std_lib 5 7 mock_sample = Ret ((Some r, e), p')"
      "map Number (GoodBlocks r) = [5]" "map Number (ReorgedBlocks r) = [6, 7]"
    by (auto simp: mock_numbers_def split: go.splits option.splits)
  from mock_Poll_covers [OF r(1)] have "e = None \<and> res_LastGoodBlock r = 5"
    using r(3) by (auto simp: mock_sample_def)
  then show ?thesis using r by (intro exI [of _ r] exI [of _ p']) simp
qed

end
