(* ===== verification/Watcher_System.thy ===== *)
theory Watcher_System
  imports Pipeline Coverage Mock
begin

text \<open>
  The whole watcher. The default watcher of \<open>pkg/components\<close> is put into a world that holds the poller,
  the engine's metadata, a node, a state gateway and a service, with the channels between the emitter
  and the engine; the engine's round runs where the emitter waits for its sync. What the emitter
  relies on (\<open>Coverage\<close>) is proved of this system from the definitions of the poller and of the engine.
\<close>

section \<open>What a call leaves alone\<close>

text \<open>\<open>kept f s m\<close>: if the call \<open>m\<close>, made in state \<open>s\<close>, returns, it has not changed what \<open>f\<close> reads.\<close>

definition kept :: "('s \<Rightarrow> 'x) \<Rightarrow> 's \<Rightarrow> ('r \<times> 's) go \<Rightarrow> bool" where
  "kept f s m \<longleftrightarrow> (\<forall>r s'. m = Ret (r, s') \<longrightarrow> f s' = f s)"

lemma kept_Ret [simp]: "kept f s (Ret (r, s))"
  by (simp add: kept_def)

lemma kept_bind:
  assumes "kept f s m" "\<And>r s1. m = Ret (r, s1) \<Longrightarrow> kept f s1 (g (r, s1))"
  shows "kept f s (go_bind m g)"
proof -
  have "f s' = f s" if run: "go_bind m g = Ret (r, s')" for r s'
  proof -
    obtain x where x: "m = Ret x" "g x = Ret (r, s')" using run by (auto simp: go_bind_Ret_iff)
    obtain r1 s1 where "x = (r1, s1)" by (cases x)
    then show ?thesis using assms x unfolding kept_def by metis
  qed
  then show ?thesis by (simp add: kept_def)
qed

lemma kept_pure: "(\<And>x. m = Ret x \<Longrightarrow> kept f s (g x)) \<Longrightarrow> kept f s (go_bind m g)"
  by (auto simp: kept_def go_bind_Ret_iff)

lemma kept_loop: "(\<And>x. kept f s (g x)) \<Longrightarrow> kept f s (go_bind (go_loop l) g)"
  by (rule kept_pure)

lemma kept_collect: "(\<And>x. kept f s (g x)) \<Longrightarrow> kept f s (go_bind (collectHeaders m a b hs) g)"
  by (rule kept_pure)

lemma kept_last: "kept f s (go_bind m (\<lambda>x. Ret (h x, s)))"
  by (rule kept_pure) simp

lemmas kept_intros = kept_bind kept_loop kept_collect kept_last

lemma kept_D: "kept f s m \<Longrightarrow> m = Ret (r, s') \<Longrightarrow> f s' = f s"
  by (simp add: kept_def)

definition client_keeps :: "('c \<Rightarrow> 'x) \<Rightarrow> 'c eth_client \<Rightarrow> bool" where
  "client_keeps f cl \<longleftrightarrow> (\<forall>q s. kept f s (ec_FilterLogs cl q s)) \<and> (\<forall>es s. kept f s (ec_BatchCallContext cl es s))"

lemma getHeaders_keeps: "client_keeps f cl \<Longrightarrow> kept f s (getHeadersByNumbers L cl ns s)"
  unfolding getHeadersByNumbers_def CallBatch_def Let_def
  by (auto simp: client_keeps_def intro!: kept_intros split: prod.splits sum.splits)

lemma fetch_concurrently_keeps: "client_keeps f cl \<Longrightarrow> kept f s (fetch_concurrently lf L cl q ns s)"
  unfolding fetch_concurrently_def Let_def
  using getHeaders_keeps [of f cl _ L]
  by (auto simp: client_keeps_def intro!: kept_intros split: prod.splits)

lemma pollCheap_keeps: "client_keeps f cl \<Longrightarrow> kept f s (pollCheap L a b as ts cl m s)"
  unfolding pollCheap_def
  using getHeaders_keeps [of f cl _ L]
  by (auto simp: client_keeps_def Let_def intro!: kept_intros split: prod.splits option.splits)

lemma pollExpensive_keeps: "client_keeps f cl \<Longrightarrow> kept f s (pollExpensive lf L a b as ts cl m s)"
  unfolding pollExpensive_def
  by (rule kept_pure) (use fetch_concurrently_keeps [of f cl] in \<open>auto intro!: kept_intros split: prod.splits option.splits\<close>)

lemma poll_keeps: "client_keeps f cl \<Longrightarrow> kept f s (poll lf L par as ts cl s)"
  unfolding poll_def by (auto simp: pollCheap_keeps pollExpensive_keeps) (simp add: kept_def)

lemma pollMissing_keeps: "client_keeps f cl \<Longrightarrow> kept f s (pollMissing S L par cl trk m s)"
  unfolding pollMissing_def
  using getHeaders_keeps [of f cl _ L]
  by (auto simp: Let_def intro!: kept_intros split: prod.splits option.splits)

lemma tracker_clearUntil_keeps:
  "tracker_clearUntil S n p = Ret p' \<Longrightarrow> client p' = client p \<and> filterRange p' = filterRange p \<and> doReorg p' = doReorg p"
  by (auto simp: tracker_clearUntil_def nil_call_def go_bind_Ret_iff split: option.splits)

text \<open>A poll changes the client's state only through the client.\<close>

lemma Poll_keeps:
  assumes "client_keeps f (client p)"
  shows "kept f s (Poll lf S L a b p s)"
proof -
  have "kept f s (go_bind (poll lf L par as ts (client p1) s) (\<lambda>((m1, e1), s1).
       if e1 \<noteq> None then Ret (((None, e1), p1), s1) else
     go_bind (pollMissing S L par (client p1) (tracker p1) (map_value m1) s1) (\<lambda>((m2, blocksMissing, e2), s2).
       if e2 \<noteq> None then Ret (((None, e2), p1), s2) else
     go_bind (Poll_process S L par blocksMissing (map_value m2) p1) (\<lambda>r. Ret (r, s2)))))"
    if "client p1 = client p" for p1 par as ts
  proof -
    have c: "client_keeps f (client p1)" using assms that by simp
    show ?thesis
      using poll_keeps [OF c] pollMissing_keeps [OF c]
      by (auto intro!: kept_intros split: prod.splits)
  qed
  then show ?thesis unfolding Poll_def Let_def
    by (rule kept_pure) (use tracker_clearUntil_keeps in \<open>auto split: if_splits\<close>)
qed

section \<open>What the emitter needs of a poll\<close>

text \<open>
  The head may lie before the start block, and then the emitter polls an inverted range: the report is
  empty and ends where it was told to.
\<close>

context poller_env
begin

lemma outcome_inverted:
  assumes "fetched s a b p bm m" "poll_outcome a b p (Poller_Correct.mark bm (watched S p) (u64_range a b) m) t' r e p'" "b < a"
  shows "LastGoodBlock r = b" "e = None"
proof -
  let ?m = "Poller_Correct.mark bm (watched S p) (u64_range a b) m"
  have none: "u64_range a b = []" by (rule u64_range_empty [OF assms(3)])
  then have "ReorgedBlocks r = []" using assms(2) by (simp add: poll_outcome_def reorged_of_def)
  then show "LastGoodBlock r = b" using outcome_recorded(4) [OF assms(2)] by (simp add: LastGoodBlock_no_reorg)
  have "results_fresh m" using assms(1) by (simp add: fetched_def)
  then have "\<not> from_forked ?m a" by (auto simp: none from_forked_def Poller_Correct.mark_def results_fresh_def split: option.splits)
  then show "e = None" using assms(2) by (simp add: poll_outcome_def)
qed

lemma outcome_bounds:
  assumes "fetched s a b p bm m" "poll_outcome a b p (Poller_Correct.mark bm (watched S p) (u64_range a b) m) t' r e p'"
    "poller_ok ss_map ss_ok p" "0 < a" "b \<noteq> - 1"
  shows "LastGoodBlock r \<le> b" "e \<noteq> None \<Longrightarrow> a \<le> LastGoodBlock r + 1"
proof -
  note rec = outcome_recorded [OF assms(2)]
  have blocks: "\<forall>g\<in>set (GoodBlocks r). a \<le> Number g \<and> Number g \<le> b" "\<forall>h\<in>set (ReorgedBlocks r). a \<le> Number h \<and> Number h \<le> b"
    using report_blocks(4) [OF assms(1,2)] outcome_reorged [OF assms(1-3)] by blast+
  have le: "LastGoodBlock r \<le> b" "a - 1 \<le> LastGoodBlock r" if "a \<le> b"
    using LastGoodBlock_le_to [of r] LastGoodBlock_ge_from [of r] blocks rec assms(4) that by simp_all
  show le2: "LastGoodBlock r \<le> b" using le outcome_inverted [OF assms(1,2)] by (cases "a \<le> b") auto
  assume "e \<noteq> None"
  then have ab: "a \<le> b" using outcome_inverted [OF assms(1,2)] by (cases "a \<le> b") auto
  have "unat (LastGoodBlock r + 1) = Suc (unat (LastGoodBlock r))" by (rule unat_succ_below [OF le2 assms(5)])
  moreover have "unat a = Suc (unat (a - 1))"
    using assms(4) unat_minus_one [of a] by (simp add: word_less_nat_alt word_neq_0_conv)
  ultimately show "a \<le> LastGoodBlock r + 1" using le(2) [OF ab] by (simp add: word_le_nat_alt)
qed

lemma Poll_range:
  assumes "poller_ok ss_map ss_ok p" "tracker p \<noteq> None" "0 < a" "b \<noteq> - 1" "Poll lf S L a b p s = Ret (((Some r, e), p'), s')"
  shows "FromBlock r = a" "ToBlock r = b" "res_LastGoodBlock r \<le> b" "e \<noteq> None \<Longrightarrow> a \<le> res_LastGoodBlock r + 1"
proof -
  obtain m bm t' where out: "fetched s a b p bm m"
      "poll_outcome a b p (Poller_Correct.mark bm (watched S p) (u64_range a b) m) t' r e p'"
    using Poll_report [OF assms] .
  note rec = outcome_recorded [OF out(2)] and bnd = outcome_bounds [OF out assms(1,3,4)]
  show "FromBlock r = a" "ToBlock r = b" by (rule rec(3,4))+
  show "res_LastGoodBlock r \<le> b" "e \<noteq> None \<Longrightarrow> a \<le> res_LastGoodBlock r + 1" using bnd rec(2) by simp_all
qed

end

section \<open>What a round of the engine changes\<close>

definition service_keeps :: "('w \<Rightarrow> 'x) \<Rightarrow> ('a, 'w) service_engine \<Rightarrow> bool" where
  "service_keeps f svc \<longleftrightarrow> (\<forall>bs as w. kept f w (HandleGoodBlocks svc bs as w)) \<and> (\<forall>bs as w. kept f w (HandleReorgedBlocks svc bs as w))"

lemma handle_reorged_keeps: "service_keeps f (serviceEngine e) \<Longrightarrow> kept f w (handle_reorged T L e r t w)"
  unfolding handle_reorged_def
  by (rule kept_pure) (auto simp: service_keeps_def intro!: kept_bind kept_last)

lemma handle_good_keeps: "service_keeps f (serviceEngine e) \<Longrightarrow> kept f w (handle_good T L e r t stray w)"
  unfolding handle_good_def
  by (rule kept_pure) (auto simp: service_keeps_def intro!: kept_bind kept_last)

text \<open>
  A round writes the last good block to the gateway exactly once, and only when everything before
  went well; an error comes before that or from the gateway itself.
\<close>

lemma handle_result_cases:
  assumes "handle_result T L e r t w = Ret ((er, t'), w')" "service_keeps f (serviceEngine e)"
  obtains (recorded) w2 w3 where "er = None" "f w2 = f w" "eng_gateway e (res_LastGoodBlock r) w2 = Ret (None, w3)"
      "SyncsEmitter (eng_client e) w3 = Ret w'"
    | (refused) w2 x where "er \<noteq> None" "f w2 = f w" "eng_gateway e (res_LastGoodBlock r) w2 = Ret (Some x, w')"
    | (service) "er \<noteq> None" "f w' = f w"
proof -
  obtain er1 t1 stray w1 where r1: "handle_reorged T L e r t w = Ret ((er1, t1, stray), w1)"
    using assms(1) by (auto simp: handle_result_def Let_def go_bind_Ret_iff)
  have f1: "f w1 = f w" by (rule kept_D [OF handle_reorged_keeps [OF assms(2)] r1])
  show thesis
  proof (cases er1)
    case (Some x)
    then show thesis using assms(1) r1 f1 by (intro service) (auto simp: handle_result_def)
  next
    case er1: None
    obtain er2 t2 w2 where r2: "handle_good T L e r t1 stray w1 = Ret ((er2, t2), w2)"
      using assms(1) r1 er1 by (auto simp: handle_result_def Let_def go_bind_Ret_iff)
    have f2: "f w2 = f w" using kept_D [OF handle_good_keeps [OF assms(2)] r2] f1 by simp
    show thesis
    proof (cases er2)
      case (Some x)
      then show thesis using assms(1) r1 er1 r2 f2 by (intro service) (auto simp: handle_result_def)
    next
      case er2: None
      obtain t3 er3 w3 where r3: "eng_gateway e (res_LastGoodBlock r) w2 = Ret (er3, w3)"
        "(if er3 \<noteq> None then Ret ((errors_Wrap er3 ''failed to save lastRecordedBlock %d'', t3), w3) else
          go_bind (SyncsEmitter (eng_client e) w3) (\<lambda>w4. Ret ((None, t3), w4))) = Ret ((er, t'), w')"
        using assms(1) r1 er1 r2 er2 by (auto simp: handle_result_def Let_def go_bind_Ret_iff)
      show thesis
      proof (cases er3)
        case None
        then show thesis using recorded [OF _ f2] r3 by (auto simp: go_bind_Ret_iff)
      next
        case (Some x)
        then show thesis using refused [OF _ f2] r3 by auto
      qed
    qed
  qed
qed

section \<open>The world of a watcher\<close>

text \<open>
  \<open>sys_slot\<close> is the report on its way from the emitter to the engine, \<open>sys_alive\<close> whether the goroutine
  of the engine still receives, \<open>sys_errors\<close> what was sent on the error channel, and \<open>sys_reports\<close> the
  history of the reports the engine handled to the end.
\<close>

record ('s, 't, 'a, 'c, 'g, 'v) sys_world =
  sys_poller :: "('s, unit) poller"
  sys_metadata :: "('t, 'a) metadataTracker"
  sys_node :: 'c
  sys_gateway :: 'g
  sys_service :: 'v
  sys_slot :: "poller_result option"
  sys_alive :: bool
  sys_errors :: "go_error list"
  sys_reports :: "poller_result list"

text \<open>What a user of \<open>NewSuperWatcherDefault\<close> passes to it, with the containers and the libraries.\<close>

record ('s, 't, 'a, 'c, 'g, 'v) parts =
  pt_logs_first :: bool
  pt_blocks :: "('s, block) sortedset"
  pt_meta :: "('t, nat) sortedset"
  pt_lib :: lib
  pt_config :: config
  pt_client :: "'c eth_client"
  pt_gateway :: "'g data_gateway"
  pt_service :: "('a, 'v) service_engine"
  pt_addresses :: "address list option"
  pt_topics :: "hash list list option"

text \<open>An operation of a part, as an operation of the world.\<close>

definition on_part :: "('w \<Rightarrow> 'x) \<Rightarrow> (('x \<Rightarrow> 'x) \<Rightarrow> 'w \<Rightarrow> 'w) \<Rightarrow> ('x \<Rightarrow> ('r \<times> 'x) go) \<Rightarrow> 'w \<Rightarrow> ('r \<times> 'w) go" where
  "on_part get upd act w = go_bind (act (get w)) (\<lambda>(r, x). Ret (r, upd (\<lambda>_. x) w))"

definition sys_client :: "'c eth_client \<Rightarrow> ('s, 't, 'a, 'c, 'g, 'v) sys_world eth_client" where
  "sys_client cl = \<lparr>ec_TypeName = ec_TypeName cl,
     ec_BlockNumber = on_part sys_node sys_node_update (ec_BlockNumber cl),
     ec_FilterLogs = (\<lambda>q. on_part sys_node sys_node_update (ec_FilterLogs cl q)),
     ec_HeaderByNumber = (\<lambda>n. on_part sys_node sys_node_update (ec_HeaderByNumber cl n)),
     ec_BatchCallContext = (\<lambda>es. on_part sys_node sys_node_update (ec_BatchCallContext cl es))\<rparr>"

definition sys_service_engine :: "('a, 'v) service_engine \<Rightarrow> ('a, ('s, 't, 'a, 'c, 'g, 'v) sys_world) service_engine" where
  "sys_service_engine svc = \<lparr>
     HandleGoodBlocks = (\<lambda>bs as. on_part sys_service sys_service_update (HandleGoodBlocks svc bs as)),
     HandleReorgedBlocks = (\<lambda>bs as. on_part sys_service sys_service_update (HandleReorgedBlocks svc bs as)),
     svc_HandleEmitterError = (\<lambda>x. on_part sys_service sys_service_update (svc_HandleEmitterError svc x))\<rparr>"

definition sys_cell ::
    "('s, 't, 'a, 'c, 'g, 'v) sys_world eth_client \<Rightarrow>
     (('s, 't, 'a, 'c, 'g, 'v) sys_world, ('s, ('s, 't, 'a, 'c, 'g, 'v) sys_world) poller) cell" where
  "sys_cell cl = \<lparr>cell_get = (\<lambda>w. with_client cl (sys_poller w)), cell_put = (\<lambda>p w. w\<lparr>sys_poller := with_client nil_eth_client p\<rparr>)\<rparr>"

interpretation sc: poller_cell "sys_cell cl" cl
  by unfold_locales (simp_all add: sys_cell_def with_client_def)

text \<open>The unbuffered channels: a report is handed over while the engine receives, and to nobody once it has ended.\<close>

definition sys_results :: "(poller_result, ('s, 't, 'a, 'c, 'g, 'v) sys_world) gochan" where
  "sys_results = \<lparr>
     gc_send = (\<lambda>r w. if sys_alive w then Ret (w\<lparr>sys_slot := Some r\<rparr>) else Hang),
     gc_recv = (\<lambda>w. case sys_slot w of None \<Rightarrow> Hang | Some r \<Rightarrow> Ret (Some r, w\<lparr>sys_slot := None\<rparr>)),
     gc_close = (\<lambda>w. Ret (w\<lparr>sys_alive := False\<rparr>))\<rparr>"

definition sys_errs :: "(go_error, ('s, 't, 'a, 'c, 'g, 'v) sys_world) gochan" where
  "sys_errs = \<lparr>
     gc_send = (\<lambda>x w. Ret (w\<lparr>sys_errors := sys_errors w @ [x]\<rparr>)),
     gc_recv = (\<lambda>w. case sys_errors w of [] \<Rightarrow> Hang | x # xs \<Rightarrow> Ret (Some x, w\<lparr>sys_errors := xs\<rparr>)),
     gc_close = Ret\<rparr>"

text \<open>
  The sync channel at the engine's end. The engine sends on it as the last thing of a round; when it
  ends, it closes the channel.
\<close>

definition sync_of_engine :: "(unit, ('s, 't, 'a, 'c, 'g, 'v) sys_world) gochan" where
  "sync_of_engine = \<lparr>gc_send = (\<lambda>_. Ret), gc_recv = (\<lambda>_. Hang), gc_close = (\<lambda>w. Ret (w\<lparr>sys_alive := False\<rparr>))\<rparr>"

definition sys_set_gateway :: "'g data_gateway \<Rightarrow> u64 \<Rightarrow> ('s, 't, 'a, 'c, 'g, 'v) sys_world \<Rightarrow> (err \<times> ('s, 't, 'a, 'c, 'g, 'v) sys_world) go" where
  "sys_set_gateway g n = on_part sys_gateway sys_gateway_update (SetLastRecordedBlock g n)"

definition sys_get_gateway :: "'g data_gateway \<Rightarrow> ('s, 't, 'a, 'c, 'g, 'v) sys_world \<Rightarrow> ((u64 \<times> err) \<times> ('s, 't, 'a, 'c, 'g, 'v) sys_world) go" where
  "sys_get_gateway g = on_part sys_gateway sys_gateway_update (GetLastRecordedBlock g)"

definition sys_engine :: "('s, 't, 'a, 'c, 'g, 'v) parts \<Rightarrow> ('t, 'a, ('s, 't, 'a, 'c, 'g, 'v) sys_world) engine" where
  "sys_engine P = NewEngineWithEmitterClient (pt_meta P) (pt_config P) (sys_service_engine (pt_service P)) (sys_set_gateway (pt_gateway P))
     (Some sync_of_engine) (Some sys_results) (Some sys_errs)"

text \<open>
  Receiving from the sync channel lets the engine finish its round. A receive from the closed channel
  returns at once.
\<close>

definition engine_turn ::
    "('s, 't, 'a, 'c, 'g, 'v) parts \<Rightarrow> ('s, 't, 'a, 'c, 'g, 'v) sys_world \<Rightarrow> (unit option \<times> ('s, 't, 'a, 'c, 'g, 'v) sys_world) go" where
  "engine_turn P w =
     (if \<not> sys_alive w then Ret (None, w)
      else go_bind (handleResults_round (pt_meta P) (pt_lib P) ((sys_engine P)\<lparr>metadataTracker := sys_metadata w\<rparr>) w) (\<lambda>((ended, e), w1).
        let w2 = w1\<lparr>sys_metadata := metadataTracker e\<rparr>
        in case ended of
             None \<Rightarrow> Ret (Some (), w2\<lparr>sys_reports := sys_reports w2 @ (case sys_slot w of None \<Rightarrow> [] | Some r \<Rightarrow> [r])\<rparr>)
           | Some _ \<Rightarrow> go_bind (engine_shutdown e w2) (\<lambda>w3. Ret (None, w3))))"

definition sys_sync :: "('s, 't, 'a, 'c, 'g, 'v) parts \<Rightarrow> (unit, ('s, 't, 'a, 'c, 'g, 'v) sys_world) gochan" where
  "sys_sync P = sync_of_engine\<lparr>gc_recv := engine_turn P\<rparr>"

definition sys_watcher ::
    "('s, 't, 'a, 'c, 'g, 'v) parts \<Rightarrow>
     ('s, ('s, 't, 'a, 'c, 'g, 'v) sys_world) poller \<times> ('t, 'a, ('s, 't, 'a, 'c, 'g, 'v) sys_world) superWatcher" where
  "sys_watcher P = NewSuperWatcherDefault (pt_logs_first P) (pt_blocks P) (pt_meta P) (pt_lib P) (sys_cell (sys_client (pt_client P)))
     (sys_sync P) sys_results sys_errs (pt_config P) (sys_client (pt_client P)) (sys_get_gateway (pt_gateway P))
     (sys_set_gateway (pt_gateway P)) (sys_service_engine (pt_service P)) (pt_addresses P) (pt_topics P)"

definition sys_emitter :: "('s, 't, 'a, 'c, 'g, 'v) parts \<Rightarrow> ('s, 't, 'a, 'c, 'g, 'v) sys_world emitter" where
  "sys_emitter P = spw_Emitter (snd (sys_watcher P))"

definition sys_start :: "('s, 't, 'a, 'c, 'g, 'v) parts \<Rightarrow> 'c \<Rightarrow> 'g \<Rightarrow> 'v \<Rightarrow> ('s, 't, 'a, 'c, 'g, 'v) sys_world" where
  "sys_start P c g v = \<lparr>sys_poller = with_client nil_eth_client (fst (sys_watcher P)), sys_metadata = metadata_newTracker (pt_meta P),
     sys_node = c, sys_gateway = g, sys_service = v, sys_slot = None, sys_alive = True, sys_errors = [], sys_reports = []\<rparr>"

text \<open>The engine whose turn it is is the engine of the watcher.\<close>

lemma sys_watcher_engine: "spw_Engine (snd (sys_watcher P)) = sys_engine P"
  by (simp add: sys_watcher_def sys_engine_def watcher_defs sys_sync_def sync_send_def)

text \<open>The block the gateway has recorded.\<close>

definition recorded_in :: "'g data_gateway \<Rightarrow> 'g \<Rightarrow> u64 option" where
  "recorded_in g s = (case GetLastRecordedBlock g s of Ret ((n, None), _) \<Rightarrow> Some n | _ \<Rightarrow> None)"

definition sys_recorded :: "('s, 't, 'a, 'c, 'g, 'v) parts \<Rightarrow> ('s, 't, 'a, 'c, 'g, 'v) sys_world \<Rightarrow> u64 option" where
  "sys_recorded P w = recorded_in (pt_gateway P) (sys_gateway w)"

definition sys_ranges :: "('s, 't, 'a, 'c, 'g, 'v) sys_world \<Rightarrow> (u64 \<times> u64) list" where
  "sys_ranges w = map (\<lambda>r. (FromBlock r, ToBlock r)) (sys_reports w)"

section \<open>The system keeps what the emitter relies on\<close>

text \<open>A gateway as the watcher needs it: a refused write changes nothing, and its errors are its own.\<close>

locale recording_gateway = state_gateway g fresh for g :: "'g data_gateway" and fresh +
  assumes set_failed: "SetLastRecordedBlock g n s = Ret (Some x, s') \<Longrightarrow> recorded_in g s' = recorded_in g s"
    and get_foreign: "GetLastRecordedBlock g s = Ret ((n, Some x), s') \<Longrightarrow> \<not> errors_Is x errNoNewBlock"
begin

lemma recorded_set: "SetLastRecordedBlock g n s = Ret (None, s') \<Longrightarrow> recorded_in g s' = Some n"
  using set_get by (auto simp: recorded_in_def)

lemma recorded_get:
  assumes "GetLastRecordedBlock g s = Ret ((n, er), s')"
  shows "s' = s" "er = None \<Longrightarrow> recorded_in g s = Some n" "er \<noteq> None \<Longrightarrow> recorded_in g s = None"
  using get_pure [OF assms] assms by (auto simp: recorded_in_def split: option.splits)

end

interpretation memg: recording_gateway mem_gateway mem_fresh
  by unfold_locales
    (auto simp: mem_gateway_def mem_GetLastRecordedBlock_def mem_SetLastRecordedBlock_def error_defs errNoNewBlock_def split: if_splits)

lemma on_part_Ret: "on_part get upd act w = Ret (r, w') \<longleftrightarrow> (\<exists>x. act (get w) = Ret (r, x) \<and> w' = upd (\<lambda>_. x) w)"
  by (auto simp: on_part_def go_bind_Ret_iff)

definition sys_frame where
  "sys_frame w = (sys_poller w, sys_gateway w, sys_reports w, sys_alive w)"

lemma sys_client_keeps: "client_keeps sys_frame (sys_client cl)"
  by (auto simp: client_keeps_def kept_def sys_client_def on_part_Ret sys_frame_def)

lemma sys_service_keeps: "service_keeps sys_frame (sys_service_engine svc)"
  by (auto simp: service_keeps_def kept_def sys_service_engine_def on_part_Ret sys_frame_def)

lemma sys_emitter_parts:
  "conf (sys_emitter P) = pt_config P" "em_BlockNumber (sys_emitter P) = on_part sys_node sys_node_update (ec_BlockNumber (pt_client P))"
  "em_stateDataGateway (sys_emitter P) = sys_get_gateway (pt_gateway P)"
  "em_poller (sys_emitter P) = poller_interface (pt_logs_first P) (pt_blocks P) (pt_lib P) (sys_cell (sys_client (pt_client P)))"
  "pollResultChan (sys_emitter P) = Some \<lparr>ch_send = gc_send sys_results, ch_close = gc_close sys_results\<rparr>"
  "errChan (sys_emitter P) = Some \<lparr>ch_send = gc_send sys_errs, ch_close = gc_close sys_errs\<rparr>"
  "SyncsEngine (sys_emitter P) w = go_bind (engine_turn P w) (\<lambda>(_, w'). Ret w')"
  by (simp_all add: sys_emitter_def sys_watcher_def watcher_defs sys_client_def send_end_def SyncsEngine_def sync_recv_def recv_end_def sys_sync_def)

lemma sys_engine_parts:
  "serviceEngine (sys_engine P) = sys_service_engine (pt_service P)" "eng_gateway (sys_engine P) = sys_set_gateway (pt_gateway P)"
  "SyncsEmitter (eng_client (sys_engine P)) w = Ret w" "WatcherResult (eng_client (sys_engine P)) w = gc_recv sys_results w"
  "client_Shutdown (eng_client (sys_engine P)) w = Ret (w\<lparr>sys_alive := False\<rparr>)"
  by (auto simp: sys_engine_def watcher_defs SyncsEmitter_def sync_send_def sync_of_engine_def WatcherResult_def recv_end_def
      client_Shutdown_def sys_results_def split: option.split)

locale watcher_system = poller_env "pt_blocks P" ss_map ss_ok "pt_lib P" + gw: recording_gateway "pt_gateway P" fresh
  for P :: "('s, 't, 'a, 'c, 'g, 'v) parts" and ss_map and ss_ok and fresh +
  assumes heads: "ec_BlockNumber (pt_client P) c = Ret ((n, er), c') \<Longrightarrow> n \<noteq> - 1"
    and node_errors: "ec_BlockNumber (pt_client P) c = Ret ((n, Some x), c') \<Longrightarrow> \<not> errors_Is x errNoNewBlock"
    and detects: "cfg_DoReorg (pt_config P)"
    and numbers: "MaxGoBackRetries (pt_config P) \<noteq> - 1" "0 < StartBlock (pt_config P)" "0 < FilterRange (pt_config P)"
begin

definition sys_inv :: "('s, 't, 'a, 'c, 'g, 'v) sys_world \<Rightarrow> bool" where
  "sys_inv w \<longleftrightarrow> poller_ok ss_map ss_ok (sys_poller w) \<and> tracker (sys_poller w) \<noteq> None"

lemma poller_ok_with: "poller_ok ss_map ss_ok (with_client cl p) = poller_ok ss_map ss_ok p"
  by (simp add: poller_ok_def with_client_def)

lemma sys_inv_start: "sys_inv (sys_start P c g v)"
proof -
  have "tracker (fst (sys_watcher P)) \<noteq> None" using detects by (simp add: sys_watcher_def watcher_defs poller_New_def)
  moreover have "poller_ok ss_map ss_ok (fst (sys_watcher P))" using poller_ok_New by (simp add: sys_watcher_def watcher_defs)
  ultimately show ?thesis by (simp add: sys_inv_def sys_start_def poller_ok_with) (simp add: with_client_def)
qed

text \<open>What the emitter's calls read of the world.\<close>

lemma frame_observed:
  assumes "sys_frame w' = sys_frame w"
  shows "sys_inv w' = sys_inv w" "sys_recorded P w' = sys_recorded P w" "sys_ranges w' = sys_ranges w"
  using assms by (simp_all add: sys_frame_def sys_inv_def sys_recorded_def sys_ranges_def)

lemma sys_poll:
  assumes "sys_inv w" "0 < a" "b \<noteq> - 1" "ep_Poll (em_poller (sys_emitter P)) a b w = Ret ((res, er), w')"
  shows "sys_inv w'" "sys_recorded P w' = sys_recorded P w" "sys_ranges w' = sys_ranges w"
    "res = Some r \<Longrightarrow> FromBlock r = a \<and> ToBlock r = b \<and> res_LastGoodBlock r \<le> b \<and> (er \<noteq> None \<longrightarrow> a \<le> res_LastGoodBlock r + 1)"
proof -
  let ?cl = "sys_client (pt_client P)" and ?p = "with_client (sys_client (pt_client P)) (sys_poller w)"
  obtain p1 w1 where run: "Poll (pt_logs_first P) (pt_blocks P) (pt_lib P) a b ?p w = Ret (((res, er), p1), w1)"
    and w': "w' = w1\<lparr>sys_poller := with_client nil_eth_client p1\<rparr>"
    using assms(4) by (auto simp: sys_emitter_parts poller_interface_def Let_def go_bind_Ret_iff sys_cell_def)
  have ok: "poller_ok ss_map ss_ok ?p" using assms(1) by (simp add: sys_inv_def poller_ok_with)
  have tr: "tracker ?p \<noteq> None" using assms(1) by (simp add: sys_inv_def with_client_def)
  have "client_keeps sys_frame (client ?p)" by (simp add: with_client_def sys_client_keeps)
  then have frame: "sys_frame w1 = sys_frame w" by (rule kept_D [OF Poll_keeps run])
  show "sys_inv w'" using poller_ok_Poll [OF ok tr assms(2,3) run] w'
    by (simp add: sys_inv_def poller_ok_with) (simp add: with_client_def)
  show "sys_recorded P w' = sys_recorded P w" "sys_ranges w' = sys_ranges w"
    using frame_observed(2,3) [OF frame] by (simp_all add: w' sys_recorded_def sys_ranges_def)
  assume r: "res = Some r"
  show "FromBlock r = a \<and> ToBlock r = b \<and> res_LastGoodBlock r \<le> b \<and> (er \<noteq> None \<longrightarrow> a \<le> res_LastGoodBlock r + 1)"
    using Poll_range [OF ok tr assms(2,3) run [unfolded r]] by blast
qed

text \<open>The engine's turn: the report is handled and its last good block recorded, or neither.\<close>

lemma sys_turn:
  assumes "sys_inv w" "sys_alive w" "engine_turn P (w\<lparr>sys_slot := Some r\<rparr>) = Ret (x, w')"
  shows "sys_inv w'" "sys_recorded P w' = Some (res_LastGoodBlock r) \<and> sys_ranges w' = sys_ranges w @ [(FromBlock r, ToBlock r)] \<or>
    sys_recorded P w' = sys_recorded P w \<and> sys_ranges w' = sys_ranges w"
proof -
  let ?e = "(sys_engine P)\<lparr>metadataTracker := sys_metadata w\<rparr>" and ?w = "w\<lparr>sys_slot := None\<rparr>"
  have e: "eng_client ?e = eng_client (sys_engine P)" "eng_gateway ?e = sys_set_gateway (pt_gateway P)"
    "service_keeps sys_frame (serviceEngine ?e)" by (simp_all add: sys_engine_parts sys_service_keeps)
  obtain er t w1 where round: "handle_result (pt_meta P) (pt_lib P) ?e r (sys_metadata w) ?w = Ret ((er, t), w1)"
    and out: "w' = (case er of None \<Rightarrow> w1\<lparr>sys_metadata := t, sys_reports := sys_reports w1 @ [r]\<rparr>
                           | Some _ \<Rightarrow> w1\<lparr>sys_metadata := t, sys_alive := False\<rparr>)"
  proof -
    from assms(2,3) obtain ended e2 w1 where h: "handleResults_round (pt_meta P) (pt_lib P) ?e (w\<lparr>sys_slot := Some r\<rparr>) = Ret ((ended, e2), w1)"
      by (auto simp: engine_turn_def go_bind_Ret_iff)
    have "handleResults_round (pt_meta P) (pt_lib P) ?e (w\<lparr>sys_slot := Some r\<rparr>) =
        go_bind (handle_result (pt_meta P) (pt_lib P) ?e r (sys_metadata w) ?w) (\<lambda>((er, t), w2).
             let e' = ?e\<lparr>metadataTracker := t\<rparr>
             in case er of None \<Rightarrow> Ret ((None, e'), w2) | Some x \<Rightarrow> Ret ((Some (Some x), e'), w2))"
      by (simp add: handleResults_round_def sys_engine_parts sys_results_def)
    with h obtain er t where "handle_result (pt_meta P) (pt_lib P) ?e r (sys_metadata w) ?w = Ret ((er, t), w1)"
      "(ended, e2) = (map_option Some er, ?e\<lparr>metadataTracker := t\<rparr>)"
      by (auto simp: go_bind_Ret_iff Let_def split: option.splits)
    then show thesis using that assms(2,3) h
      by (cases er) (auto simp: engine_turn_def sys_engine_parts engine_shutdown_def)
  qed
  have frame: "sys_frame ?w = sys_frame w" by (simp add: sys_frame_def)
  have set: "sys_poller w3 = sys_poller w2 \<and> sys_reports w3 = sys_reports w2 \<and>
      SetLastRecordedBlock (pt_gateway P) n (sys_gateway w2) = Ret (x, sys_gateway w3)"
    if "eng_gateway ?e n w2 = Ret (x, w3)" for n x w2 w3
    using that by (auto simp: e sys_set_gateway_def on_part_Ret)
  from round e(3) have "sys_poller w1 = sys_poller w \<and> sys_reports w1 = sys_reports w \<and>
      sys_recorded P w1 = (if er = None then Some (res_LastGoodBlock r) else sys_recorded P w)"
  proof (cases rule: handle_result_cases)
    case (recorded w2 w3)
    have "w3 = w1" using recorded(4) by (simp add: sys_engine_parts)
    then show ?thesis using recorded(1,2) frame set [OF recorded(3)] gw.recorded_set
      by (auto simp: sys_frame_def sys_recorded_def)
  next
    case (refused w2 x)
    then show ?thesis using frame set [OF refused(3)] gw.set_failed
      by (auto simp: sys_frame_def sys_recorded_def)
  next
    case service
    then show ?thesis using frame by (auto simp: sys_frame_def sys_recorded_def)
  qed
  then show "sys_inv w'" "sys_recorded P w' = Some (res_LastGoodBlock r) \<and> sys_ranges w' = sys_ranges w @ [(FromBlock r, ToBlock r)] \<or>
    sys_recorded P w' = sys_recorded P w \<and> sys_ranges w' = sys_ranges w"
    using out assms(1) by (cases er; auto simp: sys_inv_def sys_recorded_def sys_ranges_def)+
qed

lemma sys_deliver:
  assumes "sys_inv w" "emitFilterResult (sys_emitter P) (Some r) w = Ret w1" "SyncsEngine (sys_emitter P) w1 = Ret w2"
  shows "sys_inv w2 \<and> (sys_recorded P w2 = Some (res_LastGoodBlock r) \<and> sys_ranges w2 = sys_ranges w @ [(FromBlock r, ToBlock r)] \<or>
    sys_recorded P w2 = sys_recorded P w \<and> sys_ranges w2 = sys_ranges w)"
proof -
  have w1: "sys_alive w" "w1 = w\<lparr>sys_slot := Some r\<rparr>"
    using assms(2) by (auto simp: emitFilterResult_def sys_emitter_parts sys_results_def split: if_splits)
  obtain x where "engine_turn P (w\<lparr>sys_slot := Some r\<rparr>) = Ret (x, w2)"
    using assms(3) w1(2) by (auto simp: sys_emitter_parts go_bind_Ret_iff)
  then show ?thesis using sys_turn [OF assms(1) w1(1)] by blast
qed

lemma sys_gateway_read:
  assumes "em_stateDataGateway (sys_emitter P) w = Ret ((n, er), w')"
  shows "w' = w" "er = None \<Longrightarrow> sys_recorded P w = Some n" "er \<noteq> None \<Longrightarrow> sys_recorded P w = None"
    "er = Some x \<Longrightarrow> \<not> errors_Is x errNoNewBlock"
proof -
  obtain s where s: "GetLastRecordedBlock (pt_gateway P) (sys_gateway w) = Ret ((n, er), s)" "w' = w\<lparr>sys_gateway := s\<rparr>"
    using assms by (auto simp: sys_emitter_parts sys_get_gateway_def on_part_Ret)
  note get = gw.recorded_get [OF s(1)]
  show "w' = w" using get(1) s(2) by simp
  show "er = None \<Longrightarrow> sys_recorded P w = Some n" "er \<noteq> None \<Longrightarrow> sys_recorded P w = None"
    using get(2,3) by (simp_all add: sys_recorded_def)
  show "er = Some x \<Longrightarrow> \<not> errors_Is x errNoNewBlock" using gw.get_foreign s(1) by blast
qed

end

text \<open>The system meets the emitter's contract.\<close>

sublocale watcher_system \<subseteq> watched_world "sys_emitter P" sys_inv "sys_recorded P" sys_ranges
proof
  fix w n er w'
  assume read: "em_stateDataGateway (sys_emitter P) w = Ret ((n, er), w')" and ok: "sys_inv w"
  show "sys_inv w' \<and> sys_recorded P w' = sys_recorded P w \<and> sys_ranges w' = sys_ranges w \<and>
      (er = None \<longrightarrow> sys_recorded P w = Some n) \<and> (err_Is er ErrRecordNotFound \<longrightarrow> sys_recorded P w = None)"
    using sys_gateway_read(1-3) [OF read] ok by (cases er) simp_all
next
  fix w n er w'
  assume "em_BlockNumber (sys_emitter P) w = Ret ((n, er), w')" "sys_inv w"
  then show "sys_inv w' \<and> sys_recorded P w' = sys_recorded P w \<and> sys_ranges w' = sys_ranges w \<and> n \<noteq> - 1"
    using heads by (auto simp: sys_emitter_parts on_part_Ret sys_inv_def sys_recorded_def sys_ranges_def)
next
  fix w a b res er w'
  assume "sys_inv w" "0 < a" "b \<noteq> - 1" "ep_Poll (em_poller (sys_emitter P)) a b w = Ret ((res, er), w')"
  from sys_poll [OF this]
  show "sys_inv w' \<and> sys_recorded P w' = sys_recorded P w \<and> sys_ranges w' = sys_ranges w \<and>
      (\<forall>r. res = Some r \<longrightarrow> FromBlock r = a \<and> ToBlock r = b \<and> res_LastGoodBlock r \<le> b \<and> (er \<noteq> None \<longrightarrow> a \<le> res_LastGoodBlock r + 1))"
    by blast
next
  fix w er w'
  assume "sys_inv w" "emitError (sys_emitter P) er w = Ret w'"
  then show "sys_inv w' \<and> sys_recorded P w' = sys_recorded P w \<and> sys_ranges w' = sys_ranges w"
    by (auto simp: emitError_def sys_emitter_parts sys_errs_def sys_inv_def sys_recorded_def sys_ranges_def split: option.splits)
next
  fix w w'
  assume "sys_inv w" "Shutdown (sys_emitter P) w = Ret w'"
  then show "sys_inv w' \<and> sys_recorded P w' = sys_recorded P w \<and> sys_ranges w' = sys_ranges w"
    by (auto simp: Shutdown_def close_chan_def sys_emitter_parts sys_results_def sys_errs_def sys_inv_def sys_recorded_def sys_ranges_def)
next
  show "foreign_errors (sys_emitter P)" unfolding foreign_errors_def
    using sys_gateway_read(4) node_errors by (auto simp: sys_emitter_parts(2) on_part_Ret)
qed (use sys_deliver numbers in \<open>simp_all add: sys_emitter_parts(1)\<close>)

context watcher_system
begin

lemma sys_covered:
  assumes "bounded_run (pt_lib P) (sys_emitter P) ctx (sys_recorded P) (sys_start P c g v) (ph, w)"
    "StartBlock (pt_config P) \<le> base" "\<forall>r. recorded_in (pt_gateway P) g = Some r \<longrightarrow> r < base"
    "sys_recorded P w = Some rec" "base \<le> n" "n \<le> rec"
  shows "\<exists>(a, b)\<in>set (sys_ranges w). a \<le> n \<and> n \<le> b"
proof -
  have "\<forall>r. sys_recorded P (sys_start P c g v) = Some r \<longrightarrow> r < base" using assms(3) by (simp add: sys_recorded_def sys_start_def)
  then have "covered base w"
    using run_covered(1) [OF lib_spec_axioms assms(1) sys_inv_start] assms(2) by (simp add: sys_emitter_parts(1))
  then show ?thesis using assms(4-6) unfolding covered_def by blast
qed

end

section \<open>A sample system\<close>

text \<open>
  A node whose chain is scripted: every call of \<open>eth_blockNumber\<close> finds the next head and chain, or fails.
  With it go the memory gateway and a service that notes the numbers of the blocks it was given.
\<close>

type_synonym script = "(u64 \<times> eth_log list) option list"

definition scripted_head :: "script \<times> eth_log list \<Rightarrow> ((u64 \<times> err) \<times> (script \<times> eth_log list)) go" where
  "scripted_head s =
     (case s of
        (Some (n, logs) # rest, _) \<Rightarrow> Ret ((min n 1000, None), (rest, logs))
      | (None # rest, logs) \<Rightarrow> Ret ((0, Some ErrFetchError), (rest, logs))
      | ([], logs) \<Rightarrow> Ret ((0, Some ErrFetchError), ([], logs)))"

definition scripted_client :: "(script \<times> eth_log list) eth_client" where
  "scripted_client = \<lparr>ec_TypeName = ec_TypeName sample_client, ec_BlockNumber = scripted_head,
     ec_FilterLogs = (\<lambda>q. on_part snd apsnd (ec_FilterLogs sample_client q)),
     ec_HeaderByNumber = (\<lambda>n. on_part snd apsnd (ec_HeaderByNumber sample_client n)),
     ec_BatchCallContext = (\<lambda>es. on_part snd apsnd (ec_BatchCallContext sample_client es))\<rparr>"

definition noting_service :: "(unit, u64 list) service_engine" where
  "noting_service = \<lparr>HandleGoodBlocks = (\<lambda>bs _ ns. Ret ((\<lambda>_. [], None), ns @ map Number bs)),
     HandleReorgedBlocks = (\<lambda>bs _ ns. Ret ((\<lambda>_. [], None), filter (\<lambda>n. n \<notin> set (map Number bs)) ns)),
     svc_HandleEmitterError = (\<lambda>_ ns. Ret (None, ns))\<rparr>"

definition sample_parts ::
    "(block ss_node list, nat ss_node list, unit, script \<times> eth_log list, fakeRedisMem, u64 list) parts" where
  "sample_parts = \<lparr>pt_logs_first = True, pt_blocks = list_ss, pt_meta = list_ss, pt_lib = short_lib,
     pt_config = some_config, pt_client = scripted_client, pt_gateway = mem_gateway,
     pt_service = noting_service, pt_addresses = None, pt_topics = None\<rparr>"

lemma unbounded_head: "min n 1000 \<noteq> (- 1 :: u64)"
proof
  assume "min n 1000 = (- 1 :: u64)"
  then have "(- 1 :: u64) \<le> 1000" by (metis min.cobounded2)
  moreover have "\<not> (- 1 :: u64) \<le> 1000" by code_simp
  ultimately show False by blast
qed

interpretation ssy: watcher_system sample_parts list_ss_map list_ss_ok mem_fresh
proof -
  have parts: "pt_blocks sample_parts = list_ss" "pt_lib sample_parts = short_lib" "pt_gateway sample_parts = mem_gateway"
    by (simp_all add: sample_parts_def)
  have env: "poller_env (pt_blocks sample_parts) list_ss_map list_ss_ok (pt_lib sample_parts)"
    unfolding parts by (rule spl.poller_env_axioms)
  have gw: "recording_gateway (pt_gateway sample_parts) mem_fresh" unfolding parts by (rule memg.recording_gateway_axioms)
  show "watcher_system sample_parts list_ss_map list_ss_ok mem_fresh"
    by (intro watcher_system.intro watcher_system_axioms.intro env gw)
      (auto simp: sample_parts_def scripted_client_def scripted_head_def some_config_def unbounded_head error_defs errNoNewBlock_def split: list.splits option.splits)
qed

text \<open>Runs in which the recorded block stays below 1000, step by step.\<close>

definition never_done :: "'w go_context" where
  "never_done = \<lparr>ctx_Done = (\<lambda>_. False), ctx_Err = ErrUserError\<rparr>"

fun small_run ::
    "('s, 't, 'a, 'c, 'g, 'v) parts \<Rightarrow> nat \<Rightarrow> emitter_phase \<times> ('s, 't, 'a, 'c, 'g, 'v) sys_world \<Rightarrow>
     (emitter_phase \<times> ('s, 't, 'a, 'c, 'g, 'v) sys_world) option" where
  "small_run P 0 cfg = Some cfg"
| "small_run P (Suc k) cfg =
     (if (case sys_recorded P (snd cfg) of None \<Rightarrow> True | Some r \<Rightarrow> r < 1000)
      then (case Loop_step (pt_lib P) (sys_emitter P) never_done cfg of Ret cfg' \<Rightarrow> small_run P k cfg' | _ \<Rightarrow> None)
      else None)"

lemma small_run_bounded:
  assumes "bounded_run (pt_lib P) (sys_emitter P) never_done (sys_recorded P) start cfg" "small_run P k cfg = Some cfg'"
    "FilterRange (pt_config P) < 1000"
  shows "bounded_run (pt_lib P) (sys_emitter P) never_done (sys_recorded P) start cfg'"
  using assms(1,2)
proof (induction k arbitrary: cfg)
  case (Suc k)
  obtain cfg1 where s: "Loop_step (pt_lib P) (sys_emitter P) never_done cfg = Ret cfg1" "small_run P k cfg1 = Some cfg'"
    using Suc.prems(2) by (auto split: if_splits go.splits)
  have "in_bounds r (FilterRange (pt_config P))" if "r < 1000" for r
    using that assms(3) by (simp add: in_bounds_def word_less_nat_alt)
  then have "bounded (sys_emitter P) (sys_recorded P) (snd cfg)"
    using Suc.prems(2) by (auto simp: bounded_def sys_emitter_parts(1) split: if_splits)
  from Suc.IH [OF bounded_run.step [OF Suc.prems(1) this s(1)] s(2)] show ?case .
qed simp

definition sample_run where
  "sample_run script k =
     small_run sample_parts k (Loop_start, sys_start sample_parts (script, []) (NewDataGatewayMem 0 False) [])"

definition observed where
  "observed x = map_option (\<lambda>(_, w).
     (sys_recorded sample_parts w, sys_ranges w, sys_service w, map log_BlockNumber (snd (sys_node w)))) x"

lemma sample_run_bounded:
  assumes "sample_run script k = Some cfg"
  shows "bounded_run short_lib (sys_emitter sample_parts) never_done (sys_recorded sample_parts)
    (sys_start sample_parts (script, []) (NewDataGatewayMem 0 False) []) cfg"
  using small_run_bounded [OF bounded_run.init assms [unfolded sample_run_def]]
  by (simp add: sample_parts_def some_config_def)

text \<open>Block 6 is reorganised between the first and the second call, then the node fails and comes back.\<close>

definition flaky_script :: script where
  "flaky_script = [Some (6, chain1), Some (7, chain2), None, Some (8, chain2)]"

lemma flaky_run: "observed (sample_run flaky_script 6) = Some (Some 16, [(1, 6), (1, 7), (7, 16)], [5, 6], [5, 6])"
  by code_simp

section \<open>No block number is passed over\<close>



section \<open>What a restart may miss\<close>

text \<open>
  The node fails after the first poll and again after the next one. Each time \<open>Loop\<close> starts again, its
  first poll takes a whole filter range after the recorded block, past the head.
\<close>

definition restart_script :: script where
  "restart_script = [Some (6, chain1), None, Some (7, chain1), None,
     Some (20, chain1 @ [sample_log 8 80]), Some (21, chain1 @ [sample_log 8 80])]"


end
