(* ===== verification/Reorg_Sim.thy ===== *)
theory Reorg_Sim
  imports Poll_Collect "HOL-Library.AList"
begin

text \<open>
  The chain simulator (\<open>pkg/reorgsim\<close>), the mock client the project tests itself against. Chains are
  maps from numbers to pointers, and copying a chain copies the pointers, so blocks live in a store
  and a chain is an association list from numbers to addresses. A Go map that is iterated over is
  an association list in the order of the iteration, which the language leaves open: theorems hold
  for every order.
\<close>

section \<open>Blocks (block.go, hash.go)\<close>

record Block =
  sb_blockNumber :: u64
  sb_hash :: hash
  sb_logs :: "eth_log list"
  reorgedHere :: bool
  toBeForked :: bool

definition Block_header :: "Block \<Rightarrow> block_header" where
  "Block_header b = \<lparr>hd_Number = sb_blockNumber b, hd_Hash = sb_hash b, hd_Nonce = sb_blockNumber b,
     hd_Time = sb_blockNumber b, hd_GasLimit = sb_blockNumber b, hd_GasUsed = sb_blockNumber b\<rparr>"

text \<open>\<open>int64(i)\<close> reads the word as a signed number.\<close>

definition PRandomHash :: "lib \<Rightarrow> u64 \<Rightarrow> hash" where
  "PRandomHash L i = BigToHash L (sint i)"

definition ReorgHash :: "lib \<Rightarrow> u64 \<Rightarrow> int \<Rightarrow> hash" where
  "ReorgHash L blockNumber reorgIndex = PRandomHash L (blockNumber + rand_Int63 L reorgIndex)"

definition Block_reorg :: "lib \<Rightarrow> Block \<Rightarrow> int \<Rightarrow> Block" where
  "Block_reorg L b reorgIndex =
     (let reorgedHash = ReorgHash L (sb_blockNumber b) reorgIndex
      in \<lparr>sb_blockNumber = sb_blockNumber b, sb_hash = reorgedHash,
          sb_logs = map (\<lambda>l. l\<lparr>log_BlockHash := reorgedHash\<rparr>) (sb_logs b),
          reorgedHere = reorgedHere b, toBeForked = True\<rparr>)"

definition removeLogs :: "lib \<Rightarrow> Block \<Rightarrow> hash list \<Rightarrow> Block go" where
  "removeLogs L b txHashes =
     (if length (sb_logs b) = 0 then Panic ''block %d has no logs''
      else Ret (b\<lparr>sb_logs := gsl_FilterSlice L (\<lambda>l. \<not> gsl_Contains_hash L txHashes (log_TxHash l)) (sb_logs b)\<rparr>))"

section \<open>Parameters and events (reorgsim_param.go)\<close>

record Param =
  prm_StartBlock :: u64
  BlockProgress :: u64
  ExitBlock :: u64
  prm_Debug :: bool

record MoveLogs =
  NewBlock :: u64
  TxHashes :: "hash list"

record ReorgEvent =
  ReorgTrigger :: u64
  ReorgBlock :: u64
  MovedLogs :: "(u64 \<times> MoveLogs list) list"

definition DefaultParam :: Param where
  "DefaultParam = \<lparr>prm_StartBlock = 0, BlockProgress = 20, ExitBlock = 0, prm_Debug = True\<rparr>"

definition errInvalidReorgEvents :: go_error where
  "errInvalidReorgEvents = ErrNew ''invalid reorg events''"

definition ErrExitBlockReached :: go_error where
  "ErrExitBlockReached = ErrNew ''exitBlock reached for reorgsim''"

text \<open>The first component is the slice returned, nil with an error.\<close>

fun validateReorgEvent :: "ReorgEvent list \<Rightarrow> ReorgEvent list option \<times> err" where
  "validateReorgEvent [] = (Some [], None)"
| "validateReorgEvent (event # events) =
     (let event' = (if ReorgTrigger event = 0 then event\<lparr>ReorgTrigger := ReorgBlock event\<rparr> else event)
      in if list_ex (\<lambda>m. fst m < ReorgBlock event) (MovedLogs event)
         then (None, Some (ErrWrap errInvalidReorgEvents ''logs moved from %d, which is before reorgBlock %d''))
         else case validateReorgEvent events of
                (None, e) \<Rightarrow> (None, e)
              | (Some es, e) \<Rightarrow> (Some (event' # es), e))"

section \<open>Chains (chain.go)\<close>

definition NoReorg :: u64 where "NoReorg = 0"

type_synonym store = "Block list"
type_synonym BlockChain = "(u64 \<times> nat) list"

definition blk :: "store \<Rightarrow> BlockChain \<Rightarrow> u64 \<Rightarrow> Block option" where
  "blk st chain n = map_option (\<lambda>p. st ! p) (map_of chain n)"

definition copyBlockChain :: "BlockChain \<Rightarrow> BlockChain" where
  "copyBlockChain chain = chain"

fun chain_reorg :: "lib \<Rightarrow> u64 \<Rightarrow> int \<Rightarrow> BlockChain \<Rightarrow> store \<Rightarrow> BlockChain \<times> store" where
  "chain_reorg L reorgedBlock reorgIndex [] st = ([], st)"
| "chain_reorg L reorgedBlock reorgIndex ((number, p) # chain) st =
     (if number \<ge> reorgedBlock
      then (case chain_reorg L reorgedBlock reorgIndex chain (st @ [Block_reorg L (st ! p) reorgIndex]) of
              (chain', st') \<Rightarrow> ((number, length st) # chain', st'))
      else (case chain_reorg L reorgedBlock reorgIndex chain st of
              (chain', st') \<Rightarrow> ((number, p) # chain', st')))"

text \<open>One move out of the block at \<open>b\<close>: the blocks moved to so far, and the store.\<close>

definition move_one ::
    "lib \<Rightarrow> BlockChain \<Rightarrow> nat \<Rightarrow> MoveLogs \<Rightarrow> u64 list \<times> store \<Rightarrow> (u64 list \<times> store) go" where
  "move_one L chain b move s =
     (case s of (moveToBlocks, st) \<Rightarrow>
        case map_of chain (NewBlock move) of
          None \<Rightarrow> Panic ''logs moved to non-existent block %d''
        | Some target \<Rightarrow>
            (let moveToBlocks' = (if gsl_Contains_u64 L moveToBlocks (NewBlock move) then moveToBlocks else moveToBlocks @ [NewBlock move]);
                 logsToMove = filter (\<lambda>l. gsl_Contains_hash L (TxHashes move) (log_TxHash l)) (sb_logs (st ! b))
             in go_bind (removeLogs L (st ! b) (TxHashes move)) (\<lambda>b'.
                  let st1 = st[b := b'];
                      moved = map (\<lambda>l. l\<lparr>log_BlockNumber := sb_blockNumber (st1 ! target), log_BlockHash := sb_hash (st1 ! target)\<rparr>) logsToMove
                  in Ret (moveToBlocks', st1[target := (st1 ! target)\<lparr>sb_logs := sb_logs (st1 ! target) @ moved\<rparr>]))))"

fun move_from :: "lib \<Rightarrow> BlockChain \<Rightarrow> nat \<Rightarrow> MoveLogs list \<Rightarrow> u64 list \<times> store \<Rightarrow> (u64 list \<times> store) go" where
  "move_from L chain b [] s = Ret s"
| "move_from L chain b (move # moves) s = go_bind (move_one L chain b move s) (move_from L chain b moves)"

text \<open>Returns the blocks moved from, the blocks moved to, and the store.\<close>

fun moveLogs ::
    "lib \<Rightarrow> BlockChain \<Rightarrow> (u64 \<times> MoveLogs list) list \<Rightarrow> u64 list \<times> u64 list \<times> store \<Rightarrow> (u64 list \<times> u64 list \<times> store) go" where
  "moveLogs L chain [] s = Ret s"
| "moveLogs L chain ((moveFromBlock, moves) # movedLogs) (froms, tos, st) =
     (case map_of chain moveFromBlock of
        None \<Rightarrow> Panic ''logs moved from non-existent block %d''
      | Some b \<Rightarrow>
          go_bind (move_from L chain b moves (tos, st)) (\<lambda>(tos', st').
            moveLogs L chain movedLogs (froms @ [moveFromBlock], tos', st')))"

definition new_block :: "u64 \<Rightarrow> u64 \<Rightarrow> eth_log list \<Rightarrow> Block go" where
  "new_block reorgedBlock blockNumber logs =
     (let fork = (if reorgedBlock = NoReorg then False else blockNumber \<ge> reorgedBlock)
      in case logs of
           [] \<Rightarrow> Panic ''index out of range [0] with length 0''
         | l # ls \<Rightarrow>
             if list_ex (\<lambda>x. log_BlockHash x \<noteq> log_BlockHash l) ls
             then Panic ''logs blockHashes on block %d don't match: %s vs %s''
             else Ret \<lparr>sb_blockNumber = blockNumber, sb_hash = log_BlockHash l, sb_logs = logs,
                       reorgedHere = (blockNumber = reorgedBlock), toBeForked = fork\<rparr>)"

fun newBlockChain :: "u64 \<Rightarrow> (u64 \<times> eth_log list) list \<Rightarrow> store \<Rightarrow> (BlockChain \<times> store) go" where
  "newBlockChain reorgedBlock [] st = Ret ([], st)"
| "newBlockChain reorgedBlock ((blockNumber, logs) # mappedLogs) st =
     go_bind (new_block reorgedBlock blockNumber logs) (\<lambda>b.
     go_bind (newBlockChain reorgedBlock mappedLogs (st @ [b])) (\<lambda>(chain, st').
       Ret ((blockNumber, length st) # chain, st')))"

text \<open>
  A block created for a number that one of the chains lacks. The result of reorganising it is
  dropped, so it keeps the zero hash.
\<close>

definition created_block :: "ReorgEvent \<Rightarrow> u64 \<Rightarrow> Block" where
  "created_block event n =
     \<lparr>sb_blockNumber = n, sb_hash = 0, sb_logs = [], reorgedHere = (n = ReorgBlock event), toBeForked = True\<rparr>"

fun ensure_from ::
    "ReorgEvent \<Rightarrow> BlockChain \<Rightarrow> u64 list \<Rightarrow> BlockChain \<times> store \<Rightarrow> (BlockChain \<times> store) go" where
  "ensure_from event prev [] s = Ret s"
| "ensure_from event prev (n # ns) (fork, st) =
     (if map_of prev n = None then Panic ''moved from non-existent block %d in the old chain''
      else if map_of fork n = None
      then ensure_from event prev ns (AList.update n (length st) fork, st @ [created_block event n])
      else ensure_from event prev ns (fork, st))"

fun ensure_to ::
    "ReorgEvent \<Rightarrow> BlockChain \<Rightarrow> u64 list \<Rightarrow> BlockChain \<times> store \<Rightarrow> (BlockChain \<times> store) go" where
  "ensure_to event fork [] s = Ret s"
| "ensure_to event fork (n # ns) (prev, st) =
     (if map_of fork n = None then Panic ''moved to non-existent block %d in the new chain''
      else if map_of prev n = None
      then ensure_to event fork ns (AList.update n (length st) prev, st @ [created_block event n])
      else ensure_to event fork ns (prev, st))"

text \<open>
  One event: the previous chain (which may get new blocks), the forked chain, and the store.
\<close>

definition apply_event :: "lib \<Rightarrow> int \<Rightarrow> ReorgEvent \<Rightarrow> BlockChain \<Rightarrow> store \<Rightarrow> ((BlockChain \<times> BlockChain) \<times> store) go" where
  "apply_event L i event prevChain st =
     (case chain_reorg L (ReorgBlock event) i (copyBlockChain prevChain) st of
        (forkedChain, st1) \<Rightarrow>
          go_bind (moveLogs L forkedChain (MovedLogs event) ([], [], st1)) (\<lambda>(moveFromBlocks, moveToBlocks, st2).
          go_bind (ensure_from event prevChain moveFromBlocks (forkedChain, st2)) (\<lambda>(forkedChain1, st3).
          go_bind (ensure_to event forkedChain1 moveToBlocks (prevChain, st3)) (\<lambda>(prevChain1, st4).
            Ret ((prevChain1, forkedChain1), st4)))))"

text \<open>The chains made so far, the last one first.\<close>

fun apply_events :: "lib \<Rightarrow> int \<Rightarrow> ReorgEvent list \<Rightarrow> BlockChain \<Rightarrow> BlockChain list \<Rightarrow> store \<Rightarrow> (BlockChain list \<times> store) go" where
  "apply_events L i [] prevChain done_rev st = Ret (rev (prevChain # done_rev), st)"
| "apply_events L i (event # events) prevChain done_rev st =
     go_bind (apply_event L i event prevChain st) (\<lambda>((prevChain1, forkedChain), st').
       apply_events L (i + 1) events forkedChain (prevChain1 # done_rev) st')"

definition NewBlockChain ::
    "lib \<Rightarrow> (u64 \<times> eth_log list) list \<Rightarrow> ReorgEvent list \<Rightarrow> ((BlockChain \<times> BlockChain list) \<times> store) go" where
  "NewBlockChain L logs events =
     (case events of
        [] \<Rightarrow> go_bind (newBlockChain NoReorg logs []) (\<lambda>(chain, st). Ret ((chain, []), st))
      | event # _ \<Rightarrow>
          go_bind (newBlockChain (ReorgBlock event) logs []) (\<lambda>(chain, st).
          go_bind (apply_events L 0 events chain [] st) (\<lambda>(chains, st').
            Ret ((hd chains, tl chains), st'))))"

section \<open>Logs (utils.go)\<close>

text \<open>\<open>m[k] = append(m[k], v)\<close>.\<close>

definition append_at :: "'k \<Rightarrow> 'v \<Rightarrow> ('k \<times> 'v list) list \<Rightarrow> ('k \<times> 'v list) list" where
  "append_at k v m = AList.update k ((case map_of m k of None \<Rightarrow> [] | Some vs \<Rightarrow> vs) @ [v]) m"

definition MapLogsToNumber :: "eth_log list \<Rightarrow> (u64 \<times> eth_log list) list" where
  "MapLogsToNumber logs = fold (\<lambda>l m. append_at (log_BlockNumber l) l m) logs []"

definition mapLogsToTxHash :: "eth_log list \<Rightarrow> (hash \<times> eth_log list) list" where
  "mapLogsToTxHash logs = fold (\<lambda>l m. append_at (log_TxHash l) l m) logs []"

text \<open>\<open>readLogsJSON\<close> reads and parses a file, which is a parameter; it panics when it cannot.\<close>

fun InitLogsFromFiles :: "(string \<Rightarrow> eth_log list go) \<Rightarrow> string list \<Rightarrow> eth_log list go" where
  "InitLogsFromFiles readLogsJSON [] = Ret []"
| "InitLogsFromFiles readLogsJSON (filename # filenames) =
     go_bind (readLogsJSON filename) (\<lambda>fileLogs.
     go_bind (InitLogsFromFiles readLogsJSON filenames) (\<lambda>logs. Ret (fileLogs @ logs)))"

definition InitMappedLogsFromFiles :: "(string \<Rightarrow> eth_log list go) \<Rightarrow> string list \<Rightarrow> (u64 \<times> eth_log list) list go" where
  "InitMappedLogsFromFiles readLogsJSON filenames =
     go_bind (InitLogsFromFiles readLogsJSON filenames) (\<lambda>logs. Ret (MapLogsToNumber logs))"

text \<open>The moves of one event by transaction, a later move of a transaction replacing an earlier one.\<close>

definition track_moves :: "ReorgEvent \<Rightarrow> (hash \<times> u64 \<times> u64) list" where
  "track_moves event =
     fold (\<lambda>(movedFromBlock, moves) m0.
       fold (\<lambda>move m1.
         fold (\<lambda>txHash m2. AList.update txHash (movedFromBlock, NewBlock move) m2) (TxHashes move) m1) moves m0)
       (MovedLogs event) []"

definition LogsReorgPaths :: "lib \<Rightarrow> ReorgEvent list \<Rightarrow> hash list \<times> (hash \<times> u64 list) list \<times> (hash \<times> u64) list" where
  "LogsReorgPaths L events =
     fold (\<lambda>event s.
       fold (\<lambda>(txHash, from, to) (logsHashes, logsPark, logsDest).
         (if gsl_Contains_hash L logsHashes txHash then logsHashes else logsHashes @ [txHash],
          append_at txHash from logsPark, AList.update txHash to logsDest)) (track_moves event) s)
       events ([], [], [])"

text \<open>
  The filter of one log: whether it is appended. The first topic of the query and of the log are
  read when both filters are given, which panics when there is none.
\<close>

definition filter_log :: "lib \<Rightarrow> address list option \<Rightarrow> hash list list option \<Rightarrow> eth_log \<Rightarrow> bool go" where
  "filter_log L addresses topics log =
     (case addresses of
        None \<Rightarrow> Ret (topics = None)
      | Some as \<Rightarrow>
          (case topics of
             None \<Rightarrow> Ret (gsl_Contains_address L as (log_Address log))
           | Some [] \<Rightarrow> Panic ''index out of range [0] with length 0''
           | Some (t # _) \<Rightarrow>
               (case log_Topics log of
                  [] \<Rightarrow> Panic ''index out of range [0] with length 0''
                | x # _ \<Rightarrow> Ret (gsl_Contains_hash L t x \<or> gsl_Contains_address L as (log_Address log)))))"

fun appendFilterLogs ::
    "lib \<Rightarrow> eth_log list \<Rightarrow> eth_log list \<Rightarrow> address list option \<Rightarrow> hash list list option \<Rightarrow> eth_log list go" where
  "appendFilterLogs L [] dst addresses topics = Ret dst"
| "appendFilterLogs L (log # src) dst addresses topics =
     go_bind (filter_log L addresses topics log) (\<lambda>keep.
       appendFilterLogs L src (if keep then dst @ [log] else dst) addresses topics)"

section \<open>The simulator (reorgsim.go, reorgsim_reorg.go)\<close>

record ReorgSim =
  param :: Param
  events :: "ReorgEvent list"
  currentReorgEvent :: int
  triggered :: int
  sim_forked :: int
  currentChain :: BlockChain
  reorgedChains :: "BlockChain list"
  currentBlock :: u64
  sim_store :: store

definition NewReorgSim ::
    "Param \<Rightarrow> ReorgEvent list \<Rightarrow> BlockChain \<Rightarrow> BlockChain list \<Rightarrow> store \<Rightarrow> ReorgSim option \<times> err" where
  "NewReorgSim prm evs chain reorged st =
     (case validateReorgEvent evs of
        (validated, Some e) \<Rightarrow> (None, Some (ErrWrap e ''invalid events''))
      | (validated, None) \<Rightarrow>
          (Some \<lparr>param = prm, events = (case validated of None \<Rightarrow> [] | Some es \<Rightarrow> es), currentReorgEvent = 0,
                 triggered = -1, sim_forked = -1, currentChain = chain, reorgedChains = reorged,
                 currentBlock = 0, sim_store = st\<rparr>, None))"

definition NewReorgSimFromLogs ::
    "lib \<Rightarrow> Param \<Rightarrow> ReorgEvent list \<Rightarrow> (u64 \<times> eth_log list) list \<Rightarrow> (ReorgSim option \<times> err) go" where
  "NewReorgSimFromLogs L prm evs logs =
     go_bind (NewBlockChain L logs evs) (\<lambda>((chain, reorged), st). Ret (NewReorgSim prm evs chain reorged st))"

definition NewReorgSimFromLogsFiles ::
    "lib \<Rightarrow> (string \<Rightarrow> eth_log list go) \<Rightarrow> Param \<Rightarrow> ReorgEvent list \<Rightarrow> string list \<Rightarrow> (ReorgSim option \<times> err) go" where
  "NewReorgSimFromLogsFiles L readLogsJSON prm evs logsFiles =
     go_bind (InitMappedLogsFromFiles readLogsJSON logsFiles) (\<lambda>logs. NewReorgSimFromLogs L prm evs logs)"

definition ReorgedChain :: "ReorgSim \<Rightarrow> int \<Rightarrow> BlockChain go" where
  "ReorgedChain r i =
     (if 0 \<le> i \<and> nat i < length (reorgedChains r) then Ret (reorgedChains r ! nat i) else Panic ''index out of range'')"

definition event_at :: "ReorgSim \<Rightarrow> int \<Rightarrow> ReorgEvent go" where
  "event_at r i = (if 0 \<le> i \<and> nat i < length (events r) then Ret (events r ! nat i) else Panic ''index out of range'')"

definition forkChain :: "ReorgSim \<Rightarrow> ReorgSim go" where
  "forkChain r =
     go_bind (event_at r (currentReorgEvent r)) (\<lambda>event.
     go_bind (ReorgedChain r (currentReorgEvent r)) (\<lambda>chain.
       Ret (r\<lparr>currentBlock := ReorgBlock event, sim_forked := triggered r, currentChain := chain,
              currentReorgEvent := currentReorgEvent r + 1\<rparr>)))"

definition triggerForkChain :: "u64 \<Rightarrow> u64 \<Rightarrow> ReorgSim \<Rightarrow> ReorgSim go" where
  "triggerForkChain rangeStart rangeEnd r =
     (if events r = [] \<or> currentReorgEvent r \<ge> int (length (events r)) then Ret r
      else go_bind (event_at r (currentReorgEvent r)) (\<lambda>event.
        if rangeStart \<le> ReorgTrigger event \<and> rangeEnd \<ge> ReorgTrigger event then
          (if triggered r < currentReorgEvent r then Ret (r\<lparr>triggered := currentReorgEvent r\<rparr>)
           else if triggered r > sim_forked r \<and> currentReorgEvent r > sim_forked r then forkChain r
           else Ret r)
        else Ret r))"

section \<open>The client's methods (reorgsim_ethclient_impl.go)\<close>

definition sim_block :: "ReorgSim \<Rightarrow> u64 \<Rightarrow> Block option" where
  "sim_block r n = blk (sim_store r) (currentChain r) n"

definition big_Uint64 :: "int \<Rightarrow> u64" where
  "big_Uint64 i = word_of_int \<bar>i\<bar>"

definition FilterLogs :: "lib \<Rightarrow> filter_query \<Rightarrow> ReorgSim \<Rightarrow> ((eth_log list \<times> err) \<times> ReorgSim) go" where
  "FilterLogs L query r =
     (case q_FromBlock query of
        None \<Rightarrow> Ret (([], Some (ErrNew ''nil query.FromBlock'')), r)
      | Some qfrom \<Rightarrow>
     case q_ToBlock query of
        None \<Rightarrow> Ret (([], Some (ErrNew ''nil query.ToBlock'')), r)
      | Some qto \<Rightarrow>
          (let fromBlk = big_Uint64 qfrom;
               toBlk = (if fromBlk > big_Uint64 qto then fromBlk else big_Uint64 qto)
           in go_bind (triggerForkChain fromBlk toBlk r) (\<lambda>r1.
              go_bind (go_loop (for_up (\<lambda>number logs.
                  case sim_block r1 number of
                    None \<Rightarrow> Inr logs
                  | Some b \<Rightarrow>
                      (case appendFilterLogs L (sb_logs b) logs (q_Addresses query) (q_Topics query) of
                         Ret logs' \<Rightarrow> Inr logs'
                       | stop \<Rightarrow> Inl stop)) fromBlk toBlk [])) (\<lambda>res.
                case res of
                  Inl stop \<Rightarrow> go_bind stop (\<lambda>logs. Ret ((logs, None), r1))
                | Inr logs \<Rightarrow> Ret ((logs, None), r1)))))"

definition sim_BlockNumber :: "ReorgSim \<Rightarrow> ((u64 \<times> err) \<times> ReorgSim) go" where
  "sim_BlockNumber r =
     (if currentBlock r = 0
      then Ret ((prm_StartBlock (param r), None), r\<lparr>currentBlock := prm_StartBlock (param r)\<rparr>)
      else if currentBlock r \<ge> ExitBlock (param r)
      then Ret ((currentBlock r, Some (ErrWrap ErrExitBlockReached ''exit block %d reached'')), r)
      else Ret ((currentBlock r, None), r\<lparr>currentBlock := currentBlock r + BlockProgress (param r)\<rparr>))"

text \<open>The block made up for a number the chain does not have.\<close>

definition absent_block :: "lib \<Rightarrow> ReorgSim \<Rightarrow> ReorgEvent \<Rightarrow> u64 \<Rightarrow> Block" where
  "absent_block L r event number =
     (let fork = (number \<ge> ReorgBlock event)
      in \<lparr>sb_blockNumber = number,
          sb_hash = (if fork then ReorgHash L number (currentReorgEvent r) else PRandomHash L number),
          sb_logs = [], reorgedHere = (number = ReorgBlock event), toBeForked = fork\<rparr>)"

definition sim_HeaderByNumber :: "lib \<Rightarrow> int \<Rightarrow> ReorgSim \<Rightarrow> ((block_header option \<times> err) \<times> ReorgSim) go" where
  "sim_HeaderByNumber L number r =
     (let blockNumber = big_Uint64 number
      in case sim_block r blockNumber of
           Some b \<Rightarrow> Ret ((Some (Block_header b), None), r)
         | None \<Rightarrow> go_bind (event_at r (currentReorgEvent r)) (\<lambda>event.
             Ret ((Some (Block_header (absent_block L r event blockNumber)), None), r)))"

text \<open>\<open>done\<close> collects the elements already processed; an element that fails ends the call.\<close>

fun batch_elems :: "lib \<Rightarrow> ReorgSim \<Rightarrow> batch_elem list \<Rightarrow> batch_elem list \<Rightarrow> (batch_elem list \<times> err) go" where
  "batch_elems L r ready [] = Ret (ready, None)"
| "batch_elems L r ready (elem # elems) =
     (if be_Method elem \<noteq> MethodGetBlockByNumber then batch_elems L r (ready @ [elem]) elems
      else case DecodeBig L (be_Arg elem) of
             None \<Rightarrow> Ret (ready @ elem # elems, Some (ErrWrap (ErrNew ''hexutil'') ''elems[%d] has invalid argument for method %s''))
           | Some bn \<Rightarrow>
               (let number = big_Uint64 bn
                in go_bind (case sim_block r number of
                     Some b \<Rightarrow> Ret b
                   | None \<Rightarrow>
                       (let eventIndex = (if currentReorgEvent r \<ge> int (length (events r)) then int (length (events r)) - 1 else currentReorgEvent r)
                        in go_bind (event_at r eventIndex) (\<lambda>event. Ret (absent_block L r event number)))) (\<lambda>b.
                  batch_elems L r (ready @ [elem\<lparr>be_Result := ResBlockHeader (Block_header b)\<rparr>]) elems)))"

definition BatchCallContext :: "lib \<Rightarrow> batch_elem list \<Rightarrow> ReorgSim \<Rightarrow> ((batch_elem list \<times> err) \<times> ReorgSim) go" where
  "BatchCallContext L elems r = go_bind (batch_elems L r [] elems) (\<lambda>res. Ret (res, r))"

text \<open>The simulator as the client of a poller.\<close>

definition sim_client :: "lib \<Rightarrow> ReorgSim eth_client" where
  "sim_client L = \<lparr>ec_TypeName = ''*reorgsim.ReorgSim'', ec_BlockNumber = sim_BlockNumber, ec_FilterLogs = FilterLogs L,
     ec_HeaderByNumber = sim_HeaderByNumber L, ec_BatchCallContext = BatchCallContext L\<rparr>"

end
