(* ===== verification/Reorg_Sim_Theorems.thy ===== *)
theory Reorg_Sim_Theorems
  imports Reorg_Sim "HOL-Library.Multiset"
begin

text \<open>
  What the simulator does: building a reorganised chain re-hashes exactly the blocks from the reorg
  block on and neither loses nor duplicates a log; older chains stay as they were unless logs are
  moved to a block before the reorg block; an event forks the chain at the second query that covers
  its trigger; queries answer from the current chain; the head advances until the exit block.
\<close>

section \<open>Well-formed chains\<close>

definition block_ok :: "u64 \<Rightarrow> Block \<Rightarrow> bool" where
  "block_ok n b \<longleftrightarrow> sb_blockNumber b = n \<and>
     (\<forall>l\<in>set (sb_logs b). log_BlockNumber l = n \<and> log_BlockHash l = sb_hash b)"

definition chain_ok :: "store \<Rightarrow> BlockChain \<Rightarrow> bool" where
  "chain_ok st chain \<longleftrightarrow> distinct (map fst chain) \<and> distinct (map snd chain) \<and>
     (\<forall>(n, p)\<in>set chain. p < length st \<and> block_ok n (st ! p))"

text \<open>The transactions of a chain, with their multiplicity.\<close>

definition block_txs :: "Block \<Rightarrow> hash multiset" where
  "block_txs b = mset (map log_TxHash (sb_logs b))"

definition chain_txs :: "store \<Rightarrow> BlockChain \<Rightarrow> hash multiset" where
  "chain_txs st chain = (\<Sum>x\<leftarrow>chain. block_txs (st ! snd x))"

lemma chain_okD:
  assumes "chain_ok st chain" "map_of chain n = Some p"
  shows "p < length st" "block_ok n (st ! p)" "(n, p) \<in> set chain"
  using assms map_of_SomeD [OF assms(2)] by (auto simp: chain_ok_def)

lemma block_txs_map: "(\<And>l. log_TxHash (f l) = log_TxHash l) \<Longrightarrow> mset (map log_TxHash (map f ls)) = mset (map log_TxHash ls)"
  by (simp add: comp_def)

lemma block_txs_reorg: "block_txs (Block_reorg L b i) = block_txs b"
  using block_txs_map [of "\<lambda>l. l\<lparr>log_BlockHash := ReorgHash L (sb_blockNumber b) i\<rparr>"]
  by (simp add: block_txs_def Block_reorg_def Let_def)

lemma Block_reorg_ok:
  assumes "block_ok n b"
  shows "block_ok n (Block_reorg L b i)" "sb_hash (Block_reorg L b i) = ReorgHash L n i"
    "length (sb_logs (Block_reorg L b i)) = length (sb_logs b)"
  using assms by (auto simp: block_ok_def Block_reorg_def Let_def)

section \<open>Reorganising a chain\<close>

text \<open>The block a pointer of the new chain comes from.\<close>

definition comes_from :: "lib \<Rightarrow> u64 \<Rightarrow> int \<Rightarrow> BlockChain \<Rightarrow> store \<Rightarrow> store \<Rightarrow> u64 \<times> nat \<Rightarrow> bool" where
  "comes_from L rb i chain st st' x \<longleftrightarrow> (\<exists>p. (fst x, p) \<in> set chain \<and>
     (if rb \<le> fst x then length st \<le> snd x \<and> snd x < length st' \<and> st' ! snd x = Block_reorg L (st ! p) i else snd x = p))"

lemma chain_reorg_shape:
  assumes "chain_reorg L rb i chain st = (chain', st')" "\<forall>x\<in>set chain. snd x < length st" "distinct (map snd chain)"
  shows "(\<exists>new. st' = st @ new) \<and> map fst chain' = map fst chain \<and> (\<forall>x\<in>set chain'. comes_from L rb i chain st st' x) \<and>
    distinct (map snd chain') \<and> chain_txs st' chain' = chain_txs st chain"
  using assms
proof (induction chain arbitrary: st chain')
  case Nil
  then show ?case by (simp add: chain_txs_def)
next
  case (Cons x chain)
  obtain n p where x: "x = (n, p)" by (cases x)
  define st1 where "st1 = (if rb \<le> n then st @ [Block_reorg L (st ! p) i] else st)"
  define q where "q = (if rb \<le> n then length st else p)"
  obtain c where r: "chain_reorg L rb i chain st1 = (c, st')" and c': "chain' = (n, q) # c"
    using Cons.prems(1) by (auto simp: x st1_def q_def split: if_splits prod.splits)
  have pre: "\<forall>x\<in>set chain. snd x < length st1" using Cons.prems(2) by (auto simp: st1_def)
  have p: "p < length st" "length st \<le> length st1" using Cons.prems(2) by (auto simp: x st1_def)
  have same: "m < length st \<Longrightarrow> st1 ! m = st ! m" for m by (simp add: st1_def nth_append)
  obtain new where new: "st' = st1 @ new" and IH: "map fst c = map fst chain" "\<forall>x\<in>set c. comes_from L rb i chain st1 st' x"
      "distinct (map snd c)" "chain_txs st' c = chain_txs st1 chain"
    using Cons.IH [OF r pre] Cons.prems(3) by auto
  have lookup: "st' ! q = (if rb \<le> n then Block_reorg L (st ! p) i else st ! p)"
    using p by (auto simp: new q_def st1_def nth_append)
  have from_x: "comes_from L rb i (x # chain) st st' (n, q)"
    using lookup p by (auto simp: comes_from_def x q_def new st1_def)
  have from_c: "comes_from L rb i (x # chain) st st' y" if yc: "y \<in> set c" for y
  proof -
    obtain p' where p': "(fst y, p') \<in> set chain"
        "if rb \<le> fst y then length st1 \<le> snd y \<and> snd y < length st' \<and> st' ! snd y = Block_reorg L (st1 ! p') i else snd y = p'"
      using bspec [OF IH(2) yc] by (auto simp: comes_from_def)
    have "p' < length st" using p'(1) Cons.prems(2) by auto
    then show ?thesis using p' p(2) same by (auto simp: comes_from_def split: if_splits)
  qed
  have "q \<notin> snd ` set c"
  proof
    assume "q \<in> snd ` set c"
    then obtain y where y: "y \<in> set c" "snd y = q" by auto
    then obtain p' where p': "(fst y, p') \<in> set chain" "if rb \<le> fst y then length st1 \<le> q else q = p'"
      using bspec [OF IH(2) y(1)] unfolding comes_from_def y(2) by (metis (full_types))
    have "p' < length st" "p' \<noteq> p" using p'(1) Cons.prems(2,3) by (auto simp: x image_iff)
    then show False using p'(2) p by (auto simp: q_def st1_def split: if_splits)
  qed
  moreover have "chain_txs st1 chain = chain_txs st chain"
    unfolding chain_txs_def using same Cons.prems(2) by (intro arg_cong [where f = sum_list] map_cong) auto
  moreover have "block_txs (st' ! q) = block_txs (st ! p)"
    by (simp add: lookup block_txs_reorg)
  ultimately show ?case
    using from_x from_c IH new by (auto simp: c' x st1_def chain_txs_def)
qed

lemma chain_reorg_ok:
  assumes "chain_reorg L rb i chain st = (chain', st')" "chain_ok st chain"
  shows "chain_ok st' chain'" "\<exists>new. st' = st @ new" "map fst chain' = map fst chain" "chain_txs st' chain' = chain_txs st chain"
    "map_of chain n = Some p \<Longrightarrow> \<exists>q. map_of chain' n = Some q \<and>
       (if rb \<le> n then length st \<le> q \<and> st' ! q = Block_reorg L (st ! p) i else q = p)"
proof -
  have pre: "\<forall>x\<in>set chain. snd x < length st" "distinct (map snd chain)" "distinct (map fst chain)"
    using assms(2) by (auto simp: chain_ok_def)
  note sh = chain_reorg_shape [OF assms(1) pre(1,2)]
  show new: "\<exists>new. st' = st @ new" and keys: "map fst chain' = map fst chain" and "chain_txs st' chain' = chain_txs st chain"
    using sh by blast+
  have src: "comes_from L rb i chain st st' x" if "x \<in> set chain'" for x using sh that by blast
  have "snd x < length st' \<and> block_ok (fst x) (st' ! snd x)" if xc: "x \<in> set chain'" for x
  proof -
    obtain p where p: "(fst x, p) \<in> set chain"
        "if rb \<le> fst x then length st \<le> snd x \<and> snd x < length st' \<and> st' ! snd x = Block_reorg L (st ! p) i else snd x = p"
      using src [OF xc] by (auto simp: comes_from_def)
    have "p < length st" "block_ok (fst x) (st ! p)" using p(1) assms(2) by (auto simp: chain_ok_def)
    then show ?thesis using p(2) new Block_reorg_ok(1) by (auto simp: nth_append split: if_splits)
  qed
  then show "chain_ok st' chain'" using sh pre(3) keys by (auto simp: chain_ok_def)
  show "\<exists>q. map_of chain' n = Some q \<and> (if rb \<le> n then length st \<le> q \<and> st' ! q = Block_reorg L (st ! p) i else q = p)"
    if n: "map_of chain n = Some p"
  proof -
    have "n \<in> fst ` set chain'" using map_of_SomeD [OF n] keys by (metis fst_conv image_eqI list.set_map)
    then obtain q where q: "map_of chain' n = Some q" by (metis map_of_eq_None_iff not_None_eq)
    obtain p' where "(n, p') \<in> set chain" "if rb \<le> n then length st \<le> q \<and> q < length st' \<and> st' ! q = Block_reorg L (st ! p') i else q = p'"
      using src [OF map_of_SomeD [OF q]] unfolding comes_from_def fst_conv snd_conv by blast
    moreover have "p' = p" using calculation(1) n pre(3) by (simp add: map_of_eq_Some_iff)
    ultimately show ?thesis using q by (auto split: if_splits)
  qed
qed

section \<open>Moving logs\<close>

lemma chain_txs_update:
  assumes "distinct (map snd chain)" "b \<in> snd ` set chain" "b < length st"
  shows "chain_txs (st[b := x]) chain + block_txs (st ! b) = chain_txs st chain + block_txs x"
  using assms
proof (induction chain)
  case (Cons y chain)
  show ?case
  proof (cases "snd y = b")
    case True
    then have "b \<notin> snd ` set chain" using Cons.prems(1) by auto
    then have "chain_txs (st[b := x]) chain = chain_txs st chain"
      unfolding chain_txs_def by (intro arg_cong [where f = sum_list] map_cong) (auto simp: image_iff nth_list_update)
    then show ?thesis using True Cons.prems(3) by (simp add: chain_txs_def add_ac)
  next
    case False
    then show ?thesis using Cons.IH Cons.prems by (auto simp: chain_txs_def add_ac nth_list_update)
  qed
qed simp

text \<open>What moving keeps: every block but its logs.\<close>

definition same_blocks :: "store \<Rightarrow> store \<Rightarrow> bool" where
  "same_blocks st st' \<longleftrightarrow> length st' = length st \<and>
     (\<forall>p < length st. sb_hash (st' ! p) = sb_hash (st ! p) \<and> sb_blockNumber (st' ! p) = sb_blockNumber (st ! p))"

definition targets :: "MoveLogs list \<Rightarrow> u64 set" where
  "targets moves = NewBlock ` set moves"

definition moved_blocks :: "ReorgEvent \<Rightarrow> u64 set" where
  "moved_blocks event = fst ` set (MovedLogs event) \<union> (\<Union>m\<in>set (MovedLogs event). targets (snd m))"

lemma same_blocks_refl [simp]: "same_blocks st st"
  by (simp add: same_blocks_def)

lemma same_blocks_trans: "same_blocks a b \<Longrightarrow> same_blocks b c \<Longrightarrow> same_blocks a c"
  by (simp add: same_blocks_def)

context lib_spec
begin

lemma move_one_ok:
  assumes "chain_ok st chain" "map_of chain n = Some b" "move_one L chain b move (tos, st) = Ret (tos', st')"
  shows "chain_ok st' chain" "same_blocks st st'" "chain_txs st' chain = chain_txs st chain"
    "set tos' = insert (NewBlock move) (set tos)" "NewBlock move \<in> fst ` set chain"
    "p \<noteq> b \<Longrightarrow> map_of chain (NewBlock move) \<noteq> Some p \<Longrightarrow> st' ! p = st ! p"
proof -
  obtain t where t: "map_of chain (NewBlock move) = Some t" using assms(3) by (auto simp: move_one_def split: option.splits)
  note bo = chain_okD [OF assms(1,2)] and to = chain_okD [OF assms(1) t]
  let ?in = "\<lambda>l. log_TxHash l \<in> set (TxHashes move)"
  let ?b = "(st ! b)\<lparr>sb_logs := filter (\<lambda>l. \<not> ?in l) (sb_logs (st ! b))\<rparr>"
  let ?st1 = "st[b := ?b]"
  let ?moved = "map (\<lambda>l. l\<lparr>log_BlockNumber := sb_blockNumber (?st1 ! t), log_BlockHash := sb_hash (?st1 ! t)\<rparr>) (filter ?in (sb_logs (st ! b)))"
  let ?t = "(?st1 ! t)\<lparr>sb_logs := sb_logs (?st1 ! t) @ ?moved\<rparr>"
  have st': "st' = ?st1[t := ?t]" and tos': "tos' = (if NewBlock move \<in> set tos then tos else tos @ [NewBlock move])"
    using assms(3) t by (auto simp: move_one_def removeLogs_def Let_def lib_simps go_bind_Ret_iff split: if_splits)
  show "set tos' = insert (NewBlock move) (set tos)" by (auto simp: tos')
  show "NewBlock move \<in> fst ` set chain" using to(3) by force
  show "p \<noteq> b \<Longrightarrow> map_of chain (NewBlock move) \<noteq> Some p \<Longrightarrow> st' ! p = st ! p" using t by (auto simp: st')
  show same: "same_blocks st st'"
    using bo(1) to(1) by (auto simp: same_blocks_def st' nth_list_update)
  have d: "distinct (map snd chain)" using assms(1) by (simp add: chain_ok_def)
  have mem: "b \<in> snd ` set chain" "t \<in> snd ` set chain" using bo(3) to(3) by force+
  have moved: "mset (map log_TxHash ?moved) = mset (map log_TxHash (filter ?in (sb_logs (st ! b))))" by (rule block_txs_map) simp
  have "chain_txs ?st1 chain + block_txs (st ! b) = chain_txs st chain + block_txs ?b"
    by (rule chain_txs_update [OF d mem(1) bo(1)])
  moreover have "block_txs (st ! b) = block_txs ?b + mset (map log_TxHash ?moved)"
    unfolding moved block_txs_def by (simp flip: image_mset_union)
  moreover have "chain_txs st' chain + block_txs (?st1 ! t) = chain_txs ?st1 chain + block_txs ?t"
    unfolding st' using chain_txs_update [OF d mem(2), of ?st1 ?t] to(1) by simp
  moreover have "block_txs ?t = block_txs (?st1 ! t) + mset (map log_TxHash ?moved)" by (simp add: block_txs_def)
  ultimately show "chain_txs st' chain = chain_txs st chain" by (simp add: add_ac)
  have b1: "block_ok n ?b" using bo(2) by (auto simp: block_ok_def)
  have st1: "block_ok m (?st1 ! q)" if "(m, q) \<in> set chain" for m q
  proof (cases "q = b")
    case True
    then have "m = n" using that bo(3) d by (metis distinct_map inj_onD prod.inject snd_conv)
    then show ?thesis using True b1 bo(1) by simp
  next
    case False
    then show ?thesis using that assms(1) by (auto simp: chain_ok_def)
  qed
  have "block_ok (NewBlock move) ?t" using st1 [OF to(3)] by (auto simp: block_ok_def)
  then have "block_ok m (st' ! q)" if "(m, q) \<in> set chain" for m q
  proof (cases "q = t")
    case True
    then have "m = NewBlock move" using that to(3) d by (metis distinct_map inj_onD prod.inject snd_conv)
    then show ?thesis using True \<open>block_ok (NewBlock move) ?t\<close> to(1) by (simp add: st')
  next
    case False
    then show ?thesis using st1 [OF that] by (simp add: st')
  qed
  then show "chain_ok st' chain" using assms(1) same by (auto simp: chain_ok_def same_blocks_def)
qed

lemma move_from_ok:
  assumes "move_from L chain b moves (tos, st) = Ret (tos', st')" "chain_ok st chain" "map_of chain n = Some b"
  shows "chain_ok st' chain \<and> same_blocks st st' \<and> chain_txs st' chain = chain_txs st chain \<and>
    set tos' = targets moves \<union> set tos \<and> targets moves \<subseteq> fst ` set chain \<and>
    (\<forall>p. p \<noteq> b \<and> (\<forall>m\<in>targets moves. map_of chain m \<noteq> Some p) \<longrightarrow> st' ! p = st ! p)"
  using assms(1,2)
proof (induction moves arbitrary: tos st)
  case Nil
  then show ?case by (simp add: targets_def)
next
  case (Cons move moves)
  obtain tos1 st1 where one: "move_one L chain b move (tos, st) = Ret (tos1, st1)" and rest: "move_from L chain b moves (tos1, st1) = Ret (tos', st')"
    using Cons.prems(1) by (auto simp: go_bind_Ret_iff)
  note o = move_one_ok [OF Cons.prems(2) assms(3) one]
  note IH = Cons.IH [OF rest o(1)]
  have t: "targets (move # moves) = insert (NewBlock move) (targets moves)" by (simp add: targets_def)
  show ?case unfolding t
  proof (intro conjI)
    show "same_blocks st st'" using same_blocks_trans o(2) IH by blast
    show "\<forall>p. p \<noteq> b \<and> (\<forall>m\<in>insert (NewBlock move) (targets moves). map_of chain m \<noteq> Some p) \<longrightarrow> st' ! p = st ! p"
      using IH o(6) by (metis insertCI)
  qed (use IH o in auto)
qed

lemma moveLogs_ok:
  assumes "moveLogs L chain moved (froms, tos, st) = Ret (froms', tos', st')" "chain_ok st chain"
  shows "chain_ok st' chain \<and> same_blocks st st' \<and> chain_txs st' chain = chain_txs st chain \<and>
    froms' = froms @ map fst moved \<and> fst ` set moved \<subseteq> fst ` set chain \<and>
    set tos' = set tos \<union> (\<Union>m\<in>set moved. targets (snd m)) \<and> (\<Union>m\<in>set moved. targets (snd m)) \<subseteq> fst ` set chain \<and>
    (\<forall>p. (\<forall>m\<in>fst ` set moved \<union> (\<Union>m\<in>set moved. targets (snd m)). map_of chain m \<noteq> Some p) \<longrightarrow> st' ! p = st ! p)"
  using assms
proof (induction moved arbitrary: froms tos st)
  case Nil
  then show ?case by simp
next
  case (Cons x moved)
  obtain n moves where x: "x = (n, moves)" by (cases x)
  obtain b where b: "map_of chain n = Some b" using Cons.prems(1) by (cases "map_of chain n") (auto simp: x)
  obtain tos1 st1 where one: "move_from L chain b moves (tos, st) = Ret (tos1, st1)"
      and rest: "moveLogs L chain moved (froms @ [n], tos1, st1) = Ret (froms', tos', st')"
    using Cons.prems(1) b by (auto simp: x go_bind_Ret_iff)
  note o = move_from_ok [OF one Cons.prems(2) b]
  note IH = Cons.IH [OF rest conjunct1 [OF o]]
  have n: "n \<in> fst ` set chain" using map_of_SomeD [OF b] by force
  show ?case
  proof (intro conjI)
    show "same_blocks st st'" by (rule same_blocks_trans [OF conjunct1 [OF conjunct2 [OF o]] conjunct1 [OF conjunct2 [OF IH]]])
    show "\<forall>p. (\<forall>m\<in>fst ` set (x # moved) \<union> (\<Union>m\<in>set (x # moved). targets (snd m)). map_of chain m \<noteq> Some p) \<longrightarrow> st' ! p = st ! p"
    proof (intro allI impI)
      fix p assume p: "\<forall>m\<in>fst ` set (x # moved) \<union> (\<Union>m\<in>set (x # moved). targets (snd m)). map_of chain m \<noteq> Some p"
      then have "p \<noteq> b" "\<forall>m\<in>targets moves. map_of chain m \<noteq> Some p" using b by (auto simp: x)
      then have "st1 ! p = st ! p" using o by blast
      moreover have "\<forall>m\<in>fst ` set moved \<union> (\<Union>m\<in>set moved. targets (snd m)). map_of chain m \<noteq> Some p"
        using p by (simp add: ball_Un)
      then have "st' ! p = st1 ! p" using IH by blast
      ultimately show "st' ! p = st ! p" by simp
    qed
    show "chain_ok st' chain" "chain_txs st' chain = chain_txs st chain" "froms' = froms @ map fst (x # moved)"
      using IH o by (simp_all add: x)
    show "fst ` set (x # moved) \<subseteq> fst ` set chain" using IH n by (simp add: x)
    show "set tos' = set tos \<union> (\<Union>m\<in>set (x # moved). targets (snd m))" using IH o by (simp add: x Un_ac)
    show "(\<Union>m\<in>set (x # moved). targets (snd m)) \<subseteq> fst ` set chain" using IH o by (simp add: x)
  qed
qed

text \<open>The repairs after the moves never find anything to repair.\<close>

lemma ensure_from_id:
  assumes "set ns \<subseteq> fst ` set prev" "set ns \<subseteq> fst ` set fork"
  shows "ensure_from event prev ns (fork, st) = Ret (fork, st)"
  using assms by (induction ns) (auto simp: map_of_eq_None_iff)

lemma ensure_to_id:
  assumes "set ns \<subseteq> fst ` set fork" "set ns \<subseteq> fst ` set prev"
  shows "ensure_to event fork ns (prev, st) = Ret (prev, st)"
  using assms by (induction ns) (auto simp: map_of_eq_None_iff)

lemma apply_event_ok:
  assumes "apply_event L i event prev st = Ret ((prev', fork), st')" "chain_ok st prev"
  shows "prev' = prev" "map fst fork = map fst prev" "chain_ok st' fork" "chain_txs st' fork = chain_txs st prev"
    "length st \<le> length st'" "p < length st \<Longrightarrow> sb_hash (st' ! p) = sb_hash (st ! p) \<and> sb_blockNumber (st' ! p) = sb_blockNumber (st ! p)"
    "blk st prev n = Some b \<Longrightarrow> \<exists>b'. blk st' fork n = Some b' \<and> sb_hash b' = (if ReorgBlock event \<le> n then ReorgHash L n i else sb_hash b)"
    "moved_blocks event \<subseteq> {n. ReorgBlock event \<le> n} \<Longrightarrow> p < length st \<Longrightarrow> st' ! p = st ! p"
proof -
  obtain f1 st1 where r: "chain_reorg L (ReorgBlock event) i prev st = (f1, st1)" by fastforce
  note c = chain_reorg_ok [OF r assms(2)]
  obtain froms tos st2 where m: "moveLogs L f1 (MovedLogs event) ([], [], st1) = Ret (froms, tos, st2)"
    using assms(1) by (auto simp: apply_event_def copyBlockChain_def r go_bind_Ret_iff)
  note ml = moveLogs_ok [OF m c(1)]
  have keys: "fst ` set f1 = fst ` set prev" using c(3) by (metis list.set_map)
  have sub: "set froms \<subseteq> fst ` set f1" "set tos \<subseteq> fst ` set f1" using ml by auto
  have res: "prev' = prev" "fork = f1" "st' = st2"
    using assms(1) ensure_from_id [of froms prev f1 event st2] ensure_to_id [of tos f1 prev event st2] sub keys
    by (simp_all add: apply_event_def copyBlockChain_def r m)
  have same: "same_blocks st1 st2" using ml by blast
  obtain new where new: "st1 = st @ new" using c(2) by blast
  show "prev' = prev" by (rule res)
  show "map fst fork = map fst prev" "chain_ok st' fork" "chain_txs st' fork = chain_txs st prev" using c(3,4) ml by (simp_all add: res)
  show "length st \<le> length st'" using same new by (simp add: res same_blocks_def)
  show "sb_hash (st' ! p) = sb_hash (st ! p) \<and> sb_blockNumber (st' ! p) = sb_blockNumber (st ! p)" if "p < length st"
    using same that by (simp add: res new same_blocks_def nth_append)
  show "\<exists>b'. blk st' fork n = Some b' \<and> sb_hash b' = (if ReorgBlock event \<le> n then ReorgHash L n i else sb_hash b)"
    if n: "blk st prev n = Some b"
  proof -
    obtain p where p: "map_of prev n = Some p" "b = st ! p" using n by (auto simp: blk_def)
    obtain q where q: "map_of f1 n = Some q" "if ReorgBlock event \<le> n then length st \<le> q \<and> st1 ! q = Block_reorg L (st ! p) i else q = p"
      using c(5) [OF p(1)] by blast
    have "q < length st1" using chain_okD(1) [OF c(1) q(1)] .
    then have "sb_hash (st2 ! q) = sb_hash (st1 ! q)" using same by (simp add: same_blocks_def)
    moreover have "sb_hash (st1 ! q) = (if ReorgBlock event \<le> n then ReorgHash L n i else sb_hash b)"
      using q(2) p chain_okD(1,2) [OF assms(2) p(1)] Block_reorg_ok(2) by (auto simp: new nth_append split: if_splits)
    ultimately show ?thesis using q(1) by (simp add: blk_def res)
  qed
  show "st' ! p = st ! p" if mv: "moved_blocks event \<subseteq> {n. ReorgBlock event \<le> n}" and p: "p < length st"
  proof -
    have "map_of f1 m \<noteq> Some p" if "m \<in> moved_blocks event" for m
    proof
      assume f: "map_of f1 m = Some p"
      have "m \<in> fst ` set prev" using map_of_SomeD [OF f] keys by force
      then obtain p0 where p0: "map_of prev m = Some p0" by (metis map_of_eq_None_iff not_None_eq)
      have "ReorgBlock event \<le> m" using that mv by auto
      then show False using c(5) [OF p0] f p by auto
    qed
    then have "st2 ! p = st1 ! p" using ml by (simp add: moved_blocks_def)
    then show ?thesis using p by (simp add: res new nth_append)
  qed
qed

end

section \<open>All chains of a simulation\<close>

text \<open>An event that moves logs only among reorganised blocks.\<close>

definition isolated :: "ReorgEvent \<Rightarrow> bool" where
  "isolated event = list_all (\<lambda>m. ReorgBlock event \<le> fst m \<and> list_all (\<lambda>mv. ReorgBlock event \<le> NewBlock mv) (snd m)) (MovedLogs event)"

lemma isolated_moved: "isolated event \<Longrightarrow> moved_blocks event \<subseteq> {n. ReorgBlock event \<le> n}"
  by (auto simp: isolated_def moved_blocks_def targets_def list_all_iff)

definition extends :: "store \<Rightarrow> store \<Rightarrow> bool" where
  "extends st st' \<longleftrightarrow> length st \<le> length st' \<and> (\<forall>p < length st. st' ! p = st ! p)"

lemma extends_trans: "extends a b \<Longrightarrow> extends b c \<Longrightarrow> extends a c"
  by (auto simp: extends_def)

lemma extends_chain:
  assumes "extends st st'" "chain_ok st chain"
  shows "chain_ok st' chain" "chain_txs st' chain = chain_txs st chain" "blk st' chain n = blk st chain n"
proof -
  show "chain_ok st' chain" using assms by (fastforce simp: chain_ok_def extends_def)
  show "chain_txs st' chain = chain_txs st chain"
    unfolding chain_txs_def using assms by (intro arg_cong [where f = sum_list] map_cong) (auto simp: chain_ok_def extends_def)
  show "blk st' chain n = blk st chain n"
    using assms chain_okD(1) by (cases "map_of chain n") (auto simp: blk_def extends_def)
qed

text \<open>How the chain an event makes relates to the one before it.\<close>

definition forks_to :: "lib \<Rightarrow> store \<Rightarrow> int \<Rightarrow> ReorgEvent \<Rightarrow> BlockChain \<Rightarrow> BlockChain \<Rightarrow> bool" where
  "forks_to L st i event prev fork \<longleftrightarrow> chain_ok st fork \<and> map fst fork = map fst prev \<and> chain_txs st fork = chain_txs st prev \<and>
     (\<forall>n b. blk st prev n = Some b \<longrightarrow>
        (\<exists>b'. blk st fork n = Some b' \<and> sb_hash b' = (if ReorgBlock event \<le> n then ReorgHash L n i else sb_hash b)))"

lemma forks_to_extends:
  assumes "extends st st'" "chain_ok st prev" "forks_to L st i event prev fork"
  shows "forks_to L st' i event prev fork"
  using assms extends_chain [OF assms(1,2)] extends_chain [OF assms(1), of fork] by (simp add: forks_to_def)

lemma apply_event_forks:
  assumes "lib_spec L" "apply_event L i event prev st = Ret ((prev', fork), st')" "chain_ok st prev" "isolated event"
  shows "prev' = prev" "extends st st'" "forks_to L st' i event prev fork"
proof -
  note a = lib_spec.apply_event_ok [OF assms(1-3)]
  show "prev' = prev" by (rule a(1))
  show e: "extends st st'" using a(5) a(8) isolated_moved [OF assms(4)] by (simp add: extends_def)
  show "forks_to L st' i event prev fork"
    using a(2,3,4,7) extends_chain(2,3) [OF e assms(3)] by (simp add: forks_to_def)
qed

lemma apply_events_forks:
  assumes "lib_spec L" "apply_events L i evs prev ready st = Ret (chs, st')" "chain_ok st prev" "list_all isolated evs"
  shows "\<exists>rest. chs = rev ready @ prev # rest \<and> length rest = length evs \<and> extends st st' \<and>
    (\<forall>k < length evs. forks_to L st' (i + int k) (evs ! k) ((prev # rest) ! k) (rest ! k))"
  using assms(2-)
proof (induction evs arbitrary: i prev ready st)
  case Nil
  then show ?case by (simp add: extends_def)
next
  case (Cons event evs)
  obtain prev' fork st1 where one: "apply_event L i event prev st = Ret ((prev', fork), st1)"
      and rest: "apply_events L (i + 1) evs fork (prev' # ready) st1 = Ret (chs, st')"
    using Cons.prems(1) by (auto simp: go_bind_Ret_iff)
  have iso: "isolated event" "list_all isolated evs" using Cons.prems(3) by simp_all
  note f = apply_event_forks [OF assms(1) one Cons.prems(2) iso(1)]
  have ok: "chain_ok st1 fork" using f(3) by (simp add: forks_to_def)
  obtain cs where cs: "chs = rev (prev' # ready) @ fork # cs" "length cs = length evs" "extends st1 st'"
      "\<forall>k < length evs. forks_to L st' (i + 1 + int k) (evs ! k) ((fork # cs) ! k) (cs ! k)"
    using Cons.IH [OF rest ok iso(2)] by blast
  have "forks_to L st' i event prev fork"
    using forks_to_extends [OF cs(3) extends_chain(1) [OF f(2) Cons.prems(2)] f(3)] .
  then have "\<forall>k < length (event # evs). forks_to L st' (i + int k) ((event # evs) ! k) ((prev # fork # cs) ! k) ((fork # cs) ! k)"
    using cs(4) by (auto simp: less_Suc_eq_0_disj add.assoc)
  then show ?case using cs(1-3) f(1) extends_trans [OF f(2)] by (intro exI [of _ "fork # cs"]) simp
qed

lemma newBlockChain_ok:
  assumes "newBlockChain rb logs st = Ret (chain, st')" "distinct (map fst logs)" "list_all (\<lambda>(n, ls). list_all (\<lambda>l. log_BlockNumber l = n) ls) logs"
  shows "extends st st'" "map fst chain = map fst logs" "distinct (map snd chain)"
    "\<forall>x\<in>set chain. length st \<le> snd x \<and> snd x < length st' \<and> block_ok (fst x) (st' ! snd x) \<and> (fst x, sb_logs (st' ! snd x)) \<in> set logs"
  using assms
proof (induction logs arbitrary: st chain)
  case Nil
  case 1 then show ?case by (simp add: extends_def)
  case 2 then show ?case by simp
  case 3 then show ?case by simp
  case 4 then show ?case by simp
next
  case (Cons x logs)
  obtain n ls where x: "x = (n, ls)" by (cases x)
  have step: "\<exists>b c. new_block rb n ls = Ret b \<and> newBlockChain rb logs (st @ [b]) = Ret (c, st') \<and> chain = (n, length st) # c \<and>
      block_ok n b \<and> sb_logs b = ls"
    if "newBlockChain rb (x # logs) st = Ret (chain, st')" "list_all (\<lambda>(n, ls). list_all (\<lambda>l. log_BlockNumber l = n) ls) (x # logs)" for st chain
    using that by (auto simp: x go_bind_Ret_iff new_block_def Let_def block_ok_def list_all_iff list_ex_iff split: list.splits if_splits)
  {
    case 1
    then show ?case using step [OF 1(1,3)] Cons.IH(1) by (fastforce simp: extends_def nth_append)
  next
    case 2
    then show ?case using step [OF 2(1,3)] Cons.IH(2) by (fastforce simp: x)
  next
    case 3
    then obtain b c where "newBlockChain rb logs (st @ [b]) = Ret (c, st')" "chain = (n, length st) # c" using step [OF 3(1,3)] by blast
    then show ?case using Cons.IH(3,4) [of "st @ [b]" c] 3 by fastforce
  next
    case 4
    then obtain b c where b: "newBlockChain rb logs (st @ [b]) = Ret (c, st')" "chain = (n, length st) # c" "block_ok n b" "sb_logs b = ls"
      using step [OF 4(1,3)] by blast
    have "extends (st @ [b]) st'" using Cons.IH(1) [OF b(1)] 4 by simp
    then have "st' ! length st = b" "length st < length st'" by (auto simp: extends_def)
    then show ?case using Cons.IH(4) [OF b(1)] 4 b by (auto simp: x)
  }
qed


section \<open>A sample simulation\<close>

definition rs_log :: "u64 \<Rightarrow> hash \<Rightarrow> hash \<Rightarrow> eth_log" where
  "rs_log n h tx = \<lparr>log_Address = 1, log_Topics = [2], log_Data = [], log_BlockNumber = n, log_TxHash = tx, log_BlockHash = h\<rparr>"

definition rs_logs :: "(u64 \<times> eth_log list) list" where
  "rs_logs = [(5, [rs_log 5 50 500]), (6, [rs_log 6 60 600, rs_log 6 60 601]), (7, [rs_log 7 70 700])]"

definition rs_event :: ReorgEvent where
  "rs_event = \<lparr>ReorgTrigger = 7, ReorgBlock = 6, MovedLogs = [(6, [\<lparr>NewBlock = 7, TxHashes = [601]\<rparr>])]\<rparr>"

definition chains_ret :: "((BlockChain \<times> BlockChain list) \<times> store) go \<Rightarrow> bool" where
  "chains_ret x = (case x of Ret _ \<Rightarrow> True | _ \<Rightarrow> False)"

definition chains_of :: "((BlockChain \<times> BlockChain list) \<times> store) go \<Rightarrow> BlockChain \<times> BlockChain list" where
  "chains_of x = (case x of Ret (c, _) \<Rightarrow> c)"

definition store_of :: "((BlockChain \<times> BlockChain list) \<times> store) go \<Rightarrow> store" where
  "store_of x = (case x of Ret (_, st) \<Rightarrow> st)"

lemma chains_Ret: "chains_ret x \<Longrightarrow> x = Ret ((fst (chains_of x), snd (chains_of x)), store_of x)"
  by (auto simp: chains_ret_def chains_of_def store_of_def split: go.splits)


definition rs_back :: ReorgEvent where
  "rs_back = \<lparr>ReorgTrigger = 7, ReorgBlock = 6, MovedLogs = [(6, [\<lparr>NewBlock = 5, TxHashes = [601]\<rparr>])]\<rparr>"

text \<open>
  Moving logs back before the reorg block is accepted and corrupts the chain before the fork: a
  block below the reorg block is shared by both chains, so the moved log appears in the old chain
  too, a second time, under a hash that chain never had for it.
\<close>

theorem moved_back_leaks:
  "snd (validateReorgEvent [rs_back]) = None \<and>
   (let x = NewBlockChain std_lib rs_logs [rs_back]; old = fst (chains_of x) in
    chains_ret x \<and>
    map_option (\<lambda>b. map log_TxHash (sb_logs b)) (blk (store_of x) old 5) = Some [500, 601] \<and>
    map_option (\<lambda>b. map log_TxHash (sb_logs b)) (blk (store_of x) old 6) = Some [600, 601])"
proof -
  let ?x = "NewBlockChain std_lib rs_logs [rs_back]"
  have "snd (validateReorgEvent [rs_back]) = None" "chains_ret ?x"
    "map_option (\<lambda>b. map log_TxHash (sb_logs b)) (blk (store_of ?x) (fst (chains_of ?x)) 5) = Some [500, 601]"
    "map_option (\<lambda>b. map log_TxHash (sb_logs b)) (blk (store_of ?x) (fst (chains_of ?x)) 6) = Some [600, 601]"
    by code_simp+
  then show ?thesis by (simp add: Let_def)
qed

section \<open>When the chain forks\<close>

definition sim_ok :: "ReorgSim \<Rightarrow> bool" where
  "sim_ok r \<longleftrightarrow> length (reorgedChains r) = length (events r) \<and> 0 \<le> currentReorgEvent r \<and>
     currentReorgEvent r \<le> int (length (events r)) \<and> sim_forked r = currentReorgEvent r - 1 \<and>
     (triggered r = currentReorgEvent r - 1 \<or> triggered r = currentReorgEvent r)"

definition pending :: "ReorgSim \<Rightarrow> bool" where
  "pending r \<longleftrightarrow> currentReorgEvent r < int (length (events r))"

definition next_event :: "ReorgSim \<Rightarrow> ReorgEvent" where
  "next_event r = events r ! nat (currentReorgEvent r)"

definition covers :: "u64 \<Rightarrow> u64 \<Rightarrow> ReorgEvent \<Rightarrow> bool" where
  "covers a b event \<longleftrightarrow> a \<le> ReorgTrigger event \<and> ReorgTrigger event \<le> b"

definition forked_sim :: "ReorgSim \<Rightarrow> ReorgSim" where
  "forked_sim r = r\<lparr>currentBlock := ReorgBlock (next_event r), sim_forked := triggered r,
     currentChain := reorgedChains r ! nat (currentReorgEvent r), currentReorgEvent := currentReorgEvent r + 1\<rparr>"

lemma triggerForkChain_cases:
  assumes "sim_ok r"
  shows "triggerForkChain a b r = Ret (if pending r \<and> covers a b (next_event r)
      then (if triggered r < currentReorgEvent r then r\<lparr>triggered := currentReorgEvent r\<rparr> else forked_sim r) else r)"
proof -
  have "event_at r (currentReorgEvent r) = Ret (next_event r)" "ReorgedChain r (currentReorgEvent r) = Ret (reorgedChains r ! nat (currentReorgEvent r))"
    if "pending r"
    using that assms by (auto simp: event_at_def ReorgedChain_def next_event_def sim_ok_def pending_def nat_less_iff)
  then show ?thesis using assms
    by (cases "pending r") (auto simp: triggerForkChain_def forkChain_def forked_sim_def covers_def pending_def sim_ok_def)
qed

lemma trigger_keeps:
  assumes "sim_ok r" "triggerForkChain a b r = Ret r'"
  shows "sim_ok r'" "events r' = events r" "reorgedChains r' = reorgedChains r" "param r' = param r" "sim_store r' = sim_store r"
    "currentReorgEvent r \<le> currentReorgEvent r'"
  using assms triggerForkChain_cases [OF assms(1), of a b]
  by (auto simp: sim_ok_def forked_sim_def pending_def split: if_splits)


definition rs_param :: Param where
  "rs_param = \<lparr>prm_StartBlock = 5, BlockProgress = 2, ExitBlock = 10, prm_Debug = False\<rparr>"

definition rs_sim :: ReorgSim where
  "rs_sim = (case NewReorgSimFromLogs std_lib rs_param [rs_event] rs_logs of Ret (Some r, _) \<Rightarrow> r)"

lemma rs_sim_facts: "sim_ok rs_sim" "pending rs_sim" "triggered rs_sim < currentReorgEvent rs_sim" "covers 5 8 (next_event rs_sim)"
  unfolding sim_ok_def pending_def covers_def by code_simp+


section \<open>What a query returns\<close>

text \<open>Which logs a query keeps: with both filters given, either match is enough.\<close>

definition keeps :: "address list option \<Rightarrow> hash list list option \<Rightarrow> eth_log \<Rightarrow> bool" where
  "keeps addresses topics l \<longleftrightarrow>
     (case addresses of None \<Rightarrow> topics = None
      | Some as \<Rightarrow> log_Address l \<in> set as \<or> (\<exists>ts. topics = Some ts \<and> hd (log_Topics l) \<in> set (hd ts)))"

definition readable :: "address list option \<Rightarrow> hash list list option \<Rightarrow> eth_log \<Rightarrow> bool" where
  "readable addresses topics l \<longleftrightarrow> addresses \<noteq> None \<and> topics \<noteq> None \<longrightarrow> topics \<noteq> Some [] \<and> log_Topics l \<noteq> []"

definition sim_logs :: "ReorgSim \<Rightarrow> u64 \<Rightarrow> eth_log list" where
  "sim_logs r n = (case sim_block r n of None \<Rightarrow> [] | Some b \<Rightarrow> sb_logs b)"

lemma appendFilterLogs_filter:
  assumes "lib_spec L" "\<forall>l\<in>set src. readable as ts l"
  shows "appendFilterLogs L src dst as ts = Ret (dst @ filter (keeps as ts) src)"
  using assms(2)
proof (induction src arbitrary: dst)
  case (Cons l src)
  have "filter_log L as ts l = Ret (keeps as ts l)"
    using Cons.prems lib_spec.lib_simps [OF assms(1)]
    by (auto simp: filter_log_def keeps_def readable_def split: option.split list.split)
  then show ?case using Cons by simp
qed simp

text \<open>
  C29. A query is answered from the current chain after a possible fork, with the kept logs of the
  blocks of the range in ascending order (a range that ends before it starts is its first block);
  the answer never fails, and with both an address and a topic filter a log that matches either one
  is kept, while a query with topics only keeps nothing.
\<close>

theorem FilterLogs_answers:
  assumes "lib_spec L" "sim_ok r" "q_FromBlock q = Some a" "q_ToBlock q = Some b"
    "to = max (big_Uint64 a) (big_Uint64 b)" "to \<noteq> - 1"
    "triggerForkChain (big_Uint64 a) to r = Ret r1" "\<forall>n. \<forall>l\<in>set (sim_logs r1 n). readable (q_Addresses q) (q_Topics q) l"
  shows "FilterLogs L q r =
    Ret ((filter (keeps (q_Addresses q) (q_Topics q)) (concat (map (sim_logs r1) (u64_range (big_Uint64 a) to))), None), r1)"
proof -
  let ?keep = "keeps (q_Addresses q) (q_Topics q)"
  let ?body = "\<lambda>number logs. case sim_block r1 number of None \<Rightarrow> Inr logs
      | Some b \<Rightarrow> (case appendFilterLogs L (sb_logs b) logs (q_Addresses q) (q_Topics q) of Ret logs' \<Rightarrow> Inr logs' | stop \<Rightarrow> Inl stop)"
  have "?body n logs = Inr (logs @ filter ?keep (sim_logs r1 n))" for n logs
  proof (cases "sim_block r1 n")
    case None
    then show ?thesis by (simp add: sim_logs_def)
  next
    case (Some x)
    then have "\<forall>l\<in>set (sb_logs x). readable (q_Addresses q) (q_Topics q) l" using assms(8) [rule_format, of _ n] by (simp add: sim_logs_def)
    then show ?thesis using Some appendFilterLogs_filter [OF assms(1)] by (simp add: sim_logs_def)
  qed
  then have "for_each ?body ns logs = Inr (logs @ filter ?keep (concat (map (sim_logs r1) ns)))" for ns logs
    by (induction ns arbitrary: logs) (simp_all del: split_paired_All)
  moreover have to: "(if big_Uint64 b < big_Uint64 a then big_Uint64 a else big_Uint64 b) = to" using assms(5) by (auto simp: max_def)
  ultimately show ?thesis
    unfolding FilterLogs_def assms(3,4) option.case Let_def to assms(7) go_bind_simps for_up_range [OF assms(6)]
    by simp
qed

theorem FilterLogs_answers_witness:
  "\<exists>r1. FilterLogs std_lib \<lparr>q_FromBlock = Some 5, q_ToBlock = Some 8, q_Addresses = Some [1], q_Topics = None\<rparr> rs_sim =
     Ret ((filter (keeps (Some [1]) None) (concat (map (sim_logs r1) (u64_range 5 8))), None), r1)"
proof -
  let ?q = "\<lparr>q_FromBlock = Some 5, q_ToBlock = Some 8, q_Addresses = Some [1], q_Topics = None\<rparr>"
  obtain r1 where r1: "triggerForkChain (big_Uint64 5) 8 rs_sim = Ret r1" using triggerForkChain_cases [OF rs_sim_facts(1)] by blast
  have b: "big_Uint64 5 = 5" "big_Uint64 8 = 8" by (simp_all add: big_Uint64_def)
  have "FilterLogs std_lib ?q rs_sim =
      Ret ((filter (keeps (q_Addresses ?q) (q_Topics ?q)) (concat (map (sim_logs r1) (u64_range (big_Uint64 5) 8))), None), r1)"
    by (rule FilterLogs_answers [where a = 5 and b = 8, OF std.lib_spec_axioms rs_sim_facts(1) _ _ _ _ r1]) (simp_all add: b max_def readable_def)
  then show ?thesis by (simp add: b)
qed

section \<open>The head\<close>

text \<open>\<open>n\<close> calls of \<open>BlockNumber\<close> in a row: the answers and the simulator they leave.\<close>

fun heads :: "nat \<Rightarrow> ReorgSim \<Rightarrow> (u64 \<times> err) list \<times> ReorgSim" where
  "heads 0 r = ([], r)"
| "heads (Suc n) r =
     (case sim_BlockNumber r of
        Ret (answer, r') \<Rightarrow> (case heads n r' of (as, r'') \<Rightarrow> (answer # as, r''))
      | _ \<Rightarrow> ([], r))"

lemma heads_exit:
  assumes "0 < BlockProgress (param r)" "unat (ExitBlock (param r)) + unat (BlockProgress (param r)) < 2 ^ 64" "currentBlock r \<noteq> 0"
    "unat (ExitBlock (param r)) \<le> unat (currentBlock r) + k"
  shows "\<exists>n. (n, Some (ErrWrap ErrExitBlockReached ''exit block %d reached'')) \<in> set (fst (heads (Suc k) r))"
  using assms
proof (induction k arbitrary: r)
  case 0
  then show ?case by (auto simp: sim_BlockNumber_def word_le_nat_alt)
next
  case (Suc k)
  show ?case
  proof (cases "ExitBlock (param r) \<le> currentBlock r")
    case True
    then show ?thesis using Suc.prems(3) by (auto simp: sim_BlockNumber_def split: prod.splits)
  next
    case False
    let ?r = "r\<lparr>currentBlock := currentBlock r + BlockProgress (param r)\<rparr>"
    have u: "unat (currentBlock r + BlockProgress (param r)) = unat (currentBlock r) + unat (BlockProgress (param r))"
      using False Suc.prems(2) by (intro unat_add_small) (auto simp: word_le_nat_alt)
    have p: "0 < unat (BlockProgress (param r))" using Suc.prems(1) by (simp add: word_less_nat_alt)
    then have "currentBlock ?r \<noteq> 0" "unat (ExitBlock (param ?r)) \<le> unat (currentBlock ?r) + k"
      using u Suc.prems(4) by (auto simp: word_unat_eq_iff)
    then obtain n where "(n, Some (ErrWrap ErrExitBlockReached ''exit block %d reached'')) \<in> set (fst (heads (Suc k) ?r))"
      using Suc.IH [of ?r] Suc.prems(1,2) by auto
    moreover have "heads (Suc (Suc k)) r = (case heads (Suc k) ?r of (as, r'') \<Rightarrow> ((currentBlock r, None) # as, r''))"
      using False Suc.prems(3) by (simp add: sim_BlockNumber_def)
    ultimately show ?thesis by (auto split: prod.splits)
  qed
qed



end
