(* ===== verification/Test_Cases.thy ===== *)
theory Test_Cases
  imports Reorg_Sim_Theorems
begin

text \<open>
  The cases with which the poller is tested against the simulator (\<open>testlogs/cases.go\<close>, \<open>cases_v1.go\<close> and
  \<open>cases_v2.go\<close>). The logs themselves are in JSON files, which a parameter of the simulator reads.
\<close>

section \<open>The configuration of a test (cases.go)\<close>

record TestConfig =
  tcfg_Param :: Param
  tcfg_Events :: "ReorgEvent list"
  tcfg_FromBlock :: u64
  tcfg_ToBlock :: u64
  tcfg_LogsFiles :: "string list"

text \<open>Parameters with a start block and zero values otherwise.\<close>

definition start_param :: "u64 \<Rightarrow> Param" where
  "start_param n = \<lparr>prm_StartBlock = n, BlockProgress = 0, ExitBlock = 0, prm_Debug = False\<rparr>"

section \<open>The cases with one reorg (cases_v1.go)\<close>

definition TestCasesV1 :: "TestConfig list" where
  "TestCasesV1 = [
     \<lparr>tcfg_Param = start_param 15944390, tcfg_Events =
        [\<lparr>ReorgTrigger = 0, ReorgBlock = 15944411, MovedLogs = []\<rparr>],
      tcfg_FromBlock = 15944400, tcfg_ToBlock = 15944500, tcfg_LogsFiles = [''/logs_poolfactory.json'', ''/logs_lp.json'']\<rparr>,
     \<lparr>tcfg_Param = start_param 15965710, tcfg_Events =
        [\<lparr>ReorgTrigger = 0, ReorgBlock = 15965730, MovedLogs = []\<rparr>],
      tcfg_FromBlock = 15965717, tcfg_ToBlock = 15965748, tcfg_LogsFiles = [''/logs_lp_2_1.json'', ''/logs_lp_2_2.json'']\<rparr>,
     \<lparr>tcfg_Param = start_param 15965800, tcfg_Events =
        [\<lparr>ReorgTrigger = 0, ReorgBlock = 15965811, MovedLogs = []\<rparr>],
      tcfg_FromBlock = 15965802, tcfg_ToBlock = 15965835, tcfg_LogsFiles = [''/logs_lp_3_1.json'', ''/logs_lp_3_2.json'']\<rparr>,
     \<lparr>tcfg_Param = start_param 15966455, tcfg_Events =
        [\<lparr>ReorgTrigger = 0, ReorgBlock = 15966475, MovedLogs = []\<rparr>],
      tcfg_FromBlock = 15966460, tcfg_ToBlock = 15966479, tcfg_LogsFiles = [''/logs_lp_4.json'']\<rparr>,
     \<lparr>tcfg_Param = start_param 15966490, tcfg_Events =
        [\<lparr>ReorgTrigger = 0, ReorgBlock = 15966536, MovedLogs = []\<rparr>],
      tcfg_FromBlock = 15966500, tcfg_ToBlock = 15966536, tcfg_LogsFiles = [''/logs_lp_5.json'']\<rparr>,
     \<lparr>tcfg_Param = start_param 15966490, tcfg_Events =
        [\<lparr>ReorgTrigger = 0, ReorgBlock = 15966512, MovedLogs = [(15966522, [\<lparr>NewBlock = 15966527, TxHashes = [0x53f6b4200c700208fe7bb8cb806b0ce962a75e7a31d8a523fbc4affdc22ffc44]\<rparr>]),
           (15966525, [\<lparr>NewBlock = 15966527, TxHashes = [0xa46b7e3264f2c32789c4af8f58cb11293ac9a608fb335e9eb6f0fb08be370211]\<rparr>])]\<rparr>],
      tcfg_FromBlock = 15966500, tcfg_ToBlock = 15966540, tcfg_LogsFiles = [''/logs_lp_5.json'']\<rparr>]"

section \<open>The cases with a trigger or several reorgs (cases_v2.go)\<close>

definition TestCasesV2 :: "TestConfig list" where
  "TestCasesV2 = [
     \<lparr>tcfg_Param = start_param 15944390, tcfg_Events =
        [\<lparr>ReorgTrigger = 15944430, ReorgBlock = 15944419, MovedLogs = [(15944419, [\<lparr>NewBlock = 15944455, TxHashes = [0x41e29790ca68bd08062b3ed1670216d49ef458dbe398fafda3918f2322c18068]\<rparr>]),
           (15944455, [\<lparr>NewBlock = 15944498, TxHashes = [0x620be69b041f986127322985854d3bc785abe1dc9f4df49173409f15b7515164]\<rparr>])]\<rparr>],
      tcfg_FromBlock = 15944400, tcfg_ToBlock = 15944500, tcfg_LogsFiles = [''/logs_poolfactory.json'', ''/logs_lp.json'']\<rparr>,
     \<lparr>tcfg_Param = start_param 15966490, tcfg_Events =
        [\<lparr>ReorgTrigger = 15966515, ReorgBlock = 15966512, MovedLogs = [(15966522, [\<lparr>NewBlock = 15966527, TxHashes = [0x53f6b4200c700208fe7bb8cb806b0ce962a75e7a31d8a523fbc4affdc22ffc44]\<rparr>])]\<rparr>,
         \<lparr>ReorgTrigger = 15966525, ReorgBlock = 15966524, MovedLogs = [(15966525, [\<lparr>NewBlock = 15966527, TxHashes = [0xa46b7e3264f2c32789c4af8f58cb11293ac9a608fb335e9eb6f0fb08be370211]\<rparr>])]\<rparr>],
      tcfg_FromBlock = 15966500, tcfg_ToBlock = 15966540, tcfg_LogsFiles = [''/logs_lp_5.json'']\<rparr>,
     \<lparr>tcfg_Param = start_param 15966465, tcfg_Events =
        [\<lparr>ReorgTrigger = 15966466, ReorgBlock = 15966464, MovedLogs = [(15966464, [\<lparr>NewBlock = 15966477, TxHashes = [0x6e23009a3f85e85fa9602382a29f74f4ca3027f4ed5c48fee3229b53c4c51e7d]\<rparr>])]\<rparr>,
         \<lparr>ReorgTrigger = 0, ReorgBlock = 15966473, MovedLogs = [(15966473, [\<lparr>NewBlock = 15966475, TxHashes = [0x0d6ae93dc766ae8be6ae975a5a42cffe7ad6327e5cf1dc20c50d60a07f849f14]\<rparr>])]\<rparr>],
      tcfg_FromBlock = 15966400, tcfg_ToBlock = 15966500, tcfg_LogsFiles = [''/logs_lp_4.json'']\<rparr>]"

section \<open>The path of the logs\<close>

text \<open>
  \<open>SetLogsPath\<close> prepends the path to every file of the cases, which are shared by pointers: the variable, and the two
  lists as it leaves them.
\<close>

definition set_path :: "string \<Rightarrow> TestConfig \<Rightarrow> TestConfig" where
  "set_path path tc = tc\<lparr>tcfg_LogsFiles := map (\<lambda>old. path @ old) (tcfg_LogsFiles tc)\<rparr>"

definition SetLogsPath :: "string \<Rightarrow> string \<times> TestConfig list \<times> TestConfig list \<Rightarrow> string \<times> TestConfig list \<times> TestConfig list" where
  "SetLogsPath pathToTestLogs st = (case st of (_, v1, v2) \<Rightarrow> (pathToTestLogs, map (set_path pathToTestLogs) v1, map (set_path pathToTestLogs) v2))"

text \<open>It is not idempotent: a second call prepends the path again.\<close>

lemma SetLogsPath_twice:
  "SetLogsPath p (SetLogsPath q (l, v1, v2)) = (p, map (set_path (p @ q)) v1, map (set_path (p @ q)) v2)"
  by (simp add: SetLogsPath_def set_path_def comp_def)

section \<open>What the cases ask of the simulator\<close>

text \<open>
  Every reorg lies within the blocks that are polled, the simulator accepts the events, and the events move logs
  only among the blocks that are reorganised: the chains of every case are those the theorem on \<open>NewBlockChain\<close>
  describes, and no case depends on the moves the validation lets through by mistake.
\<close>

definition case_ok :: "TestConfig \<Rightarrow> bool" where
  "case_ok tc \<longleftrightarrow> tcfg_FromBlock tc \<le> tcfg_ToBlock tc \<and>
     list_all (\<lambda>ev. tcfg_FromBlock tc \<le> ReorgBlock ev \<and> ReorgBlock ev \<le> tcfg_ToBlock tc \<and> isolated ev) (tcfg_Events tc) \<and>
     (case validateReorgEvent (tcfg_Events tc) of (Some evs, None) \<Rightarrow> length evs = length (tcfg_Events tc) | _ \<Rightarrow> False)"

lemma test_cases_ok: "list_all case_ok (TestCasesV1 @ TestCasesV2)"
  by code_simp

end
