(* ===== verification/Demo_Router.thy ===== *)
theory Demo_Router
  imports Engine Sorted_Set "HOL-Library.AList"
begin

text \<open>
  The demo service's router (\<open>examples/demoservice/internal/routerengine\<close>, \<open>internal/subengines\<close>): a
  service engine that splits the blocks it is given by the contract and event of each log and hands
  every part to the sub-engine in charge. Go's maps are association lists with distinct keys; a
  \<open>range\<close> over a map visits its keys in an order the language leaves open, which is a parameter here.
  Logging is not modelled.
\<close>

section \<open>Sub-engines (subengines.go)\<close>

type_synonym subEngineEnum = u8

definition SubEngineInvalid :: subEngineEnum where "SubEngineInvalid = 0"
definition SubEngineUniswapv3Factory :: subEngineEnum where "SubEngineUniswapv3Factory = 1"
definition SubEngineUniswapv3Pool :: subEngineEnum where "SubEngineUniswapv3Pool = 2"
definition SubEngineOneInchLimitOrder :: subEngineEnum where "SubEngineOneInchLimitOrder = 3"
definition SubEngineENS :: subEngineEnum where "SubEngineENS = 4"

lemmas subengine_defs = SubEngineInvalid_def SubEngineUniswapv3Factory_def SubEngineUniswapv3Pool_def
  SubEngineOneInchLimitOrder_def SubEngineENS_def

definition SubEngine_String :: "subEngineEnum \<Rightarrow> string go" where
  "SubEngine_String se =
     (if se = SubEngineInvalid then Ret ''SUBENGINE_INVALID''
      else if se = SubEngineUniswapv3Factory then Ret ''SUBENGINE_UNISWAPV3POOLFACTORY''
      else if se = SubEngineUniswapv3Pool then Ret ''SUBENGINE_UNISWAPV3POOl''
      else if se = SubEngineOneInchLimitOrder then Ret ''SUBENGINE_ONEINCHLIMITORDER''
      else if se = SubEngineENS then Ret ''SUBENGINE_ENS''
      else Panic ''unhandled demo usecase'')"

definition ErrNoNeedHandle :: go_error where "ErrNoNeedHandle = ErrNew ''no need to handle this topic''"
definition errNoService :: go_error where "errNoService = ErrNew ''failed to get service for subengine''"

section \<open>The router (engine.go)\<close>

type_synonym routes = "(subEngineEnum \<times> (address \<times> hash list) list) list"

record ('a, 'w) routerEngine =
  Routes :: routes
  Services :: "(subEngineEnum \<times> ('a, 'w) service_engine) list"

definition router_New :: "routes \<Rightarrow> (subEngineEnum \<times> ('a, 'w) service_engine) list \<Rightarrow> u8 \<Rightarrow> ('a, 'w) routerEngine" where
  "router_New rs services logLevel = \<lparr>Routes = rs, Services = services\<rparr>"

text \<open>The orders in which the three \<open>range\<close> loops over maps visit the keys.\<close>

record map_orders =
  mo_routes :: "eth_log \<Rightarrow> subEngineEnum list \<Rightarrow> subEngineEnum list"
  mo_logs :: "block \<Rightarrow> subEngineEnum list \<Rightarrow> subEngineEnum list"
  mo_blocks :: "subEngineEnum list \<Rightarrow> subEngineEnum list"

section \<open>Routing (utils.go)\<close>

text \<open>Whether a log belongs to one of the contracts of a sub-engine; \<open>log.Topics[0]\<close> panics without topics.\<close>

fun match_contracts :: "lib \<Rightarrow> (address \<times> hash list) list \<Rightarrow> eth_log \<Rightarrow> bool go" where
  "match_contracts L [] log = Ret False"
| "match_contracts L ((a, ts) # rest) log =
     (if a = log_Address log then
        (case log_Topics log of
           [] \<Rightarrow> Panic ''index out of range''
         | t # _ \<Rightarrow> if gsl_Contains_hash L ts t then Ret True else match_contracts L rest log)
      else match_contracts L rest log)"

fun match_subEngines :: "lib \<Rightarrow> routes \<Rightarrow> subEngineEnum list \<Rightarrow> eth_log \<Rightarrow> (subEngineEnum \<times> bool) go" where
  "match_subEngines L rs [] log = Ret (SubEngineInvalid, False)"
| "match_subEngines L rs (s # ss) log =
     go_bind (match_contracts L (case map_of rs s of None \<Rightarrow> [] | Some as \<Rightarrow> as) log)
       (\<lambda>found. if found then Ret (s, True) else match_subEngines L rs ss log)"

definition logToSubEngine :: "lib \<Rightarrow> map_orders \<Rightarrow> ('a, 'w) routerEngine \<Rightarrow> eth_log \<Rightarrow> (subEngineEnum \<times> bool) go" where
  "logToSubEngine L ord e log = match_subEngines L (Routes e) (mo_routes ord log (map fst (Routes e))) log"

text \<open>\<open>m[k] = append(m[k], v)\<close>.\<close>

definition map_append :: "'k \<Rightarrow> 'v \<Rightarrow> ('k \<times> 'v list) list \<Rightarrow> ('k \<times> 'v list) list" where
  "map_append k v m = AList.update k ((case map_of m k of None \<Rightarrow> [] | Some vs \<Rightarrow> vs) @ [v]) m"

fun mapLogs_loop ::
    "lib \<Rightarrow> map_orders \<Rightarrow> ('a, 'w) routerEngine \<Rightarrow> eth_log list \<Rightarrow> (subEngineEnum \<times> eth_log list) list \<Rightarrow>
     (subEngineEnum \<times> eth_log list) list go" where
  "mapLogs_loop L ord e [] m = Ret m"
| "mapLogs_loop L ord e (log # logs) m =
     go_bind (logToSubEngine L ord e log) (\<lambda>(s, found). mapLogs_loop L ord e logs (if found then map_append s log m else m))"

definition mapLogsToSubEngine ::
    "lib \<Rightarrow> map_orders \<Rightarrow> ('a, 'w) routerEngine \<Rightarrow> eth_log list \<Rightarrow> (subEngineEnum \<times> eth_log list) list go" where
  "mapLogsToSubEngine L ord e logs = mapLogs_loop L ord e logs []"

text \<open>The new block has the number, the hash and the header of the old one, and the logs of one sub-engine.\<close>

definition sub_block :: "block \<Rightarrow> eth_log list \<Rightarrow> block" where
  "sub_block b logs = \<lparr>LogsMigrated = False, Number = Number b, Hash = Hash b, Header = Header b, Logs = logs\<rparr>"

fun mapBlocks_loop ::
    "lib \<Rightarrow> map_orders \<Rightarrow> ('a, 'w) routerEngine \<Rightarrow> block list \<Rightarrow> (subEngineEnum \<times> block list) list \<Rightarrow>
     (subEngineEnum \<times> block list) list go" where
  "mapBlocks_loop L ord e [] m = Ret m"
| "mapBlocks_loop L ord e (b # bs) m =
     go_bind (mapLogsToSubEngine L ord e (Logs b)) (\<lambda>logsMap.
       mapBlocks_loop L ord e bs
         (fold (\<lambda>s m. map_append s (sub_block b (case map_of logsMap s of None \<Rightarrow> [] | Some ls \<Rightarrow> ls)) m)
            (mo_logs ord b (map fst logsMap)) m))"

definition mapBlocksToSubEngine ::
    "lib \<Rightarrow> map_orders \<Rightarrow> ('a, 'w) routerEngine \<Rightarrow> block list \<Rightarrow> (subEngineEnum \<times> block list) list go" where
  "mapBlocksToSubEngine L ord e blocks = mapBlocks_loop L ord e blocks []"

text \<open>
  \<open>logToService\<close>. The panic of the logger is a panic.
\<close>

definition logToService :: "lib \<Rightarrow> map_orders \<Rightarrow> ('a, 'w) routerEngine \<Rightarrow> eth_log \<Rightarrow> ('a, 'w) service_engine go" where
  "logToService L ord e log =
     go_bind (logToSubEngine L ord e log) (\<lambda>(s, found).
       if \<not> found then Panic ''log address not mapped to subengine - should not happen''
       else case map_of (Services e) s of None \<Rightarrow> Panic ''usecase has no service'' | Some svc \<Rightarrow> Ret svc)"

text \<open>A map that was not filled reads as nil, so merging a nil map changes nothing.\<close>

definition mergeArtifacts :: "(hash \<Rightarrow> 'a artifact list) \<Rightarrow> (hash \<Rightarrow> 'a artifact list) \<Rightarrow> hash \<Rightarrow> 'a artifact list" where
  "mergeArtifacts routerArts subEngineArts h = routerArts h @ subEngineArts h"

section \<open>Artifacts (artifact.go)\<close>

text \<open>
  \<open>kind\<close> is the type assertion to \<open>routerArtifact\<close> with its method \<open>ForSubEngine\<close>: \<open>None\<close> when the value
  has no such method. A slice has none.
\<close>

definition artifactIsFor :: "('a \<Rightarrow> subEngineEnum option) \<Rightarrow> subEngineEnum \<Rightarrow> 'a artifact \<Rightarrow> bool go" where
  "artifactIsFor kind subEngine a =
     (case a of
        Leaf x \<Rightarrow> (case kind x of None \<Rightarrow> Panic ''not routerArtifact'' | Some s \<Rightarrow> Ret (s = subEngine))
      | Bundle _ \<Rightarrow> Panic ''not routerArtifact'')"

fun filter_bundle :: "('a \<Rightarrow> subEngineEnum option) \<Rightarrow> subEngineEnum \<Rightarrow> 'a artifact list \<Rightarrow> 'a artifact list go" where
  "filter_bundle kind s [] = Ret []"
| "filter_bundle kind s (a # as) =
     go_bind (artifactIsFor kind s a) (\<lambda>mine. go_bind (filter_bundle kind s as) (\<lambda>rest. Ret (if mine then a # rest else rest)))"

fun filterArtifacts :: "('a \<Rightarrow> subEngineEnum option) \<Rightarrow> subEngineEnum \<Rightarrow> 'a artifact list \<Rightarrow> 'a artifact list go" where
  "filterArtifacts kind s [] = Ret []"
| "filterArtifacts kind s (Leaf x # as) = Panic ''interface conversion: interface is not []superwatcher.Artifact''"
| "filterArtifacts kind s (Bundle xs # as) =
     go_bind (filter_bundle kind s xs) (\<lambda>ys. go_bind (filterArtifacts kind s as) (\<lambda>zs. Ret (ys @ zs)))"

section \<open>Handling blocks (engine_impl.go)\<close>

fun good_loop ::
    "('a \<Rightarrow> subEngineEnum option) \<Rightarrow> ('a, 'w) routerEngine \<Rightarrow> (subEngineEnum \<times> block list) list \<Rightarrow> 'a artifact list \<Rightarrow>
     subEngineEnum list \<Rightarrow> (hash \<Rightarrow> 'a artifact list) \<Rightarrow> 'w \<Rightarrow> (((hash \<Rightarrow> 'a artifact list) \<times> err) \<times> 'w) go" where
  "good_loop kind e m arts [] out w = Ret ((out, None), w)"
| "good_loop kind e m arts (s # ss) out w =
     (case map_of (Services e) s of
        None \<Rightarrow> go_bind (SubEngine_String s) (\<lambda>_. Ret ((\<lambda>_. [], Some (ErrWrap errNoService ''subengine: %s'')), w))
      | Some svc \<Rightarrow>
          go_bind (filterArtifacts kind s arts) (\<lambda>mine.
          go_bind (HandleGoodBlocks svc (case map_of m s of None \<Rightarrow> [] | Some bs \<Rightarrow> bs) mine w) (\<lambda>((res, er), w1).
            case er of
              Some x \<Rightarrow>
                go_bind (SubEngine_String s) (\<lambda>_.
                  if errors_Is x ErrNoNeedHandle then good_loop kind e m arts ss out w1
                  else Ret ((\<lambda>_. [], Some (ErrWrap x ''subengine %s HandleGoodBlock failed'')), w1))
            | None \<Rightarrow> good_loop kind e m arts ss (mergeArtifacts out res) w1)))"

definition router_HandleGoodBlocks ::
    "lib \<Rightarrow> map_orders \<Rightarrow> ('a \<Rightarrow> subEngineEnum option) \<Rightarrow> ('a, 'w) routerEngine \<Rightarrow> block list \<Rightarrow> 'a artifact list \<Rightarrow> 'w \<Rightarrow>
     (((hash \<Rightarrow> 'a artifact list) \<times> err) \<times> 'w) go" where
  "router_HandleGoodBlocks L ord kind e blocks arts w =
     go_bind (mapBlocksToSubEngine L ord e blocks) (\<lambda>m. good_loop kind e m arts (mo_blocks ord (map fst m)) (\<lambda>_. []) w)"

fun reorged_loop ::
    "('a \<Rightarrow> subEngineEnum option) \<Rightarrow> ('a, 'w) routerEngine \<Rightarrow> (subEngineEnum \<times> block list) list \<Rightarrow> 'a artifact list \<Rightarrow>
     subEngineEnum list \<Rightarrow> (hash \<Rightarrow> 'a artifact list) \<Rightarrow> 'w \<Rightarrow> (((hash \<Rightarrow> 'a artifact list) \<times> err) \<times> 'w) go" where
  "reorged_loop kind e m arts [] out w = Ret ((out, None), w)"
| "reorged_loop kind e m arts (s # ss) out w =
     (case map_of (Services e) s of
        None \<Rightarrow> go_bind (SubEngine_String s) (\<lambda>_. Ret ((\<lambda>_. [], Some (ErrWrap errNoService ''subengine: '')), w))
      | Some svc \<Rightarrow>
          go_bind (filterArtifacts kind s arts) (\<lambda>mine.
          go_bind (HandleReorgedBlocks svc (case map_of m s of None \<Rightarrow> [] | Some bs \<Rightarrow> bs) mine w) (\<lambda>((res, er), w1).
            case er of
              Some x \<Rightarrow>
                go_bind (SubEngine_String s) (\<lambda>_. Ret ((\<lambda>_. [], Some (ErrWrap x ''subengine %s HandleReorgedBlock failed'')), w1))
            | None \<Rightarrow> reorged_loop kind e m arts ss (mergeArtifacts out res) w1)))"

definition router_HandleReorgedBlocks ::
    "lib \<Rightarrow> map_orders \<Rightarrow> ('a \<Rightarrow> subEngineEnum option) \<Rightarrow> ('a, 'w) routerEngine \<Rightarrow> block list \<Rightarrow> 'a artifact list \<Rightarrow> 'w \<Rightarrow>
     (((hash \<Rightarrow> 'a artifact list) \<times> err) \<times> 'w) go" where
  "router_HandleReorgedBlocks L ord kind e blocks arts w =
     go_bind (mapBlocksToSubEngine L ord e blocks) (\<lambda>m. reorged_loop kind e m arts (mo_blocks ord (map fst m)) (\<lambda>_. []) w)"

definition router_HandleEmitterError :: "go_error \<Rightarrow> 'w \<Rightarrow> (err \<times> 'w) go" where
  "router_HandleEmitterError x w = Ret (Some x, w)"

definition router_service ::
    "lib \<Rightarrow> map_orders \<Rightarrow> ('a \<Rightarrow> subEngineEnum option) \<Rightarrow> ('a, 'w) routerEngine \<Rightarrow> ('a, 'w) service_engine" where
  "router_service L ord kind e = \<lparr>HandleGoodBlocks = router_HandleGoodBlocks L ord kind e,
     HandleReorgedBlocks = router_HandleReorgedBlocks L ord kind e, svc_HandleEmitterError = router_HandleEmitterError\<rparr>"

section \<open>What a sub-engine is given\<close>

definition routed_to :: "routes \<Rightarrow> subEngineEnum \<Rightarrow> eth_log \<Rightarrow> bool" where
  "routed_to rs s log \<longleftrightarrow>
     (case map_of rs s of None \<Rightarrow> False | Some cs \<Rightarrow> list_ex (\<lambda>(a, ts). a = log_Address log \<and> hd (log_Topics log) \<in> set ts) cs)"

text \<open>No event of a contract is claimed by two sub-engines.\<close>

definition unambiguous :: "routes \<Rightarrow> bool" where
  "unambiguous rs \<longleftrightarrow> (\<forall>s s' log. routed_to rs s log \<longrightarrow> routed_to rs s' log \<longrightarrow> s = s')"

definition orders_ok :: "map_orders \<Rightarrow> bool" where
  "orders_ok ord \<longleftrightarrow> (\<forall>ks. distinct ks \<longrightarrow>
     (\<forall>log. distinct (mo_routes ord log ks) \<and> set (mo_routes ord log ks) = set ks) \<and>
     (\<forall>b. distinct (mo_logs ord b ks) \<and> set (mo_logs ord b ks) = set ks) \<and>
     distinct (mo_blocks ord ks) \<and> set (mo_blocks ord ks) = set ks)"

definition blocks_for :: "routes \<Rightarrow> subEngineEnum \<Rightarrow> block list \<Rightarrow> block list" where
  "blocks_for rs s bs = map (\<lambda>b. sub_block b (filter (routed_to rs s) (Logs b))) (filter (\<lambda>b. list_ex (routed_to rs s) (Logs b)) bs)"

text \<open>What a map of slices holds under a key; no key has an empty slice.\<close>

definition entries :: "('k \<times> 'v list) list \<Rightarrow> 'k \<Rightarrow> 'v list" where
  "entries m k = (case map_of m k of None \<Rightarrow> [] | Some vs \<Rightarrow> vs)"

definition slices_ok :: "('k \<times> 'v list) list \<Rightarrow> bool" where
  "slices_ok m \<longleftrightarrow> distinct (map fst m) \<and> (\<forall>k. map_of m k \<noteq> Some [])"

lemma slices_ok_Nil [simp]: "slices_ok []" "entries [] k = []"
  by (simp_all add: slices_ok_def entries_def)

lemma slices_ok_append:
  assumes "slices_ok m"
  shows "slices_ok (map_append k v m)" "entries (map_append k v m) k' = entries m k' @ (if k' = k then [v] else [])"
  using assms by (auto simp: slices_ok_def map_append_def entries_def update_conv' distinct_update split: option.splits)

lemma slices_keys: "slices_ok m \<Longrightarrow> k \<in> set (map fst m) \<longleftrightarrow> entries m k \<noteq> []"
  using map_of_eq_None_iff [of m k] by (cases "map_of m k") (auto simp: slices_ok_def entries_def)

lemma fold_map_append:
  assumes "slices_ok m" "distinct ks"
  shows "slices_ok (fold (\<lambda>k m. map_append k (f k) m) ks m)"
    "entries (fold (\<lambda>k m. map_append k (f k) m) ks m) k' = entries m k' @ (if k' \<in> set ks then [f k'] else [])"
  using assms
proof (induction ks arbitrary: m)
  case (Cons k ks)
  {
    case 1
    then show ?case using Cons.IH(1) [OF slices_ok_append(1) [of m k "f k"]] by simp
  next
    case 2
    then show ?case using Cons.IH(2) [OF slices_ok_append(1) [of m k "f k"]] slices_ok_append(2) [of m k "f k" k'] by auto
  }
qed simp_all

lemma match_contracts_Ret:
  assumes "lib_spec L" "log_Topics log \<noteq> []"
  shows "match_contracts L cs log = Ret (list_ex (\<lambda>(a, ts). a = log_Address log \<and> hd (log_Topics log) \<in> set ts) cs)"
  using assms by (induction cs) (auto simp: lib_spec.Contains_hash split: list.split)

lemma match_subEngines_Ret:
  assumes "lib_spec L" "log_Topics log \<noteq> []"
  shows "match_subEngines L rs ss log =
    Ret (case find (\<lambda>s. routed_to rs s log) ss of None \<Rightarrow> (SubEngineInvalid, False) | Some s \<Rightarrow> (s, True))"
  using assms by (induction ss) (auto simp: match_contracts_Ret routed_to_def split: option.splits)

locale routing =
  fixes L :: lib and ord :: map_orders and e :: "('a, 'w) routerEngine"
  assumes lib: "lib_spec L" and orders: "orders_ok ord" and clear: "unambiguous (Routes e)" and keys: "distinct (map fst (Routes e))"
begin

lemma routed_key: "routed_to (Routes e) s log \<Longrightarrow> s \<in> set (map fst (Routes e))"
  using map_of_eq_None_iff [of "Routes e" s] by (cases "map_of (Routes e) s") (auto simp: routed_to_def)

lemma logToSubEngine_Ret:
  assumes "log_Topics log \<noteq> []"
  shows "\<exists>s found. logToSubEngine L ord e log = Ret (s, found) \<and> (\<forall>s'. routed_to (Routes e) s' log \<longleftrightarrow> found \<and> s' = s)"
proof -
  let ?ks = "mo_routes ord log (map fst (Routes e))" and ?P = "\<lambda>s. routed_to (Routes e) s log"
  have ks: "set ?ks = set (map fst (Routes e))" using orders keys by (simp add: orders_ok_def)
  show ?thesis
  proof (cases "find ?P ?ks")
    case None
    then have "\<not> ?P s" for s using routed_key ks by (metis find_None_iff)
    then show ?thesis using None by (auto simp: logToSubEngine_def match_subEngines_Ret [OF lib assms])
  next
    case (Some s)
    then have "?P s" by (auto simp: find_Some_iff)
    then have "?P s' \<longleftrightarrow> s' = s" for s' using clear by (auto simp: unambiguous_def)
    then show ?thesis using Some by (auto simp: logToSubEngine_def match_subEngines_Ret [OF lib assms])
  qed
qed

lemma mapLogs_loop_Ret:
  assumes "\<forall>l\<in>set logs. log_Topics l \<noteq> []" "slices_ok m"
  shows "\<exists>m'. mapLogs_loop L ord e logs m = Ret m' \<and> slices_ok m' \<and>
    (\<forall>s. entries m' s = entries m s @ filter (routed_to (Routes e) s) logs)"
  using assms
proof (induction logs arbitrary: m)
  case (Cons log logs)
  obtain s found where r: "logToSubEngine L ord e log = Ret (s, found)" "\<forall>s'. routed_to (Routes e) s' log \<longleftrightarrow> found \<and> s' = s"
    using logToSubEngine_Ret [of log] Cons.prems(1) by auto
  let ?m = "if found then map_append s log m else m"
  have "slices_ok ?m" using slices_ok_append(1) [OF Cons.prems(2)] Cons.prems(2) by simp
  then obtain m' where m': "mapLogs_loop L ord e logs ?m = Ret m'" "slices_ok m'"
      "\<forall>s. entries m' s = entries ?m s @ filter (routed_to (Routes e) s) logs"
    using Cons.IH [of ?m] Cons.prems(1) by auto
  have "entries ?m s' = entries m s' @ (if routed_to (Routes e) s' log then [log] else [])" for s'
    using r(2) slices_ok_append(2) [OF Cons.prems(2)] by simp
  then show ?case using r m' by auto
qed simp

lemma mapBlocks_loop_Ret:
  assumes "\<forall>b\<in>set bs. \<forall>l\<in>set (Logs b). log_Topics l \<noteq> []" "slices_ok m"
  shows "\<exists>m'. mapBlocks_loop L ord e bs m = Ret m' \<and> slices_ok m' \<and> (\<forall>s. entries m' s = entries m s @ blocks_for (Routes e) s bs)"
  using assms
proof (induction bs arbitrary: m)
  case (Cons b bs)
  obtain lm where lm: "mapLogsToSubEngine L ord e (Logs b) = Ret lm" "slices_ok lm"
      "\<forall>s. entries lm s = filter (routed_to (Routes e) s) (Logs b)"
    using mapLogs_loop_Ret [of "Logs b" "[]"] Cons.prems(1) by (auto simp: mapLogsToSubEngine_def)
  let ?ks = "mo_logs ord b (map fst lm)" and ?f = "\<lambda>s. sub_block b (case map_of lm s of None \<Rightarrow> [] | Some ls \<Rightarrow> ls)"
  let ?m = "fold (\<lambda>s m. map_append s (?f s) m) ?ks m"
  have ks: "distinct ?ks" "set ?ks = set (map fst lm)" using orders lm(2) by (simp_all add: orders_ok_def slices_ok_def)
  have mem: "s \<in> set ?ks \<longleftrightarrow> list_ex (routed_to (Routes e) s) (Logs b)" for s
    unfolding ks(2) slices_keys [OF lm(2)] lm(3) [rule_format] by (simp add: list_ex_iff filter_empty_conv)
  have "?f s = sub_block b (filter (routed_to (Routes e) s) (Logs b))" for s using lm(3) by (simp add: entries_def)
  then have "entries ?m s = entries m s @ blocks_for (Routes e) s [b]" for s
    using fold_map_append(2) [OF Cons.prems(2) ks(1), of ?f s] mem by (simp add: blocks_for_def)
  moreover obtain m' where "mapBlocks_loop L ord e bs ?m = Ret m'" "slices_ok m'"
      "\<forall>s. entries m' s = entries ?m s @ blocks_for (Routes e) s bs"
    using Cons.IH [OF _ fold_map_append(1) [OF Cons.prems(2) ks(1)], of ?f] Cons.prems(1) by auto
  ultimately show ?case using lm(1) by (auto simp: blocks_for_def)
qed (simp add: blocks_for_def)

lemma mapBlocks_Ret:
  assumes "\<forall>b\<in>set bs. \<forall>l\<in>set (Logs b). log_Topics l \<noteq> []"
  obtains m where "mapBlocksToSubEngine L ord e bs = Ret m" "slices_ok m" "\<And>s. entries m s = blocks_for (Routes e) s bs"
  using mapBlocks_loop_Ret [OF assms, of "[]"] by (auto simp: mapBlocksToSubEngine_def)

end

section \<open>Every sub-engine is called once, with its own logs\<close>

text \<open>A service that writes down what it was called with, and artifacts as the engine passes them.\<close>

type_synonym 'a calls = "(subEngineEnum \<times> block list \<times> 'a artifact list) list"

definition noting ::
    "subEngineEnum \<Rightarrow> (block list \<Rightarrow> 'a artifact list \<Rightarrow> hash \<Rightarrow> 'a artifact list) \<Rightarrow> ('a, 'a calls) service_engine" where
  "noting s out = \<lparr>HandleGoodBlocks = (\<lambda>bs as w. Ret ((out bs as, None), w @ [(s, bs, as)])),
     HandleReorgedBlocks = (\<lambda>bs as w. Ret ((out bs as, None), w @ [(s, bs, as)])),
     svc_HandleEmitterError = (\<lambda>x w. Ret (None, w))\<rparr>"

definition bundles :: "'a list list \<Rightarrow> 'a artifact list" where
  "bundles xss = map (\<lambda>xs. Bundle (map Leaf xs)) xss"

definition own :: "('a \<Rightarrow> subEngineEnum option) \<Rightarrow> subEngineEnum \<Rightarrow> 'a list list \<Rightarrow> 'a artifact list" where
  "own kind s xss = map Leaf (filter (\<lambda>x. kind x = Some s) (concat xss))"

lemma filter_bundle_Ret:
  "list_all (\<lambda>x. kind x \<noteq> None) xs \<Longrightarrow> filter_bundle kind s (map Leaf xs) = Ret (map Leaf (filter (\<lambda>x. kind x = Some s) xs))"
  by (induction xs) (auto simp: artifactIsFor_def)

lemma filterArtifacts_Ret:
  "list_all (\<lambda>x. kind x \<noteq> None) (concat xss) \<Longrightarrow> filterArtifacts kind s (bundles xss) = Ret (own kind s xss)"
  by (induction xss) (simp_all add: bundles_def own_def filter_bundle_Ret)

lemma good_loop_noting:
  assumes "list_all (\<lambda>x. kind x \<noteq> None) (concat xss)" "\<forall>s\<in>set ss. map_of (Services e) s = Some (noting s (out s))"
  shows "good_loop kind e m (bundles xss) ss acc w =
    Ret ((\<lambda>h. acc h @ concat (map (\<lambda>s. out s (entries m s) (own kind s xss) h) ss), None),
         w @ map (\<lambda>s. (s, entries m s, own kind s xss)) ss)"
  using assms(2)
  by (induction ss arbitrary: acc w) (simp_all add: filterArtifacts_Ret [OF assms(1)] noting_def entries_def mergeArtifacts_def)


text \<open>Two contracts, one per sub-engine, and a block with a log of each and one nobody wants.\<close>

definition demo_routes :: routes where
  "demo_routes = [(SubEngineENS, [(7, [70])]), (SubEngineUniswapv3Factory, [(8, [80])])]"

definition demo_orders :: map_orders where
  "demo_orders = \<lparr>mo_routes = (\<lambda>_. rev), mo_logs = (\<lambda>_ ks. ks), mo_blocks = rev\<rparr>"

definition demo_log :: "address \<Rightarrow> hash \<Rightarrow> eth_log" where
  "demo_log a t = \<lparr>log_Address = a, log_Topics = [t], log_Data = [], log_BlockNumber = 5, log_TxHash = 1, log_BlockHash = 50\<rparr>"

definition demo_block :: block where
  "demo_block = \<lparr>LogsMigrated = False, Number = 5, Hash = 50, Header = None, Logs = [demo_log 8 80, demo_log 7 70, demo_log 8 81]\<rparr>"

definition demo_out :: "subEngineEnum \<Rightarrow> block list \<Rightarrow> subEngineEnum artifact list \<Rightarrow> hash \<Rightarrow> subEngineEnum artifact list" where
  "demo_out s bs as h = (if h = 50 then [Leaf s] else [])"

definition demo_router :: "(subEngineEnum, subEngineEnum calls) routerEngine" where
  "demo_router = router_New demo_routes (map (\<lambda>s. (s, noting s (demo_out s))) [SubEngineENS, SubEngineUniswapv3Factory]) 0"

interpretation drt: routing std_lib demo_orders demo_router
proof
  have "s = s'" if "routed_to demo_routes s log" "routed_to demo_routes s' log" for s s' log
    using that by (auto simp: routed_to_def demo_routes_def subengine_defs split: if_splits)
  then show "unambiguous (Routes demo_router)" by (auto simp: unambiguous_def demo_router_def router_New_def)
qed (simp_all add: std.lib_spec_axioms orders_ok_def demo_orders_def demo_router_def router_New_def demo_routes_def subengine_defs)


end
