(* ===== verification/Demo_Store.thy ===== *)
theory Demo_Store
  imports Watcher_Types
begin

text \<open>
  What a sub-engine of the demo service relies on in its data gateway, whether it is the mock or the
  one over Redis: the locale \<open>entity_store\<close>. The Redis client is a third-party package, of which the two
  repositories call the four commands on hashes; what these promise on a working connection is the locale
  \<open>redis_hash\<close>. An entity is kept as the text \<open>encoding/json\<close> makes of it by reflection, with the text
  methods of \<open>go-ethereum\<close> for its addresses and hashes; the two directions are the codec.
\<close>

section \<open>Strings\<close>

text \<open>\<open>strings.Split(s, sep)\<close> for a separator of one character.\<close>

fun split_on :: "char \<Rightarrow> string \<Rightarrow> string list" where
  "split_on sep [] = [[]]"
| "split_on sep (c # cs) =
     (if c = sep then [] # split_on sep cs
      else case split_on sep cs of [] \<Rightarrow> [[c]] | w # ws \<Rightarrow> (c # w) # ws)"

lemma split_no_sep: "sep \<notin> set x \<Longrightarrow> split_on sep x = [x]"
  by (induction x) auto

lemma split_append: "sep \<notin> set x \<Longrightarrow> split_on sep (x @ sep # y) = x # split_on sep y"
  by (induction x) auto

lemma digit_chars: "c \<in> set (dec_digits n) \<Longrightarrow> \<exists>d<10. c = digit_char d"
proof (induction n rule: dec_digits.induct)
  case (1 n)
  have "n mod 10 < 10" by simp
  then show ?case using 1 dec_digits.simps [of n] by (cases "n < 10") (auto intro: exI [of _ "n mod 10"])
qed

lemma digit_special:
  assumes "c \<in> set (dec_digits n)"
  shows "c \<noteq> CHR '' '' \<and> c \<noteq> CHR ''-'' \<and> c \<noteq> CHR ''+'' \<and> c \<noteq> CHR '','' \<and> c \<noteq> CHR '';''"
proof -
  obtain d where d: "d < 10" "c = digit_char d" using digit_chars [OF assms] by blast
  then have "of_char c = 48 + d" by (simp add: digit_char_def take_bit_nat_eq_self)
  then show ?thesis using d(1) by auto
qed

lemma dec_digits_inj: "dec_digits m = dec_digits n \<longleftrightarrow> m = n"
  by (metis parse_dec_digits option.inject)

text \<open>Numbers in decimal, each followed by a comma.\<close>

definition print_fields :: "nat list \<Rightarrow> string" where
  "print_fields ns = concat (map (\<lambda>n. dec_digits n @ '','') ns)"

lemma split_fields: "map (parse_dec 0) (butlast (split_on (CHR '','') (print_fields ns))) = map Some ns"
proof (induction ns)
  case (Cons n ns)
  have "CHR '','' \<notin> set (dec_digits n)" using digit_special by blast
  then have "split_on (CHR '','') (print_fields (n # ns)) = dec_digits n # split_on (CHR '','') (print_fields ns)"
    by (simp add: print_fields_def split_append)
  moreover have "split_on (CHR '','') (print_fields ns) \<noteq> []"
    by (cases "print_fields ns") (auto split: list.splits)
  ultimately show ?case using Cons.IH by (simp add: parse_dec_digits)
qed (simp add: print_fields_def)

text \<open>Lists of numbers, each followed by a semicolon.\<close>

definition print_lists :: "nat list list \<Rightarrow> string" where
  "print_lists nss = concat (map (\<lambda>ns. print_fields ns @ '';'') nss)"

definition parse_lists :: "string \<Rightarrow> nat list option list" where
  "parse_lists s = map (\<lambda>f. those (map (parse_dec 0) (butlast (split_on (CHR '','') f)))) (butlast (split_on (CHR '';'') s))"

lemma parse_print_lists: "parse_lists (print_lists nss) = map Some nss"
proof (induction nss)
  case (Cons ns nss)
  have "those (map Some ms) = Some ms" for ms :: "nat list" by (induction ms) auto
  moreover have "CHR '';'' \<notin> set (print_fields ns)" by (auto simp: print_fields_def dest: digit_special)
  then have "split_on (CHR '';'') (print_lists (ns # nss)) = print_fields ns # split_on (CHR '';'') (print_lists nss)"
    by (simp add: print_lists_def split_append)
  moreover have "split_on (CHR '';'') (print_lists nss) \<noteq> []"
    by (cases "print_lists nss") (auto split: list.splits)
  ultimately show ?case using Cons.IH by (simp add: parse_lists_def split_fields)
qed (simp add: print_lists_def parse_lists_def)

section \<open>The contract of a data gateway\<close>

text \<open>
  \<open>read g k\<close> is what reading key \<open>k\<close> returns; \<open>known\<close> says of which keys an entity may be deleted. Reading changes
  nothing, storing is seen by reading, and so is deleting; no operation touches another key.
\<close>

locale entity_store =
  fixes key :: "'x \<Rightarrow> 'k"
    and set_entity :: "'x \<Rightarrow> 'g \<Rightarrow> (err \<times> 'g) go"
    and del_entity :: "'x \<Rightarrow> 'g \<Rightarrow> (err \<times> 'g) go"
    and get_entity :: "'k \<Rightarrow> 'g \<Rightarrow> (('x option \<times> err) \<times> 'g) go"
    and read :: "'g \<Rightarrow> 'k \<Rightarrow> 'x option \<times> err"
    and known :: "'g \<Rightarrow> 'k \<Rightarrow> bool"
    and storable :: "'x \<Rightarrow> bool"
  assumes get_reads: "get_entity k g = Ret (read g k, g)"
    and set_stores: "storable x \<Longrightarrow> \<exists>g'. set_entity x g = Ret (None, g') \<and> read g' = (read g)(key x := (Some x, None)) \<and>
      (\<forall>k. known g k \<or> k = key x \<longrightarrow> known g' k)"
    and del_removes: "known g (key x) \<Longrightarrow> \<exists>er g'. del_entity x g = Ret (None, g') \<and> read g' = (read g)(key x := (None, er)) \<and>
      (\<forall>k. k \<noteq> key x \<longrightarrow> known g k \<longrightarrow> known g' k)"
begin

text \<open>Storing one entity after the other, as the engines do.\<close>

fun set_all :: "'x list \<Rightarrow> 'g \<Rightarrow> (err \<times> 'g) go" where
  "set_all [] g = Ret (None, g)"
| "set_all (x # xs) g = go_bind (set_entity x g) (\<lambda>(er, g1). if er \<noteq> None then Ret (er, g1) else set_all xs g1)"

lemma set_all_stores:
  assumes "list_all storable xs" "distinct (map key xs)"
  shows "\<exists>g'. set_all xs g = Ret (None, g') \<and> (\<forall>x\<in>set xs. read g' (key x) = (Some x, None) \<and> known g' (key x)) \<and>
    (\<forall>k. k \<notin> key ` set xs \<longrightarrow> read g' k = read g k) \<and> (\<forall>k. known g k \<longrightarrow> known g' k)"
  using assms
proof (induction xs arbitrary: g)
  case (Cons x xs)
  obtain g1 where g1: "set_entity x g = Ret (None, g1)" "read g1 = (read g)(key x := (Some x, None))" "\<forall>k. known g k \<or> k = key x \<longrightarrow> known g1 k"
    using set_stores [of x g] Cons.prems(1) by auto
  have "list_all storable xs" "distinct (map key xs)" and new: "key x \<notin> key ` set xs" using Cons.prems by auto
  from Cons.IH [OF this(1,2), of g1]
  obtain g' where g': "set_all xs g1 = Ret (None, g')" "\<forall>x\<in>set xs. read g' (key x) = (Some x, None) \<and> known g' (key x)"
      "\<forall>k. k \<notin> key ` set xs \<longrightarrow> read g' k = read g1 k" "\<forall>k. known g1 k \<longrightarrow> known g' k"
    by blast
  have "read g' (key x) = (Some x, None) \<and> known g' (key x)" using g'(3,4) g1(2,3) new by simp
  moreover have "read g' k = read g k" if "k \<notin> key ` set (x # xs)" for k using that g'(3) g1(2) by simp
  moreover have "set_all (x # xs) g = Ret (None, g')" using g1(1) g'(1) by simp
  ultimately show ?case using g'(2,4) g1(3) by (intro exI [of _ g']) simp
qed simp

end

text \<open>A gateway that takes a second deletion of the same key, and says of a deleted key that it has no record.\<close>

locale entity_store_again = entity_store key set_entity del_entity get_entity read known storable
  for key :: "'x \<Rightarrow> 'k" and set_entity :: "'x \<Rightarrow> 'g \<Rightarrow> (err \<times> 'g) go" and del_entity :: "'x \<Rightarrow> 'g \<Rightarrow> (err \<times> 'g) go" and get_entity
    and read :: "'g \<Rightarrow> 'k \<Rightarrow> 'x option \<times> err" and known storable +
  assumes del_known: "known g (key x) \<Longrightarrow> del_entity x g = Ret (None, g') \<Longrightarrow> known g' (key x)"
    and del_absent: "known g (key x) \<Longrightarrow> del_entity x g = Ret (None, g') \<Longrightarrow> \<exists>er. snd (read g' (key x)) = Some er \<and> errors_Is er ErrRecordNotFound"
begin

fun del_all :: "'x list \<Rightarrow> 'g \<Rightarrow> (err \<times> 'g) go" where
  "del_all [] g = Ret (None, g)"
| "del_all (x # xs) g = go_bind (del_entity x g) (\<lambda>(er, g1). if er \<noteq> None then Ret (er, g1) else del_all xs g1)"

text \<open>What has been deleted is gone, whatever else is deleted, and however often.\<close>

definition gone :: "'g \<Rightarrow> 'k \<Rightarrow> bool" where
  "gone g k \<longleftrightarrow> fst (read g k) = None \<and> (\<exists>er. snd (read g k) = Some er \<and> errors_Is er ErrRecordNotFound)"

lemma del_step:
  assumes "known g (key x)"
  shows "\<exists>g'. del_entity x g = Ret (None, g') \<and> gone g' (key x) \<and> (\<forall>k. k \<noteq> key x \<longrightarrow> read g' k = read g k) \<and> (\<forall>k. known g k \<longrightarrow> known g' k)"
proof -
  obtain er g' where g': "del_entity x g = Ret (None, g')" "read g' = (read g)(key x := (None, er))" "\<forall>k. k \<noteq> key x \<longrightarrow> known g k \<longrightarrow> known g' k"
    using del_removes [OF assms] by blast
  moreover have "known g' (key x)" using del_known [OF assms g'(1)] .
  moreover have "gone g' (key x)" using del_absent [OF assms g'(1)] g'(2) by (simp add: gone_def)
  ultimately show ?thesis by (metis fun_upd_other)
qed

lemma del_all_gone:
  assumes "\<forall>x\<in>set xs. known g (key x)"
  shows "\<exists>g'. del_all xs g = Ret (None, g') \<and> (\<forall>k. if k \<in> key ` set xs then gone g' k else read g' k = read g k) \<and> (\<forall>k. known g k \<longrightarrow> known g' k)"
  using assms
proof (induction xs arbitrary: g)
  case (Cons x xs)
  obtain g1 where g1: "del_entity x g = Ret (None, g1)" "gone g1 (key x)" "\<forall>k. k \<noteq> key x \<longrightarrow> read g1 k = read g k" "\<forall>k. known g k \<longrightarrow> known g1 k"
    using del_step [of g x] Cons.prems by auto
  obtain g' where g': "del_all xs g1 = Ret (None, g')" "\<forall>k. if k \<in> key ` set xs then gone g' k else read g' k = read g1 k" "\<forall>k. known g1 k \<longrightarrow> known g' k"
    using Cons.IH [of g1] Cons.prems g1(4) by auto
  have "if k \<in> key ` set (x # xs) then gone g' k else read g' k = read g k" for k
    using g1(2,3) spec [OF g'(2), of k] by (cases "k = key x") (auto simp: gone_def split: if_splits)
  then show ?case using g1(1,4) g'(1,3) by auto
qed simp

end

section \<open>Hashes in Redis (redis.go, ens_datagateway.go)\<close>

record 'r redis_hashes =
  rh_HSet :: "string \<Rightarrow> string \<Rightarrow> string \<Rightarrow> 'r \<Rightarrow> (err \<times> 'r) go"
  rh_HGet :: "string \<Rightarrow> string \<Rightarrow> 'r \<Rightarrow> ((string \<times> err) \<times> 'r) go"
  rh_HGetAll :: "string \<Rightarrow> 'r \<Rightarrow> (((string \<times> string) list \<times> err) \<times> 'r) go"
  rh_HDel :: "string \<Rightarrow> string \<Rightarrow> 'r \<Rightarrow> (err \<times> 'r) go"
  rh_Nil :: go_error

definition handleRedisErr :: "go_error \<Rightarrow> err \<Rightarrow> string \<Rightarrow> string \<Rightarrow> err" where
  "handleRedisErr redisNil er action k =
     (case er of
        None \<Rightarrow> None
      | Some x \<Rightarrow> Some (ErrWrap (if errors_Is x redisNil then WrapErrRecordNotFound ''%s'' else x) ''action: %s''))"

record 'x json_codec =
  js_Marshal :: "'x \<Rightarrow> go_error + string"
  js_Unmarshal :: "string \<Rightarrow> go_error + 'x"

text \<open>The loop of \<open>GetENSes\<close> and \<open>GetPools\<close>: it stops at the first text it cannot read.\<close>

fun unmarshal_all :: "'x json_codec \<Rightarrow> string \<Rightarrow> (string \<times> string) list \<Rightarrow> go_error + 'x list" where
  "unmarshal_all J msg [] = Inr []"
| "unmarshal_all J msg ((k, s) # rest) =
     (case js_Unmarshal J s of
        Inl x \<Rightarrow> Inl (ErrWrap x msg)
      | Inr v \<Rightarrow> (case unmarshal_all J msg rest of Inl x \<Rightarrow> Inl x | Inr vs \<Rightarrow> Inr (v # vs)))"

text \<open>An entity whose text is read back as it was. JSON cannot say every entity: a year past 9999 is refused.\<close>

definition json_storable :: "'x json_codec \<Rightarrow> 'x \<Rightarrow> bool" where
  "json_storable J x \<longleftrightarrow> (case js_Marshal J x of Inl _ \<Rightarrow> False | Inr s \<Rightarrow> js_Unmarshal J s = Inr x)"

locale redis_hash =
  fixes c :: "'r redis_hashes" and hashes :: "'r \<Rightarrow> string \<Rightarrow> string \<Rightarrow> string option"
  assumes hset: "\<exists>r'. rh_HSet c h k v r = Ret (None, r') \<and> hashes r' = (hashes r)(h := (hashes r h)(k \<mapsto> v))"
    and hget: "rh_HGet c h k r = Ret (case hashes r h k of None \<Rightarrow> ([], Some (rh_Nil c)) | Some v \<Rightarrow> (v, None), r)"
    and hgetall: "\<exists>m. rh_HGetAll c h r = Ret ((m, None), r) \<and> distinct (map fst m) \<and> map_of m = hashes r h"
    and hdel: "\<exists>r'. rh_HDel c h k r = Ret (None, r') \<and> hashes r' = (hashes r)(h := (hashes r h)(k := None))"
begin

text \<open>The laws of a repository that keeps its entities in one hash, proved once for both of them.\<close>

definition read_hash :: "'x json_codec \<Rightarrow> string \<Rightarrow> string \<Rightarrow> string \<Rightarrow> string \<Rightarrow> 'r \<Rightarrow> 'x option \<times> err" where
  "read_hash J h action msg k r =
     (case hashes r h k of
        None \<Rightarrow> (None, handleRedisErr (rh_Nil c) (Some (rh_Nil c)) action k)
      | Some s \<Rightarrow> (case js_Unmarshal J s of Inl x \<Rightarrow> (None, Some (ErrWrap x msg)) | Inr v \<Rightarrow> (Some v, None)))"

lemma hash_stored:
  assumes "json_storable J x"
  shows "\<exists>s r'. js_Marshal J x = Inr s \<and> rh_HSet c h k s r = Ret (None, r') \<and> (\<forall>k'. read_hash J h a m k' r' = (if k' = k then (Some x, None) else read_hash J h a m k' r))"
proof -
  obtain s where s: "js_Marshal J x = Inr s" "js_Unmarshal J s = Inr x" using assms by (auto simp: json_storable_def split: sum.splits)
  obtain r' where "rh_HSet c h k s r = Ret (None, r')" "hashes r' = (hashes r)(h := (hashes r h)(k \<mapsto> s))" using hset by blast
  then show ?thesis using s by (intro exI [of _ s] exI [of _ r']) (simp add: read_hash_def)
qed

lemma hash_deleted:
  "\<exists>r'. rh_HDel c h k r = Ret (None, r') \<and>
    (\<forall>k'. read_hash J h a m k' r' = (if k' = k then (None, handleRedisErr (rh_Nil c) (Some (rh_Nil c)) a k) else read_hash J h a m k' r))"
proof -
  obtain r' where "rh_HDel c h k r = Ret (None, r')" "hashes r' = (hashes r)(h := (hashes r h)(k := None))" using hdel by blast
  then show ?thesis by (intro exI [of _ r']) (simp add: read_hash_def)
qed

end

text \<open>Errors of a missing key are \<open>ErrRecordNotFound\<close>.\<close>

lemma handleRedisErr_Nil: "\<exists>er. handleRedisErr n (Some n) a k = Some er \<and> errors_Is er ErrRecordNotFound"
  by (simp add: handleRedisErr_def WrapErrRecordNotFound_Is)

text \<open>A server that keeps its hashes in a list of fields, the newest first.\<close>

definition list_hashes :: "((string \<times> string) \<times> string) list redis_hashes" where
  "list_hashes = \<lparr>rh_HSet = (\<lambda>h k v r. Ret (None, ((h, k), v) # filter (\<lambda>(hk, _). hk \<noteq> (h, k)) r)),
     rh_HGet = (\<lambda>h k r. Ret (case map_of r (h, k) of None \<Rightarrow> ([], Some (ErrNew ''redis: nil'')) | Some v \<Rightarrow> (v, None), r)),
     rh_HGetAll = (\<lambda>h r. Ret ((map (\<lambda>k. (k, the (map_of r (h, k)))) (remdups (map (snd \<circ> fst) (filter (\<lambda>((h', _), _). h' = h) r))), None), r)),
     rh_HDel = (\<lambda>h k r. Ret (None, filter (\<lambda>(hk, _). hk \<noteq> (h, k)) r)), rh_Nil = ErrNew ''redis: nil''\<rparr>"

lemma map_of_drop: "map_of (filter (\<lambda>(k, _). k \<noteq> x) r) y = (if y = x then None else map_of r y)"
  by (induction r) auto

lemma map_of_keys: "map_of (map (\<lambda>k. (k, f k)) ks) x = (if x \<in> set ks then Some (f x) else None)"
  by (induction ks) auto

interpretation lhr: redis_hash list_hashes "\<lambda>r h k. map_of r (h, k)"
proof
  fix h k v and r :: "((string \<times> string) \<times> string) list"
  show "\<exists>r'. rh_HSet list_hashes h k v r = Ret (None, r') \<and> (\<lambda>h k. map_of r' (h, k)) = (\<lambda>h k. map_of r (h, k))(h := (\<lambda>k. map_of r (h, k))(k \<mapsto> v))"
    by (auto simp: list_hashes_def map_of_drop fun_eq_iff)
  show "rh_HGet list_hashes h k r = Ret (case map_of r (h, k) of None \<Rightarrow> ([], Some (rh_Nil list_hashes)) | Some v \<Rightarrow> (v, None), r)"
    by (simp add: list_hashes_def split: option.split)
  have "k \<in> set (remdups (map (snd \<circ> fst) (filter (\<lambda>((h', _), _). h' = h) r))) \<longleftrightarrow> map_of r (h, k) \<noteq> None" for k
    by (induction r) auto
  then have "map_of (map (\<lambda>k. (k, the (map_of r (h, k)))) (remdups (map (snd \<circ> fst) (filter (\<lambda>((h', _), _). h' = h) r)))) = (\<lambda>k. map_of r (h, k))"
    by (auto simp: map_of_keys fun_eq_iff)
  then show "\<exists>m. rh_HGetAll list_hashes h r = Ret ((m, None), r) \<and> distinct (map fst m) \<and> map_of m = (\<lambda>k. map_of r (h, k))"
    by (simp add: list_hashes_def comp_def)
  show "\<exists>r'. rh_HDel list_hashes h k r = Ret (None, r') \<and> (\<lambda>h k. map_of r' (h, k)) = (\<lambda>h k. map_of r (h, k))(h := (\<lambda>k. map_of r (h, k))(k := None))"
    by (auto simp: list_hashes_def map_of_drop fun_eq_iff)
qed

end
