(* ===== verification/Demo_Pool.thy ===== *)
theory Demo_Pool
  imports Demo_Router Demo_Store
begin

text \<open>
  The pool factory sub-engine of the demo service (\<open>internal/subengines/uniswapv3factoryengine\<close>), with the
  entity it stores, the unpacking helpers (\<open>internal/lib/logutils\<close>) and the mock data gateway
  (\<open>internal/domain/datagateway\<close>). An artifact of this engine is a Go map, which is shared by
  reference, so the world has a heap of such maps. Contracts come from \<open>w3utils\<close> and their ABI from
  \<open>go-ethereum\<close>: what the engine calls of them is a field of the contract.
\<close>

section \<open>Contracts and unpacked data (logutils/unpack_log.go)\<close>

datatype abi_value = AbiAddress address | AbiString string | AbiBigInt int | AbiOther

record contract =
  con_Address :: address
  con_Events :: "(hash \<times> string) list"
  con_UnpackIntoMap :: "string \<Rightarrow> 8 word list \<Rightarrow> go_error + (string \<times> abi_value) list"

text \<open>Conversions of \<open>go-ethereum\<close> and \<open>gsl\<close> the engine uses.\<close>

record eth_conv =
  cv_HexToAddress :: "hash \<Rightarrow> address"
  cv_Big_Uint64 :: "hash \<Rightarrow> u64"
  cv_address_string :: "address \<Rightarrow> string"
  cv_hash_string :: "hash \<Rightarrow> string"
  cv_parse_hash :: "string \<Rightarrow> hash"

definition UnpackLogDataIntoMap :: "contract \<Rightarrow> string \<Rightarrow> 8 word list \<Rightarrow> go_error + (string \<times> abi_value) list" where
  "UnpackLogDataIntoMap c eventKey logData =
     (case con_UnpackIntoMap c eventKey logData of
        Inl x \<Rightarrow> Inl (ErrWrap x ''failed to unpack eventKey %s with log data %s'')
      | Inr m \<Rightarrow> Inr m)"

text \<open>The type parameter is the assertion \<open>as\<close> to it.\<close>

definition ExtractFieldFromUnpacked :: "(abi_value \<Rightarrow> 'x option) \<Rightarrow> (string \<times> abi_value) list \<Rightarrow> string \<Rightarrow> go_error + 'x" where
  "ExtractFieldFromUnpacked as unpacked field =
     (case map_of unpacked field of
        None \<Rightarrow> Inl (ErrNew ''field %s not found in unpacked'')
      | Some v \<Rightarrow> (case as v of None \<Rightarrow> Inl (ErrNew ''type assertion failed: field %s is not %s'') | Some x \<Rightarrow> Inr x))"

definition as_address :: "abi_value \<Rightarrow> address option" where
  "as_address v = (case v of AbiAddress a \<Rightarrow> Some a | _ \<Rightarrow> None)"

section \<open>The entity and its data gateway\<close>

record uniswapv3PoolCreated =
  pool_Address :: address
  Token0 :: address
  Token1 :: address
  Fee :: u64
  BlockCreated :: u64
  pool_BlockHash :: hash
  pool_TxHash :: hash

record 'g repositoryPoolFactory =
  rp_SetPool :: "uniswapv3PoolCreated \<Rightarrow> 'g \<Rightarrow> (err \<times> 'g) go"
  rp_GetPool :: "address \<Rightarrow> 'g \<Rightarrow> ((uniswapv3PoolCreated option \<times> err) \<times> 'g) go"
  rp_GetPools :: "'g \<Rightarrow> ((uniswapv3PoolCreated option list \<times> err) \<times> 'g) go"
  rp_DelPool :: "uniswapv3PoolCreated \<Rightarrow> 'g \<Rightarrow> (err \<times> 'g) go"

text \<open>The mock: a map from addresses to pointers that may be nil, and the log of its writes.\<close>

record mockDataGatewayPoolFactory =
  mp_m :: "(string \<times> uniswapv3PoolCreated option) list"
  mp_writeLogs :: "string list"

definition NewMockDataGatewayPoolFactory :: mockDataGatewayPoolFactory where
  "NewMockDataGatewayPoolFactory = \<lparr>mp_m = [], mp_writeLogs = []\<rparr>"

definition write_log :: "string \<Rightarrow> string \<Rightarrow> u64 \<Rightarrow> string \<Rightarrow> string" where
  "write_log cmd key number h = cmd @ '' '' @ key @ '' BLOCK '' @ FormatUint number @ '' HASH '' @ h"

definition mock_SetPool :: "eth_conv \<Rightarrow> uniswapv3PoolCreated \<Rightarrow> mockDataGatewayPoolFactory \<Rightarrow> (err \<times> mockDataGatewayPoolFactory) go" where
  "mock_SetPool V pool g =
     (let addr = cv_address_string V (pool_Address pool);
          h = cv_hash_string V (pool_BlockHash pool)
      in Ret (None, g\<lparr>mp_m := AList.update addr (Some pool) (mp_m g),
           mp_writeLogs := mp_writeLogs g @ [write_log ''SET POOL'' addr (BlockCreated pool) h]\<rparr>))"

definition mock_GetPool ::
    "eth_conv \<Rightarrow> address \<Rightarrow> mockDataGatewayPoolFactory \<Rightarrow> ((uniswapv3PoolCreated option \<times> err) \<times> mockDataGatewayPoolFactory) go" where
  "mock_GetPool V lpAddress g =
     (case map_of (mp_m g) (cv_address_string V lpAddress) of
        None \<Rightarrow> Ret ((None, Some (ErrWrap ErrRecordNotFound ''lp %s not found'')), g)
      | Some pool \<Rightarrow> Ret ((pool, None), g))"

text \<open>The slice has the map's values, in the order in which the range visits the keys.\<close>

definition mock_GetPools ::
    "(string list \<Rightarrow> string list) \<Rightarrow> mockDataGatewayPoolFactory \<Rightarrow> ((uniswapv3PoolCreated option list \<times> err) \<times> mockDataGatewayPoolFactory) go" where
  "mock_GetPools visit g = Ret ((map (\<lambda>k. the (map_of (mp_m g) k)) (visit (map fst (mp_m g))), None), g)"

text \<open>The last log line reads the pool that was stored, a nil pointer if it was deleted before.\<close>

definition mock_DelPool :: "eth_conv \<Rightarrow> uniswapv3PoolCreated \<Rightarrow> mockDataGatewayPoolFactory \<Rightarrow> (err \<times> mockDataGatewayPoolFactory) go" where
  "mock_DelPool V pool g =
     (let addr = cv_address_string V (pool_Address pool);
          h = cv_hash_string V (pool_BlockHash pool)
      in case map_of (mp_m g) addr of
           None \<Rightarrow> Ret (Some (ErrWrap ErrRecordNotFound ''lp %s not found''), g)
         | Some None \<Rightarrow> nil_call
         | Some (Some stored) \<Rightarrow>
             Ret (None, g\<lparr>mp_m := AList.update addr None (mp_m g),
               mp_writeLogs := mp_writeLogs g @ [write_log ''DEL POOL'' addr (BlockCreated stored) h]\<rparr>))"

definition mock_repository :: "eth_conv \<Rightarrow> (string list \<Rightarrow> string list) \<Rightarrow> mockDataGatewayPoolFactory repositoryPoolFactory" where
  "mock_repository V visit = \<lparr>rp_SetPool = mock_SetPool V, rp_GetPool = mock_GetPool V, rp_GetPools = mock_GetPools visit, rp_DelPool = mock_DelPool V\<rparr>"

text \<open>The repository over Redis: one hash, with the address of a pool as the field.\<close>

definition PoolFactoryRedisKey :: string where "PoolFactoryRedisKey = ''demo:poolfactory''"

record 'r redisPoolFactory =
  pr_redisCli :: "'r redis_hashes"
  pr_json :: "uniswapv3PoolCreated json_codec"

definition NewDataGatewayPoolFactory :: "'r redis_hashes \<Rightarrow> uniswapv3PoolCreated json_codec \<Rightarrow> 'r redisPoolFactory" where
  "NewDataGatewayPoolFactory redisCli J = \<lparr>pr_redisCli = redisCli, pr_json = J\<rparr>"

definition redis_SetPool :: "eth_conv \<Rightarrow> 'r redisPoolFactory \<Rightarrow> uniswapv3PoolCreated \<Rightarrow> 'r \<Rightarrow> (err \<times> 'r) go" where
  "redis_SetPool V s pool r =
     (case js_Marshal (pr_json s) pool of
        Inl x \<Rightarrow> Ret (Some (ErrWrap x ''failed to unmarshal pool %s''), r)
      | Inr poolJSON \<Rightarrow>
          let addr = cv_address_string V (pool_Address pool)
          in go_bind (rh_HSet (pr_redisCli s) PoolFactoryRedisKey addr poolJSON r) (\<lambda>(er, r1).
               Ret (if er \<noteq> None then handleRedisErr (rh_Nil (pr_redisCli s)) er ''HSet pool'' addr else None, r1)))"

definition redis_GetPool :: "eth_conv \<Rightarrow> 'r redisPoolFactory \<Rightarrow> address \<Rightarrow> 'r \<Rightarrow> ((uniswapv3PoolCreated option \<times> err) \<times> 'r) go" where
  "redis_GetPool V s lpAddress r =
     (let addr = cv_address_string V lpAddress
      in go_bind (rh_HGet (pr_redisCli s) PoolFactoryRedisKey addr r) (\<lambda>((poolJSON, er), r1).
           if er \<noteq> None then Ret ((None, handleRedisErr (rh_Nil (pr_redisCli s)) er ''HGET pool'' addr), r1)
           else case js_Unmarshal (pr_json s) poolJSON of
                  Inl x \<Rightarrow> Ret ((None, Some (ErrWrap x ''failed to unmarshal poolJSON'')), r1)
                | Inr pool \<Rightarrow> Ret ((Some pool, None), r1)))"

text \<open>The list \<open>HGetAll\<close> returns is in the order in which the range visits the map.\<close>

definition redis_GetPools :: "'r redisPoolFactory \<Rightarrow> 'r \<Rightarrow> ((uniswapv3PoolCreated option list \<times> err) \<times> 'r) go" where
  "redis_GetPools s r =
     go_bind (rh_HGetAll (pr_redisCli s) PoolFactoryRedisKey r) (\<lambda>((resultMap, er), r1).
       if er \<noteq> None then Ret (([], handleRedisErr (rh_Nil (pr_redisCli s)) er ''HGETALL pool'' ''null''), r1)
       else case unmarshal_all (pr_json s) ''failed to unmarshal poolJSON %s'' resultMap of
              Inl x \<Rightarrow> Ret (([], Some x), r1)
            | Inr pools \<Rightarrow> Ret ((map Some pools, None), r1))"

definition redis_DelPool :: "eth_conv \<Rightarrow> 'r redisPoolFactory \<Rightarrow> uniswapv3PoolCreated \<Rightarrow> 'r \<Rightarrow> (err \<times> 'r) go" where
  "redis_DelPool V s pool r =
     (let addr = cv_address_string V (pool_Address pool)
      in go_bind (rh_HDel (pr_redisCli s) PoolFactoryRedisKey addr r) (\<lambda>(er, r1).
           Ret (if er \<noteq> None then handleRedisErr (rh_Nil (pr_redisCli s)) er ''HDEL pool'' addr else None, r1)))"

definition redis_pool_repository :: "eth_conv \<Rightarrow> 'r redisPoolFactory \<Rightarrow> 'r repositoryPoolFactory" where
  "redis_pool_repository V s = \<lparr>rp_SetPool = redis_SetPool V s, rp_GetPool = redis_GetPool V s, rp_GetPools = redis_GetPools s, rp_DelPool = redis_DelPool V s\<rparr>"

text \<open>
  Both repositories are entity stores, when different addresses print differently. The mock panics when a pool is
  deleted twice, so there only a pool that is stored may be deleted.
\<close>

abbreviation pool_store where
  "pool_store R \<equiv> entity_store pool_Address (rp_SetPool R) (rp_DelPool R) (rp_GetPool R)"

locale address_strings =
  fixes V :: eth_conv
  assumes address_inj: "cv_address_string V a = cv_address_string V b \<longleftrightarrow> a = b"
begin

definition mock_read :: "mockDataGatewayPoolFactory \<Rightarrow> address \<Rightarrow> uniswapv3PoolCreated option \<times> err" where
  "mock_read g a = (case map_of (mp_m g) (cv_address_string V a) of
     None \<Rightarrow> (None, Some (ErrWrap ErrRecordNotFound ''lp %s not found'')) | Some pool \<Rightarrow> (pool, None))"

definition mock_known :: "mockDataGatewayPoolFactory \<Rightarrow> address \<Rightarrow> bool" where
  "mock_known g a \<longleftrightarrow> (\<exists>pool. map_of (mp_m g) (cv_address_string V a) = Some (Some pool))"

end

sublocale address_strings \<subseteq> mps: entity_store pool_Address "rp_SetPool (mock_repository V visit)" "rp_DelPool (mock_repository V visit)"
  "rp_GetPool (mock_repository V visit)" mock_read mock_known "\<lambda>_. True"
proof
  fix k g
  show "rp_GetPool (mock_repository V visit) k g = Ret (mock_read g k, g)"
    by (simp add: mock_repository_def mock_GetPool_def mock_read_def split: option.split)
next
  fix x :: uniswapv3PoolCreated and g
  show "\<exists>g'. rp_SetPool (mock_repository V visit) x g = Ret (None, g') \<and> mock_read g' = (mock_read g)(pool_Address x := (Some x, None)) \<and>
      (\<forall>k. mock_known g k \<or> k = pool_Address x \<longrightarrow> mock_known g' k)"
    by (auto simp: mock_repository_def mock_SetPool_def Let_def mock_read_def mock_known_def update_conv' address_inj fun_eq_iff)
next
  fix x :: uniswapv3PoolCreated and g assume "mock_known g (pool_Address x)"
  then show "\<exists>er g'. rp_DelPool (mock_repository V visit) x g = Ret (None, g') \<and> mock_read g' = (mock_read g)(pool_Address x := (None, er)) \<and>
      (\<forall>k. k \<noteq> pool_Address x \<longrightarrow> mock_known g k \<longrightarrow> mock_known g' k)"
    by (auto simp: mock_repository_def mock_DelPool_def Let_def mock_read_def mock_known_def update_conv' address_inj fun_eq_iff)
qed

locale redis_pools = address_strings V + redis_hash c hashes for V and c :: "'r redis_hashes" and hashes +
  fixes J :: "uniswapv3PoolCreated json_codec"
begin

definition pools_read :: "'r \<Rightarrow> address \<Rightarrow> uniswapv3PoolCreated option \<times> err" where
  "pools_read r a = read_hash J PoolFactoryRedisKey ''HGET pool'' ''failed to unmarshal poolJSON'' (cv_address_string V a) r"

end

sublocale redis_pools \<subseteq> rps: entity_store_again pool_Address "rp_SetPool (redis_pool_repository V (NewDataGatewayPoolFactory c J))"
  "rp_DelPool (redis_pool_repository V (NewDataGatewayPoolFactory c J))" "rp_GetPool (redis_pool_repository V (NewDataGatewayPoolFactory c J))"
  pools_read "\<lambda>_ _. True" "json_storable J"
proof -
  let ?R = "redis_pool_repository V (NewDataGatewayPoolFactory c J)"
  let ?read = "\<lambda>r k. read_hash J PoolFactoryRedisKey ''HGET pool'' ''failed to unmarshal poolJSON'' k r"
  note defs = redis_pool_repository_def NewDataGatewayPoolFactory_def Let_def
  have get: "rp_GetPool ?R k g = Ret (pools_read g k, g)" for k g
    by (simp add: defs redis_GetPool_def hget pools_read_def read_hash_def split: option.split sum.split)
  have set: "\<exists>g'. rp_SetPool ?R x g = Ret (None, g') \<and> pools_read g' = (pools_read g)(pool_Address x := (Some x, None)) \<and>
      (\<forall>k. True \<or> k = pool_Address x \<longrightarrow> True)" if "json_storable J x" for x g
  proof -
    obtain s g' where "js_Marshal J x = Inr s" "rh_HSet c PoolFactoryRedisKey (cv_address_string V (pool_Address x)) s g = Ret (None, g')"
        "\<forall>k. ?read g' k = (if k = cv_address_string V (pool_Address x) then (Some x, None) else ?read g k)"
      using hash_stored [OF \<open>json_storable J x\<close>] by blast
    then show ?thesis by (auto simp: defs redis_SetPool_def pools_read_def address_inj fun_eq_iff)
  qed
  have del: "\<exists>g'. rp_DelPool ?R x g = Ret (None, g') \<and>
      pools_read g' = (pools_read g)(pool_Address x := (None, handleRedisErr (rh_Nil c) (Some (rh_Nil c)) ''HGET pool'' (cv_address_string V (pool_Address x))))" for x g
  proof -
    obtain g' where "rh_HDel c PoolFactoryRedisKey (cv_address_string V (pool_Address x)) g = Ret (None, g')"
        "\<forall>k. ?read g' k = (if k = cv_address_string V (pool_Address x)
          then (None, handleRedisErr (rh_Nil c) (Some (rh_Nil c)) ''HGET pool'' (cv_address_string V (pool_Address x))) else ?read g k)"
      using hash_deleted by blast
    then show ?thesis by (auto simp: defs redis_DelPool_def pools_read_def address_inj fun_eq_iff)
  qed
  show "entity_store_again pool_Address (rp_SetPool ?R) (rp_DelPool ?R) (rp_GetPool ?R) pools_read (\<lambda>_ _. True) (json_storable J)"
  proof
    fix x g g' assume "rp_DelPool ?R x g = Ret (None, g')"
    then show "\<exists>er. snd (pools_read g' (pool_Address x)) = Some er \<and> errors_Is er ErrRecordNotFound"
      using del [of x g] handleRedisErr_Nil by fastforce
  qed (use get set del in blast)+
qed

section \<open>States (service_states.go)\<close>

definition PoolFactoryStateNull :: u8 where "PoolFactoryStateNull = 0"
definition PoolFactoryStateCreated :: u8 where "PoolFactoryStateCreated = 1"
definition PoolFactoryEventPoolCreated :: u8 where "PoolFactoryEventPoolCreated = 2"

definition pool_state_String :: "u8 \<Rightarrow> string go" where
  "pool_state_String st =
     (if st = PoolFactoryStateNull then Ret ''NULL'' else if st = PoolFactoryStateCreated then Ret ''POOLCREATED''
      else Panic ''invalid state: %d'')"

definition pool_state_IsValid :: "u8 \<Rightarrow> bool" where
  "pool_state_IsValid st \<longleftrightarrow> st = PoolFactoryStateNull \<or> st = PoolFactoryStateCreated"

definition pool_Fire :: "u8 \<Rightarrow> u8 \<Rightarrow> u8 go" where
  "pool_Fire st event =
     (case map_of [((PoolFactoryStateNull, PoolFactoryEventPoolCreated), PoolFactoryStateCreated)] (st, event) of
        None \<Rightarrow> Panic ''unknown path in state transition table'' | Some st' \<Rightarrow> Ret st')"

definition pool_event_String :: "u8 \<Rightarrow> string go" where
  "pool_event_String ev = (if ev = PoolFactoryEventPoolCreated then Ret ''PoolCreated'' else Panic ''invalid event: %d'')"

definition pool_event_IsValid :: "u8 \<Rightarrow> bool" where
  "pool_event_IsValid ev \<longleftrightarrow> ev = PoolFactoryEventPoolCreated"

section \<open>From a log to a pool (map_log_to_item.go, utils.go)\<close>

definition parsePoolCreatedUnpackedMap :: "(string \<times> abi_value) list \<Rightarrow> go_error + uniswapv3PoolCreated" where
  "parsePoolCreatedUnpackedMap unpacked =
     (case ExtractFieldFromUnpacked as_address unpacked ''pool'' of
        Inl x \<Rightarrow> Inl (ErrWrap x ''failed to unpack poolAddr from map %v'')
      | Inr a \<Rightarrow> Inr \<lparr>pool_Address = a, Token0 = 0, Token1 = 0, Fee = 0, BlockCreated = 0, pool_BlockHash = 0, pool_TxHash = 0\<rparr>)"

definition mapLogToPoolCreated :: "eth_conv \<Rightarrow> contract \<Rightarrow> string \<Rightarrow> eth_log \<Rightarrow> (go_error + uniswapv3PoolCreated) go" where
  "mapLogToPoolCreated V c eventName l =
     (case UnpackLogDataIntoMap c eventName (log_Data l) of
        Inl x \<Rightarrow> Ret (Inl (ErrWrap x ''failed to unpack uniswapv3factory logs (event %s)''))
      | Inr unpacked \<Rightarrow>
          (case parsePoolCreatedUnpackedMap unpacked of
             Inl x \<Rightarrow> Ret (Inl (ErrWrap x ''failed to convert unpacked log data to *entity.Uniswapv3PoolCreated''))
           | Inr pool \<Rightarrow>
               if length (log_Topics l) < 4 then Panic ''index out of range''
               else Ret (Inr (pool\<lparr>Token0 := cv_HexToAddress V (log_Topics l ! 1), Token1 := cv_HexToAddress V (log_Topics l ! 2),
                      Fee := cv_Big_Uint64 V (log_Topics l ! 3), BlockCreated := log_BlockNumber l,
                      pool_BlockHash := log_BlockHash l, pool_TxHash := log_TxHash l\<rparr>))))"

section \<open>The engine (engine.go, process_log.go)\<close>

type_synonym pool_map = "(uniswapv3PoolCreated \<times> u8) list"

text \<open>The heap of the maps, and the database. A nil map is no address.\<close>

record 'g pool_world =
  pw_maps :: "pool_map list"
  pw_db :: 'g

datatype 'b demo_artifact = PoolFactoryArtifact "nat option" | OtherArtifact 'b

definition ForSubEngine :: "('b \<Rightarrow> subEngineEnum option) \<Rightarrow> 'b demo_artifact \<Rightarrow> subEngineEnum option" where
  "ForSubEngine kind a = (case a of PoolFactoryArtifact _ \<Rightarrow> Some SubEngineUniswapv3Factory | OtherArtifact x \<Rightarrow> kind x)"

record 'g uniswapv3PoolFactoryEngine =
  poolFactoryContract :: contract
  pf_dataGateway :: "'g repositoryPoolFactory"

definition pool_New :: "contract \<Rightarrow> 'g repositoryPoolFactory \<Rightarrow> u8 \<Rightarrow> 'g uniswapv3PoolFactoryEngine" where
  "pool_New c dgw logLevel = \<lparr>poolFactoryContract = c, pf_dataGateway = dgw\<rparr>"

definition write_map :: "nat \<Rightarrow> uniswapv3PoolCreated \<Rightarrow> u8 \<Rightarrow> 'g pool_world \<Rightarrow> 'g pool_world" where
  "write_map a pool st w = w\<lparr>pw_maps := (pw_maps w)[a := AList.update pool st (pw_maps w ! a)]\<rparr>"

definition read_map :: "nat option \<Rightarrow> uniswapv3PoolCreated \<Rightarrow> 'g pool_world \<Rightarrow> u8" where
  "read_map a pool w =
     (case a of
        None \<Rightarrow> PoolFactoryStateNull
      | Some n \<Rightarrow> (case map_of (pw_maps w ! n) pool of None \<Rightarrow> PoolFactoryStateNull | Some st \<Rightarrow> st))"

definition handlePoolCreated :: "'g uniswapv3PoolFactoryEngine \<Rightarrow> uniswapv3PoolCreated \<Rightarrow> 'g pool_world \<Rightarrow> (err \<times> 'g pool_world) go" where
  "handlePoolCreated e pool w = go_bind (rp_SetPool (pf_dataGateway e) pool (pw_db w)) (\<lambda>(er, g). Ret (er, w\<lparr>pw_db := g\<rparr>))"

definition revertPoolCreated :: "'g uniswapv3PoolFactoryEngine \<Rightarrow> uniswapv3PoolCreated \<Rightarrow> 'g pool_world \<Rightarrow> (err \<times> 'g pool_world) go" where
  "revertPoolCreated e pool w =
     go_bind (rp_DelPool (pf_dataGateway e) pool (pw_db w)) (\<lambda>(er, g). Ret (errors_Wrap er ''failed to revert pool %s'', w\<lparr>pw_db := g\<rparr>))"

text \<open>Whether the engine takes a log for the creation of a pool.\<close>

definition pool_event :: "eth_log \<Rightarrow> hash \<times> string \<Rightarrow> bool" where
  "pool_event log ev \<longleftrightarrow> hd (log_Topics log) = fst ev \<or> snd ev = ''PoolCreated''"

fun good_events ::
    "eth_conv \<Rightarrow> 'g uniswapv3PoolFactoryEngine \<Rightarrow> (hash \<times> string) list \<Rightarrow> nat \<Rightarrow> eth_log \<Rightarrow> 'g pool_world \<Rightarrow>
     ((nat option \<times> err) \<times> 'g pool_world) go" where
  "good_events V e [] a log w = Ret ((Some a, None), w)"
| "good_events V e (ev # evs) a log w =
     (if pool_event log ev then
        go_bind (mapLogToPoolCreated V (poolFactoryContract e) (snd ev) log) (\<lambda>r.
          case r of
            Inl x \<Rightarrow> Ret ((None, Some (ErrWrap x ''failed to map PoolCreated log to domain struct'')), w)
          | Inr pool \<Rightarrow>
              go_bind (handlePoolCreated e pool w) (\<lambda>(er, w1).
                case er of
                  Some x \<Rightarrow> Ret ((None, Some (ErrWrap x ''failed to process poolCreated'')), w1)
                | None \<Rightarrow> good_events V e evs a log (write_map a pool PoolFactoryStateCreated w1)))
      else good_events V e evs a log w)"

definition pool_handleGoodLog ::
    "eth_conv \<Rightarrow> 'g uniswapv3PoolFactoryEngine \<Rightarrow> eth_log \<Rightarrow> 'g pool_world \<Rightarrow> ((nat option \<times> err) \<times> 'g pool_world) go" where
  "pool_handleGoodLog V e log w =
     (if log_Topics log = [] then Panic ''index out of range''
      else good_events V e (con_Events (poolFactoryContract e)) (length (pw_maps w)) log (w\<lparr>pw_maps := pw_maps w @ [[]]\<rparr>))"

text \<open>The last artifact of this engine, looking into slices; any other value that is no slice panics.\<close>

fun last_in_slice :: "'b demo_artifact artifact list \<Rightarrow> nat option \<Rightarrow> nat option" where
  "last_in_slice [] pa = pa"
| "last_in_slice (Leaf (PoolFactoryArtifact a) # as) pa = last_in_slice as a"
| "last_in_slice (_ # as) pa = last_in_slice as pa"

fun find_poolArtifact :: "'b demo_artifact artifact list \<Rightarrow> nat option \<Rightarrow> nat option go" where
  "find_poolArtifact [] pa = Ret pa"
| "find_poolArtifact (Leaf (PoolFactoryArtifact a) # as) pa = find_poolArtifact as a"
| "find_poolArtifact (Leaf (OtherArtifact x) # as) pa = Panic ''interface conversion: interface is not []superwatcher.Artifact''"
| "find_poolArtifact (Bundle xs # as) pa = find_poolArtifact as (last_in_slice xs pa)"

definition handleReorgedPool ::
    "'g uniswapv3PoolFactoryEngine \<Rightarrow> uniswapv3PoolCreated \<Rightarrow> nat option \<Rightarrow> 'g pool_world \<Rightarrow> ((nat option \<times> err) \<times> 'g pool_world) go" where
  "handleReorgedPool e pool poolArtifact w =
     go_bind (if read_map poolArtifact pool w = PoolFactoryStateCreated then revertPoolCreated e pool w else Ret (None, w)) (\<lambda>(er, w1).
       case er of
         Some x \<Rightarrow> Ret ((None, Some (ErrWrap x ''failed to revert poolCreated for pool %s'')), w1)
       | None \<Rightarrow>
           (case poolArtifact of
              None \<Rightarrow> Panic ''assignment to entry in nil map''
            | Some a \<Rightarrow> Ret ((Some a, None), write_map a pool PoolFactoryStateNull w1)))"

fun reorged_events ::
    "eth_conv \<Rightarrow> 'g uniswapv3PoolFactoryEngine \<Rightarrow> (hash \<times> string) list \<Rightarrow> nat option \<Rightarrow> nat option \<Rightarrow> eth_log \<Rightarrow> 'g pool_world \<Rightarrow>
     ((nat option \<times> err) \<times> 'g pool_world) go" where
  "reorged_events V e [] poolArtifact ret log w = Ret ((ret, None), w)"
| "reorged_events V e (ev # evs) poolArtifact ret log w =
     (if pool_event log ev then
        go_bind (mapLogToPoolCreated V (poolFactoryContract e) (snd ev) log) (\<lambda>r.
          case r of
            Inl x \<Rightarrow> Ret ((None, Some (ErrWrap x ''failed to map PoolCreated log to domain struct'')), w)
          | Inr pool \<Rightarrow>
              go_bind (handleReorgedPool e pool poolArtifact w) (\<lambda>((ret1, er), w1).
                case er of
                  Some x \<Rightarrow> Ret ((None, Some (ErrWrap x ''failed to handle reorged PoolCreated'')), w1)
                | None \<Rightarrow> reorged_events V e evs poolArtifact ret1 log w1))
      else reorged_events V e evs poolArtifact ret log w)"

definition pool_handleReorgedLog ::
    "eth_conv \<Rightarrow> 'g uniswapv3PoolFactoryEngine \<Rightarrow> eth_log \<Rightarrow> 'b demo_artifact artifact list \<Rightarrow> 'g pool_world \<Rightarrow>
     ((nat option \<times> err) \<times> 'g pool_world) go" where
  "pool_handleReorgedLog V e log arts w =
     (if log_Topics log = [] then Panic ''index out of range''
      else go_bind (find_poolArtifact arts None) (\<lambda>pa. reorged_events V e (con_Events (poolFactoryContract e)) pa None log w))"

section \<open>Handling blocks (engine_impl.go)\<close>

definition add_artifact :: "hash \<Rightarrow> 'x artifact \<Rightarrow> (hash \<Rightarrow> 'x artifact list) \<Rightarrow> hash \<Rightarrow> 'x artifact list" where
  "add_artifact h a out = out(h := out h @ [a])"

text \<open>The two nested loops visit the logs of the blocks in order.\<close>

fun pool_good_logs ::
    "eth_conv \<Rightarrow> 'g uniswapv3PoolFactoryEngine \<Rightarrow> eth_log list \<Rightarrow> (hash \<Rightarrow> 'b demo_artifact artifact list) \<Rightarrow> 'g pool_world \<Rightarrow>
     (((hash \<Rightarrow> 'b demo_artifact artifact list) \<times> err) \<times> 'g pool_world) go" where
  "pool_good_logs V e [] out w = Ret ((out, None), w)"
| "pool_good_logs V e (log # logs) out w =
     go_bind (pool_handleGoodLog V e log w) (\<lambda>((a, er), w1).
       case er of
         Some x \<Rightarrow> Ret ((\<lambda>_. [], Some (ErrWrap x ''poolfactory.HandleGoodLog failed on log txHash %s'')), w1)
       | None \<Rightarrow> pool_good_logs V e logs (add_artifact (log_BlockHash log) (Leaf (PoolFactoryArtifact a)) out) w1)"

definition pool_HandleGoodBlocks ::
    "eth_conv \<Rightarrow> 'g uniswapv3PoolFactoryEngine \<Rightarrow> block list \<Rightarrow> 'b demo_artifact artifact list \<Rightarrow> 'g pool_world \<Rightarrow>
     (((hash \<Rightarrow> 'b demo_artifact artifact list) \<times> err) \<times> 'g pool_world) go" where
  "pool_HandleGoodBlocks V e blocks arts w = pool_good_logs V e (concat (map Logs blocks)) (\<lambda>_. []) w"

fun pool_reorged_logs ::
    "eth_conv \<Rightarrow> 'g uniswapv3PoolFactoryEngine \<Rightarrow> 'b demo_artifact artifact list \<Rightarrow> eth_log list \<Rightarrow>
     (hash \<Rightarrow> 'b demo_artifact artifact list) \<Rightarrow> 'g pool_world \<Rightarrow> (((hash \<Rightarrow> 'b demo_artifact artifact list) \<times> err) \<times> 'g pool_world) go" where
  "pool_reorged_logs V e arts [] out w = Ret ((out, None), w)"
| "pool_reorged_logs V e arts (log # logs) out w =
     go_bind (pool_handleReorgedLog V e log arts w) (\<lambda>((a, er), w1).
       case er of
         Some x \<Rightarrow> Ret ((\<lambda>_. [], Some (ErrWrap x ''uniswapv3PoolFactoryEngine.handleReorgedLog failed'')), w1)
       | None \<Rightarrow> pool_reorged_logs V e arts logs (add_artifact (log_BlockHash log) (Leaf (PoolFactoryArtifact a)) out) w1)"

definition pool_HandleReorgedBlocks ::
    "eth_conv \<Rightarrow> 'g uniswapv3PoolFactoryEngine \<Rightarrow> block list \<Rightarrow> 'b demo_artifact artifact list \<Rightarrow> 'g pool_world \<Rightarrow>
     (((hash \<Rightarrow> 'b demo_artifact artifact list) \<times> err) \<times> 'g pool_world) go" where
  "pool_HandleReorgedBlocks V e blocks arts w = pool_reorged_logs V e arts (concat (map Logs blocks)) (\<lambda>_. []) w"

definition pool_HandleEmitterError :: "go_error \<Rightarrow> 'w \<Rightarrow> (err \<times> 'w) go" where
  "pool_HandleEmitterError x w = Ret (Some x, w)"

definition pool_service :: "eth_conv \<Rightarrow> 'g uniswapv3PoolFactoryEngine \<Rightarrow> ('b demo_artifact, 'g pool_world) service_engine" where
  "pool_service V e = \<lparr>HandleGoodBlocks = pool_HandleGoodBlocks V e, HandleReorgedBlocks = pool_HandleReorgedBlocks V e,
     svc_HandleEmitterError = pool_HandleEmitterError\<rparr>"

section \<open>Undoing a block\<close>

text \<open>The engine knows one event, and the log creates the pool.\<close>

definition creates :: "eth_conv \<Rightarrow> 'g uniswapv3PoolFactoryEngine \<Rightarrow> eth_log \<Rightarrow> uniswapv3PoolCreated \<Rightarrow> bool" where
  "creates V e log pool \<longleftrightarrow> log_Topics log \<noteq> [] \<and>
     (case con_Events (poolFactoryContract e) of
        [ev] \<Rightarrow> pool_event log ev \<and> mapLogToPoolCreated V (poolFactoryContract e) (snd ev) log = Ret (Inr pool)
      | _ \<Rightarrow> False)"

lemma add_artifact_same: "add_artifact h a out h = out h @ [a]"
  by (simp add: add_artifact_def)

text \<open>The engine over any store of pools.\<close>

locale pool_engine_store = entity_store pool_Address "rp_SetPool (pf_dataGateway e)" "rp_DelPool (pf_dataGateway e)" "rp_GetPool (pf_dataGateway e)" read known storable
  for e :: "'g uniswapv3PoolFactoryEngine" and read known storable +
  fixes V :: eth_conv
begin

lemma good_log:
  assumes "creates V e log pool" "rp_SetPool (pf_dataGateway e) pool (pw_db w) = Ret (None, g)"
  shows "pool_handleGoodLog V e log w = Ret ((Some (length (pw_maps w)), None),
    w\<lparr>pw_maps := pw_maps w @ [[(pool, PoolFactoryStateCreated)]], pw_db := g\<rparr>)"
  using assms
  by (auto simp: creates_def pool_handleGoodLog_def handlePoolCreated_def Let_def write_map_def split: list.splits)

lemma good_logs:
  assumes "list_all2 (creates V e) logs ps" "\<forall>l\<in>set logs. log_BlockHash l = h" "set_all ps (pw_db w) = Ret (None, g)"
  shows "\<exists>out'. pool_good_logs V e logs out w = Ret ((out', None),
      w\<lparr>pw_maps := pw_maps w @ map (\<lambda>p. [(p, PoolFactoryStateCreated)]) ps, pw_db := g\<rparr>) \<and>
    out' h = out h @ map (\<lambda>i. Leaf (PoolFactoryArtifact (Some i))) [length (pw_maps w)..<length (pw_maps w) + length ps]"
  using assms
proof (induction logs ps arbitrary: out w rule: list_all2_induct)
  case (Cons log logs p ps)
  obtain g1 where g1: "rp_SetPool (pf_dataGateway e) p (pw_db w) = Ret (None, g1)" "set_all ps g1 = Ret (None, g)"
    using Cons.prems(2) by (auto simp: go_bind_Ret_iff split: if_splits)
  let ?n = "length (pw_maps w)"
  let ?w = "w\<lparr>pw_maps := pw_maps w @ [[(p, PoolFactoryStateCreated)]], pw_db := g1\<rparr>"
  let ?out = "add_artifact h (Leaf (PoolFactoryArtifact (Some ?n))) out"
  have "[?n..<?n + length (p # ps)] = ?n # [Suc ?n..<Suc ?n + length ps]"
    using upt_conv_Cons [of ?n "?n + Suc (length ps)"] by (simp del: upt_Suc)
  then show ?case using Cons.IH [of ?w ?out] Cons.prems(1) g1(2) good_log [OF Cons.hyps(1) g1(1)] by (auto simp: add_artifact_same simp del: upt_Suc)
qed simp

lemma find_last: "find_poolArtifact (map (\<lambda>i. Leaf (PoolFactoryArtifact (Some i))) ns) pa = Ret (if ns = [] then pa else Some (last ns))"
  by (induction ns arbitrary: pa) auto

text \<open>A log whose pool is not the one in the artifact found reverts nothing.\<close>

lemma reorged_other:
  assumes "creates V e log p" "find_poolArtifact arts None = Ret (Some a)" "a < length (pw_maps w)" "map_of (pw_maps w ! a) p = None"
  shows "pool_handleReorgedLog V e log arts w = Ret ((Some a, None), write_map a p PoolFactoryStateNull w)"
  using assms
  by (auto simp: creates_def pool_handleReorgedLog_def handleReorgedPool_def read_map_def PoolFactoryStateNull_def
      PoolFactoryStateCreated_def split: list.splits)

lemma reorged_others:
  assumes "list_all2 (creates V e) logs ps" "find_poolArtifact arts None = Ret (Some a)" "a < length (pw_maps w)"
    "\<forall>p\<in>set ps. map_of (pw_maps w ! a) p = None" "distinct ps" "q \<notin> set ps"
  shows "\<exists>out' w'. pool_reorged_logs V e arts (logs @ rest) out w = pool_reorged_logs V e arts rest out' w' \<and> pw_db w' = pw_db w \<and>
    a < length (pw_maps w') \<and> map_of (pw_maps w' ! a) q = map_of (pw_maps w ! a) q"
  using assms
proof (induction logs ps arbitrary: out w rule: list_all2_induct)
  case (Cons log logs p ps)
  let ?w = "write_map a p PoolFactoryStateNull w"
  have w: "a < length (pw_maps ?w)" "pw_db ?w = pw_db w" "\<And>k. map_of (pw_maps ?w ! a) k = (if k = p then Some PoolFactoryStateNull else map_of (pw_maps w ! a) k)"
    using Cons.prems(2) by (simp_all add: write_map_def update_conv')
  have rest: "\<forall>r\<in>set ps. map_of (pw_maps ?w ! a) r = None" "distinct ps" "q \<notin> set ps" "q \<noteq> p" using Cons.prems w(3) by auto
  from Cons.IH [OF Cons.prems(1) w(1) rest(1-3), where out = "add_artifact (log_BlockHash log) (Leaf (PoolFactoryArtifact (Some a))) out"]
  show ?case using w rest(4) reorged_other [OF Cons.hyps(1) Cons.prems(1,2)] Cons.prems(3) by simp
qed auto

text \<open>The log of the pool in the artifact found reverts it.\<close>

lemma reorged_own:
  assumes "creates V e log p" "find_poolArtifact arts None = Ret (Some a)" "map_of (pw_maps w ! a) p = Some PoolFactoryStateCreated"
    "known (pw_db w) (pool_Address p)"
  shows "\<exists>w'. pool_handleReorgedLog V e log arts w = Ret ((Some a, None), w') \<and>
    (\<exists>er. read (pw_db w') = (read (pw_db w))(pool_Address p := (None, er)))"
  using assms(1-3) del_removes [OF assms(4)]
  by (auto simp: creates_def pool_handleReorgedLog_def handleReorgedPool_def read_map_def revertPoolCreated_def Let_def write_map_def errors_Wrap_def
      split: list.splits)

lemma reorged_block:
  assumes "list_all2 (creates V e) (logs @ [log]) (ps @ [p])" "distinct (ps @ [p])" "find_poolArtifact arts None = Ret (Some a)"
    "a < length (pw_maps w)" "pw_maps w ! a = [(p, PoolFactoryStateCreated)]" "known (pw_db w) (pool_Address p)"
  shows "\<exists>out' w'. pool_reorged_logs V e arts (logs @ [log]) out w = Ret ((out', None), w') \<and>
    (\<exists>er. read (pw_db w') = (read (pw_db w))(pool_Address p := (None, er)))"
proof -
  have c: "list_all2 (creates V e) logs ps" "creates V e log p"
    using assms(1) list_all2_append [of logs ps "creates V e" "[log]" "[p]"] list_all2_lengthD [OF assms(1)] by simp_all
  have fresh: "\<forall>r\<in>set ps. map_of (pw_maps w ! a) r = None" "distinct ps" "p \<notin> set ps" using assms(2,5) by auto
  obtain out1 w1 where w1: "pool_reorged_logs V e arts (logs @ [log]) out w = pool_reorged_logs V e arts [log] out1 w1"
      "pw_db w1 = pw_db w" "map_of (pw_maps w1 ! a) p = Some PoolFactoryStateCreated"
    using reorged_others [OF c(1) assms(3,4) fresh, of "[log]" out] assms(5) by fastforce
  obtain w2 where "pool_handleReorgedLog V e log arts w1 = Ret ((Some a, None), w2)"
      "\<exists>er. read (pw_db w2) = (read (pw_db w1))(pool_Address p := (None, er))"
    using reorged_own [OF c(2) assms(3) w1(3)] assms(6) w1(2) by auto
  then show ?thesis using w1(1,2) by simp
qed

end

text \<open>
  C39. Undoing a block of several pools, over any store of pools. The pools of a block are stored when it is
  good, each with an artifact of its own. When the block is reorged, with those artifacts, the engine looks up
  every pool in the last artifact only: the last pool of the block is deleted, and every other one stays
  in the store although its block is gone.
\<close>

theorem pool_reorg_reverts_last:
  assumes "pool_store (pf_dataGateway e) read known storable" "list_all2 (creates V e) (Logs b) (ps @ [p])"
    "\<forall>l\<in>set (Logs b). log_BlockHash l = Hash b" "distinct (map pool_Address (ps @ [p]))" "list_all storable (ps @ [p])"
  shows "\<exists>out w1 out2 w2. pool_HandleGoodBlocks V e [b] arts w = Ret ((out, None), w1) \<and>
    pool_HandleReorgedBlocks V e [b] (out (Hash b)) w1 = Ret ((out2, None), w2) \<and>
    (\<forall>q\<in>set (ps @ [p]). rp_GetPool (pf_dataGateway e) (pool_Address q) (pw_db w1) = Ret ((Some q, None), pw_db w1)) \<and>
    (\<exists>er. rp_GetPool (pf_dataGateway e) (pool_Address p) (pw_db w2) = Ret ((None, er), pw_db w2)) \<and>
    (\<forall>q\<in>set ps. rp_GetPool (pf_dataGateway e) (pool_Address q) (pw_db w2) = Ret ((Some q, None), pw_db w2))"
proof -
  note env = assms(1) and st = pool_engine_store.intro [OF assms(1)]
  let ?n = "length (pw_maps w)" and ?ns = "[length (pw_maps w)..<length (pw_maps w) + length (ps @ [p])]"
  obtain g where g: "entity_store.set_all (rp_SetPool (pf_dataGateway e)) (ps @ [p]) (pw_db w) = Ret (None, g)"
      "\<forall>q\<in>set (ps @ [p]). read g (pool_Address q) = (Some q, None) \<and> known g (pool_Address q)"
    using entity_store.set_all_stores [OF env assms(5,4), of "pw_db w"] by blast
  let ?w = "w\<lparr>pw_maps := pw_maps w @ map (\<lambda>p. [(p, PoolFactoryStateCreated)]) (ps @ [p]), pw_db := g\<rparr>"
  obtain out where good: "pool_HandleGoodBlocks V e [b] arts w = Ret ((out, None), ?w)"
      "out (Hash b) = map (\<lambda>i. Leaf (PoolFactoryArtifact (Some i))) ?ns"
    using pool_engine_store.good_logs [OF st assms(2,3) g(1), of "\<lambda>_. []"] by (auto simp: pool_HandleGoodBlocks_def)
  have "find_poolArtifact (out (Hash b)) None = Ret (Some (?n + length ps))"
    unfolding good(2) pool_engine_store.find_last [OF st] by simp
  moreover have "distinct (ps @ [p])" using assms(4) unfolding distinct_map by blast
  moreover obtain logs log where logs: "Logs b = logs @ [log]"
    using list_all2_lengthD [OF assms(2)] by (cases "Logs b" rule: rev_cases) auto
  moreover have "pw_maps ?w ! (?n + length ps) = [(p, PoolFactoryStateCreated)]" by (simp add: nth_append)
  ultimately obtain out2 w2 er where re: "pool_HandleReorgedBlocks V e [b] (out (Hash b)) ?w = Ret ((out2, None), w2)"
      "read (pw_db w2) = (read g)(pool_Address p := (None, er))"
    using pool_engine_store.reorged_block [OF st assms(2) [unfolded logs], of "out (Hash b)" "?n + length ps" ?w "\<lambda>_. []"] g(2)
    by (auto simp: pool_HandleReorgedBlocks_def)
  have "pool_Address p \<notin> pool_Address ` set ps" using assms(4) by simp
  then have "\<forall>q\<in>set ps. pool_Address q \<noteq> pool_Address p" by (metis imageI)
  then show ?thesis using good(1) re g(2) by (simp add: entity_store.get_reads [OF env])
qed

text \<open>A contract whose data is the pool's address, and a block with two new pools.\<close>

definition pool_conv :: eth_conv where
  "pool_conv = \<lparr>cv_HexToAddress = (\<lambda>h. word_of_int (uint h)), cv_Big_Uint64 = (\<lambda>h. word_of_int (uint h)),
     cv_address_string = (\<lambda>a. dec_digits (unat a)), cv_hash_string = (\<lambda>h. dec_digits (unat h)),
     cv_parse_hash = (\<lambda>s. case parse_dec 0 s of None \<Rightarrow> 0 | Some n \<Rightarrow> of_nat n)\<rparr>"

definition pool_contract :: contract where
  "pool_contract = \<lparr>con_Address = 8, con_Events = [(80, ''PoolCreated'')],
     con_UnpackIntoMap = (\<lambda>ev data. case data of [] \<Rightarrow> Inl (ErrNew ''abi: attempting to unmarshal an empty string while arguments are expected'')
       | x # _ \<Rightarrow> Inr [(''pool'', AbiAddress (word_of_int (uint x)))])\<rparr>"

definition pool_log :: "8 word \<Rightarrow> eth_log" where
  "pool_log a = \<lparr>log_Address = 8, log_Topics = [80, 11, 12, 13], log_Data = [a], log_BlockNumber = 5, log_TxHash = 1, log_BlockHash = 50\<rparr>"

definition pool_block :: block where
  "pool_block = \<lparr>LogsMigrated = False, Number = 5, Hash = 50, Header = None, Logs = [pool_log 1, pool_log 2]\<rparr>"

definition pool_of :: "address \<Rightarrow> uniswapv3PoolCreated" where
  "pool_of a = \<lparr>pool_Address = a, Token0 = 11, Token1 = 12, Fee = 13, BlockCreated = 5, pool_BlockHash = 50, pool_TxHash = 1\<rparr>"

definition pool_engine :: "mockDataGatewayPoolFactory uniswapv3PoolFactoryEngine" where
  "pool_engine = pool_New pool_contract (mock_repository pool_conv (\<lambda>ks. ks)) 0"

interpretation mpl: address_strings pool_conv
  by unfold_locales (simp add: pool_conv_def dec_digits_inj word_unat_eq_iff)

text \<open>The repository over Redis, with the text of a pool that is its fields in decimal, one after the other.\<close>

definition pool_fields :: "uniswapv3PoolCreated \<Rightarrow> nat list" where
  "pool_fields p = [unat (pool_Address p), unat (Token0 p), unat (Token1 p), unat (Fee p), unat (BlockCreated p), unat (pool_BlockHash p), unat (pool_TxHash p)]"

definition pool_codec :: "uniswapv3PoolCreated json_codec" where
  "pool_codec = \<lparr>js_Marshal = (\<lambda>p. Inr (print_fields (pool_fields p))),
     js_Unmarshal = (\<lambda>s. case map (parse_dec 0) (butlast (split_on (CHR '','') s)) of
        [Some a, Some t0, Some t1, Some f, Some n, Some h, Some tx] \<Rightarrow>
          Inr \<lparr>pool_Address = of_nat a, Token0 = of_nat t0, Token1 = of_nat t1, Fee = of_nat f, BlockCreated = of_nat n, pool_BlockHash = of_nat h, pool_TxHash = of_nat tx\<rparr>
      | _ \<Rightarrow> Inl (ErrNew ''invalid character''))\<rparr>"

lemma pool_codec_storable: "json_storable pool_codec p"
  by (cases p) (simp add: json_storable_def pool_codec_def split_fields pool_fields_def)

interpretation mpr: redis_pools pool_conv list_hashes "\<lambda>r h k. map_of r (h, k)" pool_codec
  by unfold_locales

text \<open>Over Redis a pool that was stored is read back, and one that was deleted is reported as missing.\<close>

lemma redis_pool_roundtrip:
  "\<exists>r'. redis_SetPool pool_conv (NewDataGatewayPoolFactory list_hashes pool_codec) p r = Ret (None, r') \<and>
    redis_GetPool pool_conv (NewDataGatewayPoolFactory list_hashes pool_codec) (pool_Address p) r' = Ret ((Some p, None), r')"
  using mpr.rps.set_stores [OF pool_codec_storable, of p r] mpr.rps.get_reads [of "pool_Address p"]
  by (fastforce simp: redis_pool_repository_def)

theorem pool_reorg_reverts_last_witness:
  "\<exists>out w1 out2 w2. pool_HandleGoodBlocks pool_conv pool_engine [pool_block] [] \<lparr>pw_maps = [], pw_db = NewMockDataGatewayPoolFactory\<rparr> = Ret ((out, None), w1) \<and>
    pool_HandleReorgedBlocks pool_conv pool_engine [pool_block] (out 50 :: unit demo_artifact artifact list) w1 = Ret ((out2, None), w2) \<and>
    (\<exists>er. mock_GetPool pool_conv 2 (pw_db w2) = Ret ((None, er), pw_db w2)) \<and> mock_GetPool pool_conv 1 (pw_db w2) = Ret ((Some (pool_of 1), None), pw_db w2)"
proof -
  have c: "list_all2 (creates pool_conv pool_engine) (Logs pool_block) ([pool_of 1] @ [pool_of 2])"
    by (simp add: pool_block_def creates_def pool_engine_def pool_New_def pool_contract_def pool_log_def pool_event_def mapLogToPoolCreated_def
        UnpackLogDataIntoMap_def parsePoolCreatedUnpackedMap_def ExtractFieldFromUnpacked_def as_address_def pool_conv_def pool_of_def)
  have R: "pf_dataGateway pool_engine = mock_repository pool_conv (\<lambda>ks. ks)" by (simp add: pool_engine_def pool_New_def)
  have st: "pool_store (pf_dataGateway pool_engine) mpl.mock_read mpl.mock_known (\<lambda>_. True)" unfolding R by (rule mpl.mps.entity_store_axioms)
  have h: "\<forall>l\<in>set (Logs pool_block). log_BlockHash l = Hash pool_block" "Hash pool_block = 50" by (simp_all add: pool_block_def pool_log_def)
  have d: "distinct (map pool_Address ([pool_of 1] @ [pool_of 2]))" "list_all (\<lambda>_. True) ([pool_of 1] @ [pool_of 2])" by (simp_all add: pool_of_def)
  have a: "pool_Address (pool_of x) = x" for x by (simp add: pool_of_def)
  from pool_reorg_reverts_last [OF st c h(1) d, of "[] :: unit demo_artifact artifact list" "\<lparr>pw_maps = [], pw_db = NewMockDataGatewayPoolFactory\<rparr>"]
  show ?thesis unfolding h(2) R by (auto simp: a mock_repository_def)
qed

end
