(* ===== verification/Demo_Gateways.thy ===== *)
theory Demo_Gateways
  imports Demo_Pool Mock
begin

text \<open>
  The other data gateways of the demo service: the mock gateway of ENS names and the write log both mocks
  keep (\<open>internal/domain/datagateway\<close>), and the state gateway over Redis
  (\<open>internal/watcherstate\<close>), which is one more interpretation of the contract every state gateway has.
  The Redis client is a third-party package: its laws are the locale \<open>redis\<close>.
\<close>

section \<open>The mock gateway of ENS names (ens_datagateway_mock.go)\<close>

text \<open>\<open>Expires\<close> is the Unix time in seconds.\<close>

record ENS =
  ens_ID :: string
  ens_Name :: string
  TLD :: string
  Owner :: string
  Expires :: int
  ens_TxHash :: string
  ens_BlockHash :: string
  ens_BlockNumber :: u64

definition DomainString :: "ENS \<Rightarrow> string" where
  "DomainString e = TLD e @ ''.'' @ ens_Name e"

record mockDataGatewayENS =
  me_m :: "(string \<times> ENS option) list"
  me_writeLogs :: "string list"

definition NewMockDataGatewayENS :: mockDataGatewayENS where
  "NewMockDataGatewayENS = \<lparr>me_m = [], me_writeLogs = []\<rparr>"

definition mock_SetENS :: "ENS \<Rightarrow> mockDataGatewayENS \<Rightarrow> err \<times> mockDataGatewayENS" where
  "mock_SetENS ens s =
     (let writeLog = write_log ''DEL ID'' (ens_ID ens) (ens_BlockNumber ens) (ens_BlockHash ens)
      in (None, s\<lparr>me_m := AList.update (ens_ID ens) (Some ens) (me_m s), me_writeLogs := me_writeLogs s @ [writeLog]\<rparr>))"

definition mock_GetENS :: "string \<Rightarrow> mockDataGatewayENS \<Rightarrow> ENS option \<times> err" where
  "mock_GetENS ensID s =
     (case map_of (me_m s) ensID of
        Some (Some saved) \<Rightarrow> (Some saved, None)
      | _ \<Rightarrow> (None, Some (ErrWrap ErrRecordNotFound ''ens not found for key %s'')))"

definition mock_GetENSes :: "(string list \<Rightarrow> string list) \<Rightarrow> mockDataGatewayENS \<Rightarrow> ENS list \<times> err" where
  "mock_GetENSes visit s =
     (List.map_filter (\<lambda>k. case map_of (me_m s) k of None \<Rightarrow> None | Some saved \<Rightarrow> saved) (visit (map fst (me_m s))), None)"

definition mock_DelENS :: "ENS \<Rightarrow> mockDataGatewayENS \<Rightarrow> err \<times> mockDataGatewayENS" where
  "mock_DelENS ens s =
     (case map_of (me_m s) (ens_ID ens) of
        None \<Rightarrow> (Some (ErrWrap ErrRecordNotFound ''ens not found for key %s''), s)
      | Some _ \<Rightarrow>
          (let writeLog = write_log ''DEL ID'' (ens_ID ens) (ens_BlockNumber ens) (ens_BlockHash ens)
           in (None, s\<lparr>me_m := AList.update (ens_ID ens) None (me_m s), me_writeLogs := me_writeLogs s @ [writeLog]\<rparr>)))"

section \<open>The write log (debug_datagateway.go)\<close>

text \<open>\<open>strconv.ParseInt(s, 10, 64)\<close>: a syntax or a range error is \<open>None\<close>.\<close>

definition magnitude :: "string \<Rightarrow> nat option" where
  "magnitude s = (if s = [] then None else parse_dec 0 s)"

definition ParseInt :: "string \<Rightarrow> int option" where
  "ParseInt s =
     (case s of
        [] \<Rightarrow> None
      | c # cs \<Rightarrow>
          if c = CHR ''-'' then (case magnitude cs of None \<Rightarrow> None | Some v \<Rightarrow> if v \<le> 2 ^ 63 then Some (- int v) else None)
          else (case magnitude (if c = CHR ''+'' then cs else s) of None \<Rightarrow> None | Some v \<Rightarrow> if v < 2 ^ 63 then Some (int v) else None))"

definition WriteLog_Unmarshal :: "eth_conv \<Rightarrow> string \<Rightarrow> (string \<times> string \<times> u64 \<times> hash) \<times> err" where
  "WriteLog_Unmarshal V s =
     (let splitted = split_on (CHR '' '') s;
          malformed = (\<lambda>msg. (([], [], 0, 0), Some (ErrNew msg)))
      in if length splitted < 7 then malformed ''malformed ensWriteLogs: %s''
         else if splitted ! 0 \<noteq> ''SET'' \<and> splitted ! 0 \<noteq> ''DEL'' then malformed ''malformed ensWriteLogs - unexpected key: %s from %s''
         else if splitted ! 3 \<noteq> ''BLOCK'' then malformed ''malformed ensWriteLogs - missing BLOCK at index 3: %s''
         else if splitted ! 5 \<noteq> ''HASH'' then malformed ''malformed ensWriteLogs - missing HASH at index 5: %s''
         else case ParseInt (splitted ! 4) of
                None \<Rightarrow> malformed ''malformed ensWriteLogs: %s''
              | Some n \<Rightarrow> ((splitted ! 0, splitted ! 2, word_of_int n, cv_parse_hash V (splitted ! 6)), None))"

lemma ParseInt_FormatUint: "ParseInt (FormatUint n) = (if unat n < 2 ^ 63 then Some (int (unat n)) else None)"
proof -
  obtain c cs where s: "FormatUint n = c # cs" by (metis FormatUint_nonempty neq_Nil_conv)
  have "c \<in> set (dec_digits (unat n))" using s by (simp add: FormatUint_def)
  then have "c \<noteq> CHR ''-''" "c \<noteq> CHR ''+''" using digit_special by blast+
  moreover have "magnitude (FormatUint n) = Some (unat n)"
    using parse_dec_digits [of "unat n"] by (simp add: magnitude_def) (simp add: FormatUint_def)
  ultimately show ?thesis using s by (simp add: ParseInt_def)
qed

text \<open>
  The write log is read back as it was written, up to block \<open>2^63 - 1\<close>: the number is printed as an
  unsigned one and parsed as a signed one.
\<close>

lemma WriteLog_roundtrip:
  assumes "cmd = ''SET'' \<or> cmd = ''DEL''" "CHR '' '' \<notin> set what" "CHR '' '' \<notin> set key" "CHR '' '' \<notin> set h"
  shows "WriteLog_Unmarshal V (write_log (cmd @ '' '' @ what) key n h) =
    (if unat n < 2 ^ 63 then ((cmd, key, n, cv_parse_hash V h), None) else (([], [], 0, 0), Some (ErrNew ''malformed ensWriteLogs: %s'')))"
proof -
  have "CHR '' '' \<notin> set cmd" using assms(1) by auto
  moreover have "CHR '' '' \<notin> set (FormatUint n)" using digit_special [of _ "unat n"] by (auto simp: FormatUint_def)
  ultimately have words: "split_on (CHR '' '') (write_log (cmd @ '' '' @ what) key n h) = [cmd, what, key, ''BLOCK'', FormatUint n, ''HASH'', h]"
    using assms(2-4) by (simp add: write_log_def split_append split_no_sep)
  have "word_of_int (int (unat n)) = n" by simp
  then show ?thesis using assms(1) unfolding WriteLog_Unmarshal_def words by (elim disjE) (simp_all add: ParseInt_FormatUint)
qed

text \<open>The mock of ENS names notes a stored name as a deleted one.\<close>

lemma mock_SetENS_noted:
  assumes "CHR '' '' \<notin> set (ens_ID ens)" "CHR '' '' \<notin> set (ens_BlockHash ens)" "unat (ens_BlockNumber ens) < 2 ^ 63"
  shows "WriteLog_Unmarshal V (last (me_writeLogs (snd (mock_SetENS ens s)))) =
    ((''DEL'', ens_ID ens, ens_BlockNumber ens, cv_parse_hash V (ens_BlockHash ens)), None)"
  using WriteLog_roundtrip [of "''DEL''" "''ID''" "ens_ID ens" "ens_BlockHash ens" V "ens_BlockNumber ens"] assms
  by (simp add: mock_SetENS_def Let_def)

section \<open>The state gateway over Redis (watcherstate.go, redis.go)\<close>

text \<open>The two calls the gateway makes; \<open>redis_Nil\<close> is the error of a missing key.\<close>

record 'r redis_client =
  rc_Set :: "string \<Rightarrow> u64 \<Rightarrow> 'r \<Rightarrow> (err \<times> 'r) go"
  rc_Get :: "string \<Rightarrow> 'r \<Rightarrow> ((string \<times> err) \<times> 'r) go"
  redis_Nil :: go_error

definition HandleRedisErr :: "'r redis_client \<Rightarrow> err \<Rightarrow> string \<Rightarrow> string \<Rightarrow> err" where
  "HandleRedisErr c er action key =
     (case er of
        None \<Rightarrow> None
      | Some x \<Rightarrow> Some (ErrWrap (if errors_Is x (redis_Nil c) then WrapErrRecordNotFound ''%s'' else x) ''action: %s''))"

record 'r watcherStateRedisCli =
  keyBase :: string
  keyState :: string
  keyLastBlock :: string
  redisClient :: "'r redis_client"

definition NewRedisWatcherStateDataGateway :: "string \<Rightarrow> 'r redis_client \<Rightarrow> 'r watcherStateRedisCli" where
  "NewRedisWatcherStateDataGateway serviceKey c =
     (let base = ''superwatcher:'' @ serviceKey
      in \<lparr>keyBase = base, keyState = base @ '':state'', keyLastBlock = base @ '':state:lastRecordedBlock'', redisClient = c\<rparr>)"

text \<open>A nil client or an empty key is refused.\<close>

definition NewRedisStateDataGateway :: "string \<Rightarrow> 'r redis_client option \<Rightarrow> go_error + 'r watcherStateRedisCli" where
  "NewRedisStateDataGateway serviceKey c =
     (case c of
        None \<Rightarrow> Inl (ErrNew ''nil redisClient'')
      | Some cl \<Rightarrow> if serviceKey = [] then Inl (ErrNew ''empty serviceName'') else Inr (NewRedisWatcherStateDataGateway serviceKey cl))"

definition redis_SetLastRecordedBlock :: "'r watcherStateRedisCli \<Rightarrow> u64 \<Rightarrow> 'r \<Rightarrow> (err \<times> 'r) go" where
  "redis_SetLastRecordedBlock s number r =
     go_bind (rc_Set (redisClient s) (keyLastBlock s) number r) (\<lambda>(er, r1).
       Ret (HandleRedisErr (redisClient s) er ''set lastRecordedBlock'' (keyLastBlock s), r1))"

definition redis_GetLastRecordedBlock :: "'r watcherStateRedisCli \<Rightarrow> 'r \<Rightarrow> ((u64 \<times> err) \<times> 'r) go" where
  "redis_GetLastRecordedBlock s r =
     go_bind (rc_Get (redisClient s) (keyLastBlock s) r) (\<lambda>((val, er), r1).
       if er \<noteq> None then Ret ((0, HandleRedisErr (redisClient s) er ''get lastRecordedBlock'' (keyLastBlock s)), r1)
       else case ParseUint val of
              None \<Rightarrow> Ret ((0, Some (ErrWrap (ErrNew ''strconv.ParseUint'') ''failed to parse lastRecordedBlock string to uint64: %s'')), r1)
            | Some n \<Rightarrow> Ret ((n, None), r1))"

definition redis_gateway :: "'r watcherStateRedisCli \<Rightarrow> 'r data_gateway" where
  "redis_gateway s = \<lparr>GetLastRecordedBlock = redis_GetLastRecordedBlock s, SetLastRecordedBlock = redis_SetLastRecordedBlock s\<rparr>"

text \<open>What Redis promises: reading changes nothing, a number that was set is read back in decimal.\<close>

locale redis =
  fixes c :: "'r redis_client"
  assumes rc_get_pure: "rc_Get c k r = Ret (x, r') \<Longrightarrow> r' = r"
    and rc_set_get: "rc_Set c k v r = Ret (None, r') \<Longrightarrow> rc_Get c k r' = Ret ((FormatUint v, None), r')"
    and rc_set_returns: "\<exists>er r'. rc_Set c k v r = Ret (er, r')"
begin

definition no_key :: "string \<Rightarrow> 'r \<Rightarrow> bool" where
  "no_key serviceKey r \<longleftrightarrow> rc_Get c (keyLastBlock (NewRedisWatcherStateDataGateway serviceKey c)) r = Ret (([], Some (redis_Nil c)), r)"

lemma redis_client_of: "redisClient (NewRedisWatcherStateDataGateway serviceKey c) = c"
  by (simp add: NewRedisWatcherStateDataGateway_def Let_def)

end

sublocale redis \<subseteq> rg: state_gateway "redis_gateway (NewRedisWatcherStateDataGateway serviceKey c)" "no_key serviceKey"
proof
  fix r assume "no_key serviceKey r"
  then show "\<exists>e. GetLastRecordedBlock (redis_gateway (NewRedisWatcherStateDataGateway serviceKey c)) r = Ret ((0, Some e), r) \<and> errors_Is e ErrRecordNotFound"
    by (simp add: redis_gateway_def redis_GetLastRecordedBlock_def no_key_def redis_client_of HandleRedisErr_def WrapErrRecordNotFound_Is)
next
  fix r x r' assume "GetLastRecordedBlock (redis_gateway (NewRedisWatcherStateDataGateway serviceKey c)) r = Ret (x, r')"
  then show "r' = r"
    by (auto simp: redis_gateway_def redis_GetLastRecordedBlock_def go_bind_Ret_iff redis_client_of dest: rc_get_pure split: if_splits option.splits)
next
  fix n r r' assume "SetLastRecordedBlock (redis_gateway (NewRedisWatcherStateDataGateway serviceKey c)) n r = Ret (None, r')"
  then have "rc_Set c (keyLastBlock (NewRedisWatcherStateDataGateway serviceKey c)) n r = Ret (None, r')"
    by (auto simp: redis_gateway_def redis_SetLastRecordedBlock_def go_bind_Ret_iff redis_client_of HandleRedisErr_def split: option.splits)
  from rc_set_get [OF this]
  show "GetLastRecordedBlock (redis_gateway (NewRedisWatcherStateDataGateway serviceKey c)) r' = Ret ((n, None), r')"
    by (simp add: redis_gateway_def redis_GetLastRecordedBlock_def redis_client_of)
next
  fix n r
  show "\<exists>e r'. SetLastRecordedBlock (redis_gateway (NewRedisWatcherStateDataGateway serviceKey c)) n r = Ret (e, r')"
    using rc_set_returns [of "keyLastBlock (NewRedisWatcherStateDataGateway serviceKey c)" n r]
    by (auto simp: redis_gateway_def redis_SetLastRecordedBlock_def redis_client_of)
qed

text \<open>A client that keeps its keys in a list.\<close>

definition list_redis :: "(string \<times> string) list redis_client" where
  "list_redis = \<lparr>rc_Set = (\<lambda>k v r. Ret (None, (k, FormatUint v) # r)),
     rc_Get = (\<lambda>k r. case map_of r k of None \<Rightarrow> Ret (([], Some (ErrNew ''redis: nil'')), r) | Some v \<Rightarrow> Ret ((v, None), r)),
     redis_Nil = ErrNew ''redis: nil''\<rparr>"

interpretation lrd: redis list_redis
  by unfold_locales (auto simp: list_redis_def split: option.splits)

lemma redis_last_write:
  assumes "lrd.rg.writes key (ns @ [n]) s = Some s'"
  shows "redis_GetLastRecordedBlock (NewRedisWatcherStateDataGateway key list_redis) s' = Ret ((n, None), s')"
  using lrd.rg.last_write [OF assms] by (simp add: redis_gateway_def)

end
