(* ===== verification/Demo_ENS.thy ===== *)
theory Demo_ENS
  imports Demo_Gateways
begin

text \<open>
  The ENS sub-engine of the demo service (\<open>internal/subengines/ensengine\<close>). A registration of a name
  leaves two logs, one of the registrar and one of the controller, and the engine merges them through the
  artifact of the first. An artifact is a struct that is copied, but the map of its events is shared
  by reference, so the world has a heap of such maps. Contracts, \<open>gsl\<close> and \<open>go-ethereum\<close> are
  parameters, as in the theory of the pools.
\<close>

section \<open>Conversions\<close>

text \<open>
  Beside the conversions of the pool engine: \<open>Hash.String\<close> (which is \<open>Hash.Hex\<close>), \<open>Address.String\<close> and
  \<open>gsl.ToLower\<close>. The field \<open>cv_hash_string\<close> is \<open>gsl.StringerToLowerString\<close>, \<open>cv_parse_hash\<close> is
  \<open>common.HexToHash\<close>.
\<close>

record ens_conv = eth_conv +
  cv_Hash_String :: "hash \<Rightarrow> string"
  cv_Address_String :: "address \<Rightarrow> string"
  cv_ToLower :: "string \<Rightarrow> string"

definition as_string :: "abi_value \<Rightarrow> string option" where
  "as_string v = (case v of AbiString s \<Rightarrow> Some s | _ \<Rightarrow> None)"

definition as_bigint :: "abi_value \<Rightarrow> int option" where
  "as_bigint v = (case v of AbiBigInt n \<Rightarrow> Some n | _ \<Rightarrow> None)"

text \<open>\<open>Int64\<close> of a \<open>big.Int\<close> keeps the low 64 bits; \<open>time.Unix(s, 0)\<close> is the time \<open>s\<close>.\<close>

definition big_Int64 :: "int \<Rightarrow> int" where
  "big_Int64 n = sint (word_of_int n :: 64 word)"

section \<open>Artifacts (artifacts.go, errors.go)\<close>

definition ErrLogLen :: go_error where "ErrLogLen = ErrNew ''invalid log topics length''"
definition ErrMapENS :: string where "ErrMapENS = ''error mapping event log to entity.ENS''"

definition eventNameRegistered :: string where "eventNameRegistered = ''NameRegistered''"

type_synonym ENSEvent = string

definition NullEvent :: ENSEvent where "NullEvent = ''NULL''"
definition Revert :: ENSEvent where "Revert = ''REVERT''"
definition RegisteredRegistrar :: ENSEvent where "RegisteredRegistrar = ''RegisteredRegistrar''"
definition RevertRegisterRegistrar :: ENSEvent where "RevertRegisterRegistrar = Revert @ RegisteredRegistrar"
definition RegisteredController :: ENSEvent where "RegisteredController = ''RegisteredController''"
definition RevertRegisterController :: ENSEvent where "RevertRegisterController = Revert @ RegisteredController"

record ENSArtifact =
  ea_ID :: string
  RegisterBlockNumber :: u64
  LastEvent :: ENSEvent
  BlockEvents :: "nat option"
  ea_ENS :: ENS

type_synonym ens_artifact = "ENSArtifact demo_artifact artifact"

abbreviation ENSLeaf :: "ENSArtifact \<Rightarrow> ens_artifact" where
  "ENSLeaf a \<equiv> Leaf (OtherArtifact a)"

definition ens_ForSubEngine :: "ENSArtifact \<Rightarrow> subEngineEnum" where
  "ens_ForSubEngine a = SubEngineENS"

text \<open>The ENS artifacts of a slice are kept, anything else in it is skipped.\<close>

fun collect_slice :: "ens_artifact list \<Rightarrow> ENSArtifact list" where
  "collect_slice [] = []"
| "collect_slice (Leaf (OtherArtifact a) # as) = a # collect_slice as"
| "collect_slice (_ # as) = collect_slice as"

text \<open>A value that is neither an ENS artifact nor a slice panics. No engine makes a nil artifact.\<close>

fun collectArtifactsENS :: "ens_artifact list \<Rightarrow> ENSArtifact list go" where
  "collectArtifactsENS [] = Ret []"
| "collectArtifactsENS (Leaf (OtherArtifact a) # as) = go_bind (collectArtifactsENS as) (\<lambda>r. Ret (a # r))"
| "collectArtifactsENS (Leaf (PoolFactoryArtifact p) # as) = Panic ''interface conversion: interface is not []superwatcher.Artifact''"
| "collectArtifactsENS (Bundle xs # as) = go_bind (collectArtifactsENS as) (\<lambda>r. Ret (collect_slice xs @ r))"

definition is_artifact_of :: "ens_conv \<Rightarrow> eth_log \<Rightarrow> ENSArtifact \<Rightarrow> bool" where
  "is_artifact_of V log a \<longleftrightarrow>
     ens_ID (ea_ENS a) = cv_hash_string V (log_Topics log ! 1) \<or> ens_TxHash (ea_ENS a) = cv_hash_string V (log_TxHash log)"

definition filterRegistrarArtifact :: "ens_conv \<Rightarrow> eth_log \<Rightarrow> ENSArtifact list \<Rightarrow> ENSArtifact go" where
  "filterRegistrarArtifact V log arts =
     (if arts = [] then Panic ''nil artifacts''
      else if length (log_Topics log) < 2 then Panic ''index out of range''
      else case List.find (is_artifact_of V log) arts of
             None \<Rightarrow> Panic ''no such artifact for txHash %s''
           | Some a \<Rightarrow> Ret a)"

definition prevRegistrarArtifact :: "ens_conv \<Rightarrow> eth_log \<Rightarrow> ens_artifact list \<Rightarrow> ENSArtifact option go" where
  "prevRegistrarArtifact V log arts =
     go_bind (collectArtifactsENS arts) (\<lambda>as. go_bind (filterRegistrarArtifact V log as) (\<lambda>a.
       if LastEvent a = NullEvent \<and> cv_parse_hash V (ens_TxHash (ea_ENS a)) = 0 then Ret None else Ret (Some a)))"

section \<open>The engine (engine.go)\<close>

record 'g repositoryENS =
  re_SetENS :: "ENS \<Rightarrow> 'g \<Rightarrow> (err \<times> 'g) go"
  re_GetENS :: "string \<Rightarrow> 'g \<Rightarrow> ((ENS option \<times> err) \<times> 'g) go"
  re_GetENSes :: "'g \<Rightarrow> ((ENS list \<times> err) \<times> 'g) go"
  re_DelENS :: "ENS \<Rightarrow> 'g \<Rightarrow> (err \<times> 'g) go"

definition mock_ens_repository :: "(string list \<Rightarrow> string list) \<Rightarrow> mockDataGatewayENS repositoryENS" where
  "mock_ens_repository visit = \<lparr>re_SetENS = (\<lambda>n g. Ret (mock_SetENS n g)), re_GetENS = (\<lambda>k g. Ret (mock_GetENS k g, g)),
     re_GetENSes = (\<lambda>g. Ret (mock_GetENSes visit g, g)), re_DelENS = (\<lambda>n g. Ret (mock_DelENS n g))\<rparr>"

text \<open>The repository over Redis (ens_datagateway.go): one hash, with the identifier of a name as the field.\<close>

definition EnsRedisKey :: string where "EnsRedisKey = ''demo:ens''"

record 'r redisENS =
  nr_redisCli :: "'r redis_hashes"
  nr_json :: "ENS json_codec"

definition NewEnsDataGateway :: "'r redis_hashes \<Rightarrow> ENS json_codec \<Rightarrow> 'r redisENS" where
  "NewEnsDataGateway redisCli J = \<lparr>nr_redisCli = redisCli, nr_json = J\<rparr>"

definition redis_SetENS :: "'r redisENS \<Rightarrow> ENS \<Rightarrow> 'r \<Rightarrow> (err \<times> 'r) go" where
  "redis_SetENS s ens r =
     (case js_Marshal (nr_json s) ens of
        Inl x \<Rightarrow> Ret (Some (ErrWrap x ''failed to marshal ENS for ensID %s''), r)
      | Inr ensJSON \<Rightarrow>
          go_bind (rh_HSet (nr_redisCli s) EnsRedisKey (ens_ID ens) ensJSON r) (\<lambda>(er, r1).
            Ret (handleRedisErr (rh_Nil (nr_redisCli s)) er ''HSET ens'' (ens_ID ens), r1)))"

definition redis_GetENS :: "'r redisENS \<Rightarrow> string \<Rightarrow> 'r \<Rightarrow> ((ENS option \<times> err) \<times> 'r) go" where
  "redis_GetENS s ensID r =
     go_bind (rh_HGet (nr_redisCli s) EnsRedisKey ensID r) (\<lambda>((stringData, er), r1).
       if er \<noteq> None then Ret ((None, handleRedisErr (rh_Nil (nr_redisCli s)) er ''HGET ens'' ensID), r1)
       else case js_Unmarshal (nr_json s) stringData of
              Inl x \<Rightarrow> Ret ((None, Some (ErrWrap x ''failed to unmarshal for ensID %s'')), r1)
            | Inr ens \<Rightarrow> Ret ((Some ens, None), r1))"

definition redis_GetENSes :: "'r redisENS \<Rightarrow> 'r \<Rightarrow> ((ENS list \<times> err) \<times> 'r) go" where
  "redis_GetENSes s r =
     go_bind (rh_HGetAll (nr_redisCli s) EnsRedisKey r) (\<lambda>((resultMap, er), r1).
       if er \<noteq> None then Ret (([], handleRedisErr (rh_Nil (nr_redisCli s)) er ''HGETALL ens'' ''null''), r1)
       else case unmarshal_all (nr_json s) ''failec to unmarshal for ensID %s'' resultMap of
              Inl x \<Rightarrow> Ret (([], Some x), r1)
            | Inr enses \<Rightarrow> Ret ((enses, None), r1))"

definition redis_DelENS :: "'r redisENS \<Rightarrow> ENS \<Rightarrow> 'r \<Rightarrow> (err \<times> 'r) go" where
  "redis_DelENS s ens r =
     go_bind (rh_HDel (nr_redisCli s) EnsRedisKey (ens_ID ens) r) (\<lambda>(er, r1).
       Ret (if er \<noteq> None then handleRedisErr (rh_Nil (nr_redisCli s)) er ''del RecordedENS'' EnsRedisKey else None, r1))"

definition redis_ens_repository :: "'r redisENS \<Rightarrow> 'r repositoryENS" where
  "redis_ens_repository s = \<lparr>re_SetENS = redis_SetENS s, re_GetENS = redis_GetENS s, re_GetENSes = redis_GetENSes s, re_DelENS = redis_DelENS s\<rparr>"

text \<open>Both repositories are entity stores that take a second deletion.\<close>

definition mock_ens_known :: "mockDataGatewayENS \<Rightarrow> string \<Rightarrow> bool" where
  "mock_ens_known g k \<longleftrightarrow> map_of (me_m g) k \<noteq> None"

interpretation mes: entity_store_again ens_ID "re_SetENS (mock_ens_repository visit)" "re_DelENS (mock_ens_repository visit)"
  "re_GetENS (mock_ens_repository visit)" "\<lambda>g k. mock_GetENS k g" mock_ens_known "\<lambda>_. True"
  by unfold_locales
    (auto simp: mock_ens_repository_def mock_SetENS_def mock_DelENS_def mock_GetENS_def mock_ens_known_def Let_def update_conv' fun_eq_iff)

locale redis_names = redis_hash c hashes for c :: "'r redis_hashes" and hashes +
  fixes J :: "ENS json_codec"
begin

definition names_read :: "'r \<Rightarrow> string \<Rightarrow> ENS option \<times> err" where
  "names_read r k = read_hash J EnsRedisKey ''HGET ens'' ''failed to unmarshal for ensID %s'' k r"

end

sublocale redis_names \<subseteq> rns: entity_store_again ens_ID "re_SetENS (redis_ens_repository (NewEnsDataGateway c J))"
  "re_DelENS (redis_ens_repository (NewEnsDataGateway c J))" "re_GetENS (redis_ens_repository (NewEnsDataGateway c J))" names_read "\<lambda>_ _. True" "json_storable J"
proof -
  let ?R = "redis_ens_repository (NewEnsDataGateway c J)"
  note defs = redis_ens_repository_def NewEnsDataGateway_def
  have get: "re_GetENS ?R k g = Ret (names_read g k, g)" for k g
    by (simp add: defs redis_GetENS_def hget names_read_def read_hash_def split: option.split sum.split)
  have set: "\<exists>g'. re_SetENS ?R x g = Ret (None, g') \<and> names_read g' = (names_read g)(ens_ID x := (Some x, None)) \<and>
      (\<forall>k. True \<or> k = ens_ID x \<longrightarrow> True)" if "json_storable J x" for x g
  proof -
    obtain s g' where "js_Marshal J x = Inr s" "rh_HSet c EnsRedisKey (ens_ID x) s g = Ret (None, g')"
        "\<forall>k. names_read g' k = (if k = ens_ID x then (Some x, None) else names_read g k)"
      using hash_stored [OF \<open>json_storable J x\<close>] unfolding names_read_def by blast
    then show ?thesis by (auto simp: defs redis_SetENS_def handleRedisErr_def fun_eq_iff)
  qed
  have del: "\<exists>g'. re_DelENS ?R x g = Ret (None, g') \<and>
      names_read g' = (names_read g)(ens_ID x := (None, handleRedisErr (rh_Nil c) (Some (rh_Nil c)) ''HGET ens'' (ens_ID x)))" for x g
  proof -
    obtain g' where "rh_HDel c EnsRedisKey (ens_ID x) g = Ret (None, g')"
        "\<forall>k. names_read g' k = (if k = ens_ID x then (None, handleRedisErr (rh_Nil c) (Some (rh_Nil c)) ''HGET ens'' (ens_ID x)) else names_read g k)"
      using hash_deleted unfolding names_read_def by blast
    then show ?thesis by (auto simp: defs redis_DelENS_def fun_eq_iff)
  qed
  show "entity_store_again ens_ID (re_SetENS ?R) (re_DelENS ?R) (re_GetENS ?R) names_read (\<lambda>_ _. True) (json_storable J)"
  proof
    fix x g g' assume "re_DelENS ?R x g = Ret (None, g')"
    then show "\<exists>er. snd (names_read g' (ens_ID x)) = Some er \<and> errors_Is er ErrRecordNotFound"
      using del [of x g] handleRedisErr_Nil by fastforce
  qed (use get set del in blast)+
qed

record 'g ensEngine =
  ensRegistrar :: contract
  ensController :: contract
  ens_dataGateway :: "'g repositoryENS"

definition ens_New :: "contract \<Rightarrow> contract \<Rightarrow> 'g repositoryENS \<Rightarrow> u8 \<Rightarrow> 'g ensEngine" where
  "ens_New registrarContract controllerContract dgwENS logLevel =
     \<lparr>ensRegistrar = registrarContract, ensController = controllerContract, ens_dataGateway = dgwENS\<rparr>"

record 'g ens_world =
  ew_maps :: "(ENSEvent \<times> u64) list list"
  ew_db :: 'g

definition set_event :: "nat \<Rightarrow> ENSEvent \<Rightarrow> u64 \<Rightarrow> 'g ens_world \<Rightarrow> 'g ens_world" where
  "set_event m ev n w = w\<lparr>ew_maps := (ew_maps w)[m := AList.update ev n (ew_maps w ! m)]\<rparr>"

section \<open>From a log to a name (map_log_to_item.go)\<close>

definition unmarshalLogToENS :: "ens_conv \<Rightarrow> 'g ensEngine \<Rightarrow> string \<Rightarrow> eth_log \<Rightarrow> ENS \<Rightarrow> (go_error + ENS) go" where
  "unmarshalLogToENS V e logEvent log ens =
     (if log_Address log = con_Address (ensRegistrar e) then
        if logEvent = eventNameRegistered then
          if length (log_Topics log) < 3 then Ret (Inl (ErrWrap ErrLogLen ''log topics len < 3''))
          else case UnpackLogDataIntoMap (ensRegistrar e) logEvent (log_Data log) of
                 Inl x \<Rightarrow> Ret (Inl (ErrWrap x ErrMapENS))
               | Inr unpacked \<Rightarrow>
                   (case ExtractFieldFromUnpacked as_bigint unpacked ''expires'' of
                      Inl x \<Rightarrow> Ret (Inl (ErrWrap x ErrMapENS))
                    | Inr expire \<Rightarrow>
                        Ret (Inr (ens\<lparr>ens_ID := cv_ToLower V (cv_Hash_String V (log_Topics log ! 1)),
                          Owner := cv_ToLower V (cv_Address_String V (cv_HexToAddress V (log_Topics log ! 2))),
                          Expires := big_Int64 expire\<rparr>)))
        else Ret (Inr ens)
      else if log_Address log = con_Address (ensController e) then
        if logEvent = eventNameRegistered then
          case UnpackLogDataIntoMap (ensController e) logEvent (log_Data log) of
            Inl x \<Rightarrow> Ret (Inl (ErrWrap x ErrMapENS))
          | Inr unpacked \<Rightarrow>
              (case ExtractFieldFromUnpacked as_string unpacked ''name'' of
                 Inl x \<Rightarrow> Ret (Inl (ErrWrap x ErrMapENS))
               | Inr name \<Rightarrow>
                   (case ExtractFieldFromUnpacked as_bigint unpacked ''expires'' of
                      Inl x \<Rightarrow> Ret (Inl (ErrWrap x ErrMapENS))
                    | Inr expire \<Rightarrow>
                        if length (log_Topics log) < 3 then Panic ''index out of range''
                        else Ret (Inr (ens\<lparr>ens_Name := cv_ToLower V name,
                               Owner := cv_ToLower V (cv_Address_String V (cv_HexToAddress V (log_Topics log ! 2))),
                               Expires := big_Int64 expire\<rparr>))))
        else Ret (Inr ens)
      else Ret (Inr ens))"

section \<open>Good logs (process_forward.go)\<close>

text \<open>The zero time is the first of January of the year 1. A new name starts with what the log says of its block.\<close>

definition zero_ENS :: ENS where
  "zero_ENS = \<lparr>ens_ID = [], ens_Name = [], TLD = [], Owner = [], Expires = - 62135596800, ens_TxHash = [], ens_BlockHash = [], ens_BlockNumber = 0\<rparr>"

definition name_of_log :: "ens_conv \<Rightarrow> eth_log \<Rightarrow> ENS" where
  "name_of_log V log = zero_ENS\<lparr>ens_TxHash := cv_hash_string V (log_TxHash log), ens_BlockHash := cv_hash_string V (log_BlockHash log),
     ens_BlockNumber := log_BlockNumber log\<rparr>"

definition handleNameRegisteredRegistrar ::
    "ens_conv \<Rightarrow> 'g ensEngine \<Rightarrow> eth_log \<Rightarrow> string \<Rightarrow> ENSArtifact option \<Rightarrow> 'g ens_world \<Rightarrow> ((go_error + ENSArtifact) \<times> 'g ens_world) go" where
  "handleNameRegisteredRegistrar V e log logEvent prevArtifact w =
     (if length (log_Topics log) < 2 then Panic ''bad log with < 2 topics''
      else
        let name = name_of_log V log
        in go_bind (if logEvent = eventNameRegistered then unmarshalLogToENS V e logEvent log name else Ret (Inr name)) (\<lambda>r.
             case r of
               Inl x \<Rightarrow> Ret (Inl (ErrWrap x ''failed to unmarshal ENS registrar log to entity.ENS''), w)
             | Inr name' \<Rightarrow>
                 Ret (Inr \<lparr>ea_ID = ens_ID name', RegisterBlockNumber = log_BlockNumber log, LastEvent = RegisteredRegistrar,
                        BlockEvents = Some (length (ew_maps w)), ea_ENS = name'\<rparr>,
                      w\<lparr>ew_maps := ew_maps w @ [[(RegisteredRegistrar, log_BlockNumber log)]]\<rparr>)))"

text \<open>A nil map of events is replaced by a new one.\<close>

definition ensure_events :: "ENSArtifact \<Rightarrow> 'g ens_world \<Rightarrow> nat \<times> 'g ens_world" where
  "ensure_events a w =
     (case BlockEvents a of Some m \<Rightarrow> (m, w) | None \<Rightarrow> (length (ew_maps w), w\<lparr>ew_maps := ew_maps w @ [[]]\<rparr>))"

definition handleNameRegisteredController ::
    "ens_conv \<Rightarrow> 'g ensEngine \<Rightarrow> eth_log \<Rightarrow> string \<Rightarrow> ENSArtifact option \<Rightarrow> 'g ens_world \<Rightarrow> ((go_error + ENSArtifact) \<times> 'g ens_world) go" where
  "handleNameRegisteredController V e log logEvent prevArtifact w =
     (case prevArtifact of
        None \<Rightarrow> Panic ''handleNameRegisteredController: got nil prevArtifact''
      | Some a \<Rightarrow>
          let (m, w1) = ensure_events a w; a1 = a\<lparr>BlockEvents := Some m\<rparr>
          in if cv_parse_hash V (ens_BlockHash (ea_ENS a)) \<noteq> log_BlockHash log
             then Panic ''controller prevArtifact from registrar has different blockHash: %s vs %s''
             else if cv_parse_hash V (ens_TxHash (ea_ENS a)) \<noteq> log_TxHash log
             then Panic ''controller prevArtifact from registrar has different txHash: %s vs %s''
             else if logEvent = eventNameRegistered then
               if length (log_Topics log) < 3 then Panic ''bad log with < 3 topics - should not happen''
               else go_bind (unmarshalLogToENS V e logEvent log (ea_ENS a)) (\<lambda>r.
                 case r of
                   Inl x \<Rightarrow> Ret (Inl (ErrWrap x ''failed to unmarshal ENS Controller log to entity.ENS''), w1)
                 | Inr name \<Rightarrow>
                     Ret (Inr (a1\<lparr>ea_ENS := name, RegisterBlockNumber := log_BlockNumber log, LastEvent := RegisteredController\<rparr>),
                          set_event m RegisteredController (log_BlockNumber log) w1))
             else Ret (Inr a1, w1))"

section \<open>Reorged logs (process_backward.go)\<close>

text \<open>A write to a nil map panics.\<close>

definition revertNameRegisteredRegistrar ::
    "ens_conv \<Rightarrow> 'g ensEngine \<Rightarrow> eth_log \<Rightarrow> string \<Rightarrow> ENSArtifact option \<Rightarrow> 'g ens_world \<Rightarrow> ((go_error + ENSArtifact) \<times> 'g ens_world) go" where
  "revertNameRegisteredRegistrar V e log logEvent prevArtifact w =
     (if length (log_Topics log) < 2 then Panic ''bad log with < 2 topics''
      else case prevArtifact of
        None \<Rightarrow> Panic ''nil prevArtifact''
      | Some a \<Rightarrow>
          go_bind
            (if logEvent = eventNameRegistered then
               if cv_Hash_String V (log_Topics log ! 1) \<noteq> ens_ID (ea_ENS a) then Panic ''prevArtifact ENS ID != log ENS ID''
               else if length (log_Topics log) < 3 then Panic ''index out of range''
               else Ret ((ea_ENS a)\<lparr>Owner := cv_ToLower V (cv_Hash_String V (log_Topics log ! 2))\<rparr>)
             else Ret (ea_ENS a))
            (\<lambda>name.
               case BlockEvents a of
                 None \<Rightarrow> Panic ''assignment to entry in nil map''
               | Some m \<Rightarrow>
                   Ret (Inr (a\<lparr>ea_ENS := name, LastEvent := RevertRegisterRegistrar\<rparr>),
                        set_event m RevertRegisterController (log_BlockNumber log) w)))"

definition revertNameRegisteredController ::
    "ens_conv \<Rightarrow> 'g ensEngine \<Rightarrow> eth_log \<Rightarrow> string \<Rightarrow> ENSArtifact option \<Rightarrow> 'g ens_world \<Rightarrow> ((go_error + ENSArtifact) \<times> 'g ens_world) go" where
  "revertNameRegisteredController V e log logEvent prevArtifact w =
     (case prevArtifact of
        None \<Rightarrow> Panic ''handleNameRegisteredController: got nil prevArtifact''
      | Some a \<Rightarrow>
          if logEvent = eventNameRegistered then
            if length (log_Topics log) < 3 then Panic ''bad log with < 3 topics - should not happen''
            else case UnpackLogDataIntoMap (ensController e) logEvent (log_Data log) of
                   Inl x \<Rightarrow> Ret (Inl x, w)
                 | Inr unpacked \<Rightarrow>
                     (case ExtractFieldFromUnpacked as_string unpacked ''name'' of
                        Inl x \<Rightarrow> Ret (Inl x, w)
                      | Inr domainName \<Rightarrow>
                          (case ExtractFieldFromUnpacked as_bigint unpacked ''expires'' of
                             Inl x \<Rightarrow> Ret (Inl x, w)
                           | Inr expire \<Rightarrow>
                               (case BlockEvents a of
                                  None \<Rightarrow> Panic ''assignment to entry in nil map''
                                | Some m \<Rightarrow>
                                    Ret (Inr (a\<lparr>ea_ENS := (ea_ENS a)\<lparr>ens_Name := domainName, Expires := big_Int64 expire\<rparr>,
                                           RegisterBlockNumber := log_BlockNumber log, LastEvent := RegisteredController\<rparr>),
                                         set_event m RegisteredController (log_BlockNumber log) w))))
          else Ret (Inr a, w))"

section \<open>Handling blocks (engine_impl.go)\<close>

text \<open>Whether the log is a registration: an event of the contract with the log's topic and that name.\<close>

definition registered_event :: "contract \<Rightarrow> eth_log \<Rightarrow> bool" where
  "registered_event c log \<longleftrightarrow> list_ex (\<lambda>(i, name). hd (log_Topics log) = i \<and> name = eventNameRegistered) (con_Events c)"

definition zero_artifact :: ENSArtifact where
  "zero_artifact = \<lparr>ea_ID = [], RegisterBlockNumber = 0, LastEvent = [], BlockEvents = None, ea_ENS = zero_ENS\<rparr>"

text \<open>The event and its handler: which contract, and the artifact the handler is given.\<close>

datatype ens_handler = FromRegistrar | FromController "ENSArtifact option"

definition ens_find_handler :: "ens_conv \<Rightarrow> 'g ensEngine \<Rightarrow> eth_log \<Rightarrow> ens_artifact list \<Rightarrow> ens_handler option go" where
  "ens_find_handler V e log arts =
     (if log_Topics log = [] then Panic ''index out of range''
      else if log_Address log = con_Address (ensRegistrar e) then
        Ret (if registered_event (ensRegistrar e) log then Some FromRegistrar else None)
      else if log_Address log = con_Address (ensController e) then
        (if registered_event (ensController e) log then
           go_bind (prevRegistrarArtifact V log arts) (\<lambda>prev.
             if prev = None then Panic ''nil prevArtifact'' else Ret (Some (FromController prev)))
         else Ret None)
      else Panic ''ensEngine.handleGoodLog: found unexpected contract address: '')"

definition ens_run_handler ::
    "ens_conv \<Rightarrow> 'g ensEngine \<Rightarrow> eth_log \<Rightarrow> ens_handler \<Rightarrow> 'g ens_world \<Rightarrow> ((go_error + ENSArtifact) \<times> 'g ens_world) go" where
  "ens_run_handler V e log h w =
     (case h of
        FromRegistrar \<Rightarrow> handleNameRegisteredRegistrar V e log eventNameRegistered None w
      | FromController prev \<Rightarrow> handleNameRegisteredController V e log eventNameRegistered prev w)"

definition ens_HandleGoodLog ::
    "ens_conv \<Rightarrow> 'g ensEngine \<Rightarrow> eth_log \<Rightarrow> ens_artifact list \<Rightarrow> 'g ens_world \<Rightarrow> ((ENSArtifact \<times> err) \<times> 'g ens_world) go" where
  "ens_HandleGoodLog V e log arts w =
     (let artifact = zero_artifact\<lparr>RegisterBlockNumber := log_BlockNumber log\<rparr>
      in go_bind (ens_find_handler V e log arts) (\<lambda>handler.
           case handler of
             None \<Rightarrow> Ret ((artifact, Some ErrNoNeedHandle), w)
           | Some h \<Rightarrow>
               go_bind (ens_run_handler V e log h w) (\<lambda>(r, w1).
                 case r of
                   Inl x \<Rightarrow> Ret ((artifact, Some (ErrWrap x ''failed to create new name from log (event %s)'')), w1)
                 | Inr a \<Rightarrow>
                     go_bind (re_SetENS (ens_dataGateway e) (ea_ENS a) (ew_db w1)) (\<lambda>(er, g).
                       Ret ((a, errors_Wrap er ''Save ENS failed on log txHash %s''), w1\<lparr>ew_db := g\<rparr>)))))"

text \<open>The nested loops visit the logs of the blocks in order; the artifacts grow as they go.\<close>

fun ens_good_logs ::
    "ens_conv \<Rightarrow> 'g ensEngine \<Rightarrow> eth_log list \<Rightarrow> ens_artifact list \<Rightarrow> (hash \<Rightarrow> ens_artifact list) \<Rightarrow> 'g ens_world \<Rightarrow>
     (((hash \<Rightarrow> ens_artifact list) \<times> err) \<times> 'g ens_world) go" where
  "ens_good_logs V e [] arts out w = Ret ((out, None), w)"
| "ens_good_logs V e (log # logs) arts out w =
     go_bind (ens_HandleGoodLog V e log arts w) (\<lambda>((a, er), w1).
       case er of
         Some x \<Rightarrow>
           if errors_Is x ErrNoNeedHandle then ens_good_logs V e logs arts out w1
           else Ret ((\<lambda>_. [], Some (ErrWrap x ''HandleGoodLog failed on log txHash %s'')), w1)
       | None \<Rightarrow> ens_good_logs V e logs (arts @ [ENSLeaf a]) (add_artifact (log_BlockHash log) (ENSLeaf a) out) w1)"

definition ens_HandleGoodBlocks ::
    "ens_conv \<Rightarrow> 'g ensEngine \<Rightarrow> block list \<Rightarrow> ens_artifact list \<Rightarrow> 'g ens_world \<Rightarrow>
     (((hash \<Rightarrow> ens_artifact list) \<times> err) \<times> 'g ens_world) go" where
  "ens_HandleGoodBlocks V e blocks arts w = ens_good_logs V e (concat (map Logs blocks)) arts (\<lambda>_. []) w"

definition ens_handleReorgedLog ::
    "ens_conv \<Rightarrow> 'g ensEngine \<Rightarrow> eth_log \<Rightarrow> ens_artifact list \<Rightarrow> 'g ens_world \<Rightarrow> ((ENSArtifact \<times> err) \<times> 'g ens_world) go" where
  "ens_handleReorgedLog V e log arts w =
     go_bind (prevRegistrarArtifact V log arts) (\<lambda>prev.
       let revert = (\<lambda>handler. go_bind (handler V e log eventNameRegistered prev w) (\<lambda>(r, w1).
             case r of
               Inl x \<Rightarrow> Ret ((zero_artifact, Some (ErrWrap x ''failed to create new name from log'')), w1)
             | Inr a \<Rightarrow> Ret ((a, None), w1)))
       in if prev = None then Panic ''nil prevArtifact''
          else if log_Topics log = [] then Panic ''index out of range''
          else if log_Address log = con_Address (ensRegistrar e) \<and> registered_event (ensRegistrar e) log
          then revert revertNameRegisteredRegistrar
          else if log_Address log \<noteq> con_Address (ensRegistrar e) \<and> log_Address log = con_Address (ensController e) \<and>
            registered_event (ensController e) log
          then revert revertNameRegisteredController
          else Ret ((zero_artifact, Some (ErrNew ''event topic %s not found'')), w))"

fun ens_reorged_logs ::
    "ens_conv \<Rightarrow> 'g ensEngine \<Rightarrow> ens_artifact list \<Rightarrow> eth_log list \<Rightarrow> (hash \<Rightarrow> ens_artifact list) \<Rightarrow> 'g ens_world \<Rightarrow>
     (((hash \<Rightarrow> ens_artifact list) \<times> err) \<times> 'g ens_world) go" where
  "ens_reorged_logs V e arts [] out w = Ret ((out, None), w)"
| "ens_reorged_logs V e arts (log # logs) out w =
     go_bind (ens_handleReorgedLog V e log arts w) (\<lambda>((a, er), w1).
       case er of
         Some x \<Rightarrow> Ret ((\<lambda>_. [], Some (ErrWrap x ''ensEngine.handleReorgedLog failed'')), w1)
       | None \<Rightarrow>
           go_bind (re_DelENS (ens_dataGateway e) (ea_ENS a) (ew_db w1)) (\<lambda>(er1, g).
             case er1 of
               Some x \<Rightarrow> Ret ((\<lambda>_. [], Some (ErrWrap x ''Remove ENS failed on log txHash %s'')), w1\<lparr>ew_db := g\<rparr>)
             | None \<Rightarrow> ens_reorged_logs V e arts logs (add_artifact (log_BlockHash log) (ENSLeaf a) out) (w1\<lparr>ew_db := g\<rparr>)))"

definition ens_HandleReorgedBlocks ::
    "ens_conv \<Rightarrow> 'g ensEngine \<Rightarrow> block list \<Rightarrow> ens_artifact list \<Rightarrow> 'g ens_world \<Rightarrow>
     (((hash \<Rightarrow> ens_artifact list) \<times> err) \<times> 'g ens_world) go" where
  "ens_HandleReorgedBlocks V e blocks arts w = ens_reorged_logs V e arts (concat (map Logs blocks)) (\<lambda>_. []) w"

definition ens_HandleEmitterError :: "go_error \<Rightarrow> 'w \<Rightarrow> (err \<times> 'w) go" where
  "ens_HandleEmitterError x w = Ret (Some x, w)"

definition ens_service :: "ens_conv \<Rightarrow> 'g ensEngine \<Rightarrow> (ENSArtifact demo_artifact, 'g ens_world) service_engine" where
  "ens_service V e = \<lparr>HandleGoodBlocks = ens_HandleGoodBlocks V e, HandleReorgedBlocks = ens_HandleReorgedBlocks V e,
     svc_HandleEmitterError = ens_HandleEmitterError\<rparr>"

end
