(* ===== verification/Demo_ENS_Theorems.thy ===== *)
theory Demo_ENS_Theorems
  imports Demo_ENS
begin

text \<open>
  What the ENS sub-engine does with the logs of a block and how it undoes them, over any data gateway that is an
  entity store: the locale \<open>ens_store\<close>.
\<close>

section \<open>Registrations\<close>

text \<open>What the conversions promise: hashes print in lower case, and a printed hash is read back.\<close>

locale eth_strings =
  fixes V :: ens_conv
  assumes hash_lower: "cv_ToLower V (cv_Hash_String V h) = cv_hash_string V h"
    and hash_prints_lower: "cv_Hash_String V h = cv_hash_string V h"
    and hash_parse: "cv_parse_hash V (cv_hash_string V h) = h"
begin

lemma hash_string_inj [simp]: "cv_hash_string V h = cv_hash_string V h' \<longleftrightarrow> h = h'"
  by (metis hash_parse)

end

text \<open>A name's two logs in block \<open>h\<close>, and the name they register.\<close>

definition registrar_log :: "ens_conv \<Rightarrow> 'g ensEngine \<Rightarrow> hash \<Rightarrow> eth_log \<Rightarrow> ENS \<Rightarrow> bool" where
  "registrar_log V e h log ens \<longleftrightarrow> log_Address log = con_Address (ensRegistrar e) \<and> registered_event (ensRegistrar e) log \<and>
     log_BlockHash log = h \<and> unmarshalLogToENS V e eventNameRegistered log (name_of_log V log) = Ret (Inr ens)"

definition controller_log :: "ens_conv \<Rightarrow> 'g ensEngine \<Rightarrow> hash \<Rightarrow> eth_log \<Rightarrow> ENS \<Rightarrow> ENS \<Rightarrow> bool" where
  "controller_log V e h log ens0 ens \<longleftrightarrow> log_Address log = con_Address (ensController e) \<and> registered_event (ensController e) log \<and>
     log_BlockHash log = h \<and> unmarshalLogToENS V e eventNameRegistered log ens0 = Ret (Inr ens)"

definition registers :: "ens_conv \<Rightarrow> 'g ensEngine \<Rightarrow> hash \<Rightarrow> eth_log \<times> eth_log \<Rightarrow> ENS \<times> ENS \<Rightarrow> bool" where
  "registers V e h ls ns \<longleftrightarrow> con_Address (ensRegistrar e) \<noteq> con_Address (ensController e) \<and>
     registrar_log V e h (fst ls) (fst ns) \<and> controller_log V e h (snd ls) (fst ns) (snd ns) \<and>
     log_TxHash (snd ls) = log_TxHash (fst ls) \<and> log_Topics (snd ls) ! 1 = log_Topics (fst ls) ! 1"

definition pair_logs :: "(eth_log \<times> eth_log) list \<Rightarrow> eth_log list" where
  "pair_logs ps = concat (map (\<lambda>(r, c). [r, c]) ps)"

lemma registrar_logD:
  assumes "registrar_log V e h log ens"
  shows "3 \<le> length (log_Topics log)" "ens_ID ens = cv_ToLower V (cv_Hash_String V (log_Topics log ! 1))"
    "ens_TxHash ens = cv_hash_string V (log_TxHash log)" "ens_BlockHash ens = cv_hash_string V h" "ens_Name ens = []"
  using assms by (auto simp: registrar_log_def unmarshalLogToENS_def name_of_log_def zero_ENS_def split: if_splits sum.splits)

lemma controller_logD:
  assumes "controller_log V e h log ens0 ens" "con_Address (ensRegistrar e) \<noteq> con_Address (ensController e)"
  shows "3 \<le> length (log_Topics log)" "ens_ID ens = ens_ID ens0" "ens_TxHash ens = ens_TxHash ens0" "ens_BlockHash ens = ens_BlockHash ens0"
    "\<exists>ens'. unmarshalLogToENS V e eventNameRegistered log ens1 = Ret (Inr ens') \<and> ens_Name ens' = ens_Name ens \<and> Owner ens' = Owner ens \<and>
       ens_ID ens' = ens_ID ens1 \<and> ens_TxHash ens' = ens_TxHash ens1"
    "\<exists>unpacked domainName expire. UnpackLogDataIntoMap (ensController e) eventNameRegistered (log_Data log) = Inr unpacked \<and>
       ExtractFieldFromUnpacked as_string unpacked ''name'' = Inr domainName \<and> ExtractFieldFromUnpacked as_bigint unpacked ''expires'' = Inr expire"
  using assms by (auto simp: controller_log_def unmarshalLogToENS_def split: if_splits sum.splits)

lemma collect_leaves: "collectArtifactsENS (arts @ map ENSLeaf as) = go_bind (collectArtifactsENS arts) (\<lambda>r. Ret (r @ as))"
proof (induction arts rule: collectArtifactsENS.induct)
  case 1 then show ?case by (induction as) auto
qed (auto simp: go_bind_assoc)

text \<open>An artifact the engine made for a name: with a map of its events, and under the name's identifier and transaction.\<close>

definition artifact_for :: "ENS \<Rightarrow> ENSArtifact \<Rightarrow> bool" where
  "artifact_for n a \<longleftrightarrow> ens_ID (ea_ENS a) = ens_ID n \<and> ens_TxHash (ea_ENS a) = ens_TxHash n \<and> ens_BlockHash (ea_ENS a) = ens_BlockHash n \<and>
     BlockEvents a \<noteq> None \<and> LastEvent a \<noteq> NullEvent"

text \<open>
  The database before a block, after it and after its reorg: the names of the block are stored, then there is no
  record of them, and every other name is read as before the block.
\<close>

definition names_undone :: "'g repositoryENS \<Rightarrow> ENS list \<Rightarrow> 'g \<Rightarrow> 'g \<Rightarrow> 'g \<Rightarrow> bool" where
  "names_undone R ns g g1 g2 \<longleftrightarrow>
     (\<forall>n\<in>set ns. re_GetENS R (ens_ID n) g1 = Ret ((Some n, None), g1)) \<and>
     (\<forall>n\<in>set ns. \<exists>er. re_GetENS R (ens_ID n) g2 = Ret ((None, Some er), g2) \<and> errors_Is er ErrRecordNotFound) \<and>
     (\<forall>k. k \<notin> ens_ID ` set ns \<longrightarrow> (\<exists>x. re_GetENS R k g2 = Ret (x, g2) \<and> re_GetENS R k g = Ret (x, g)))"

text \<open>The engine over any store of names.\<close>

locale ens_store = eth_strings V + entity_store_again ens_ID "re_SetENS (ens_dataGateway e)" "re_DelENS (ens_dataGateway e)"
    "re_GetENS (ens_dataGateway e)" read known storable
  for V and e :: "'g ensEngine" and read known storable +
  assumes contracts: "con_Address (ensRegistrar e) \<noteq> con_Address (ensController e)"
begin

text \<open>The database after a name was stored.\<close>

definition put :: "ENS \<Rightarrow> 'g ens_world \<Rightarrow> 'g ens_world \<Rightarrow> bool" where
  "put n w w' \<longleftrightarrow> read (ew_db w') = (read (ew_db w))(ens_ID n := (Some n, None)) \<and> (\<forall>k. known (ew_db w) k \<or> k = ens_ID n \<longrightarrow> known (ew_db w') k)"

lemma put_again: "put n0 w w1 \<Longrightarrow> put n w1 w2 \<Longrightarrow> ens_ID n0 = ens_ID n \<Longrightarrow> put n w w2"
  by (auto simp: put_def)

lemma set_put:
  assumes "storable n"
  shows "\<exists>g. re_SetENS (ens_dataGateway e) n (ew_db w) = Ret (None, g) \<and> put n w (w1\<lparr>ew_db := g\<rparr>)"
  using set_stores [OF assms, of "ew_db w"] by (auto simp: put_def)

lemmas registrar = registrar_logD [where V = V and e = e]
lemmas controller = controller_logD [where V = V and e = e, OF _ contracts]

lemma prev_found:
  assumes "collectArtifactsENS arts = Ret as" "List.find (is_artifact_of V log) as = Some a" "2 \<le> length (log_Topics log)" "LastEvent a \<noteq> NullEvent"
  shows "prevRegistrarArtifact V log arts = Ret (Some a)"
  using assms by (cases as) (auto simp: prevRegistrarArtifact_def filterRegistrarArtifact_def)

text \<open>A good log of the registrar stores the name with its identifier.\<close>

lemma good_registrar:
  assumes "registrar_log V e h log n" "storable n"
  shows "\<exists>a w'. ens_HandleGoodLog V e log arts w = Ret ((a, None), w') \<and> ea_ENS a = n \<and> artifact_for n a \<and> put n w w'"
proof -
  let ?w = "w\<lparr>ew_maps := ew_maps w @ [[(RegisteredRegistrar, log_BlockNumber log)]]\<rparr>"
  obtain g where "re_SetENS (ens_dataGateway e) n (ew_db w) = Ret (None, g)" "put n w (?w\<lparr>ew_db := g\<rparr>)" using set_put [OF assms(2)] by blast
  moreover have "log_Topics log \<noteq> []" "\<not> length (log_Topics log) < 2" using registrar(1) [OF assms(1)] by auto
  ultimately show ?thesis using assms(1)
    by (auto simp: registrar_log_def ens_HandleGoodLog_def ens_find_handler_def ens_run_handler_def handleNameRegisteredRegistrar_def
        Let_def artifact_for_def RegisteredRegistrar_def NullEvent_def errors_Wrap_def)
qed

text \<open>A good log of the controller completes the name of the artifact found for it.\<close>

lemma good_controller:
  assumes "controller_log V e h log n0 n" "prevRegistrarArtifact V log arts = Ret (Some a0)" "artifact_for n0 a0"
    "ens_BlockHash n0 = cv_hash_string V h" "ens_TxHash n0 = cv_hash_string V (log_TxHash log)"
    "unmarshalLogToENS V e eventNameRegistered log (ea_ENS a0) = Ret (Inr n')" "storable n'"
  shows "\<exists>a w'. ens_HandleGoodLog V e log arts w = Ret ((a, None), w') \<and> ea_ENS a = n' \<and> artifact_for n0 a \<and> put n' w w'"
proof -
  have ids: "ens_ID n' = ens_ID n0" "ens_TxHash n' = ens_TxHash n0" "ens_BlockHash n' = ens_BlockHash n0"
    using assms(1,3,6) controller(2-4) [of h log "ea_ENS a0" n'] by (auto simp: controller_log_def artifact_for_def)
  have "log_Topics log \<noteq> []" "\<not> length (log_Topics log) < 3" "log_BlockHash log = h"
    using controller(1) [OF assms(1)] assms(1) by (auto simp: controller_log_def)
  moreover obtain m where m: "BlockEvents a0 = Some m" "ens_BlockHash (ea_ENS a0) = cv_hash_string V h"
      "ens_TxHash (ea_ENS a0) = cv_hash_string V (log_TxHash log)"
    using assms(3-5) by (auto simp: artifact_for_def)
  moreover obtain g where "re_SetENS (ens_dataGateway e) n' (ew_db w) = Ret (None, g)"
      "put n' w ((set_event m RegisteredController (log_BlockNumber log) w)\<lparr>ew_db := g\<rparr>)"
    using set_put [OF assms(7)] by blast
  ultimately show ?thesis using assms(1,2,6) ids contracts
    by (auto simp: controller_log_def ens_HandleGoodLog_def ens_find_handler_def ens_run_handler_def handleNameRegisteredController_def
        ensure_events_def hash_parse Let_def artifact_for_def RegisteredController_def NullEvent_def errors_Wrap_def set_event_def)
qed

lemma find_snoc: "\<forall>a\<in>set as. \<not> P a \<Longrightarrow> P x \<Longrightarrow> List.find P (as @ [x]) = Some x"
  by (induction as) auto

lemma registers_facts:
  assumes "registers V e h ls ns"
  shows "registrar_log V e h (fst ls) (fst ns)" "controller_log V e h (snd ls) (fst ns) (snd ns)" "ens_ID (fst ns) = ens_ID (snd ns)"
    "ens_TxHash (fst ns) = ens_TxHash (snd ns)" "ens_BlockHash (snd ns) = cv_hash_string V h"
    "ens_ID (snd ns) = cv_hash_string V (log_Topics (fst ls) ! 1)" "ens_ID (snd ns) = cv_hash_string V (log_Topics (snd ls) ! 1)"
    "ens_TxHash (snd ns) = cv_hash_string V (log_TxHash (fst ls))" "ens_TxHash (snd ns) = cv_hash_string V (log_TxHash (snd ls))"
    "log_BlockHash (fst ls) = h" "log_BlockHash (snd ls) = h"
proof -
  show r: "registrar_log V e h (fst ls) (fst ns)" and c: "controller_log V e h (snd ls) (fst ns) (snd ns)" using assms by (auto simp: registers_def)
  show "ens_ID (fst ns) = ens_ID (snd ns)" "ens_TxHash (fst ns) = ens_TxHash (snd ns)" "ens_BlockHash (snd ns) = cv_hash_string V h"
    "ens_ID (snd ns) = cv_hash_string V (log_Topics (fst ls) ! 1)" "ens_ID (snd ns) = cv_hash_string V (log_Topics (snd ls) ! 1)"
    "ens_TxHash (snd ns) = cv_hash_string V (log_TxHash (fst ls))" "ens_TxHash (snd ns) = cv_hash_string V (log_TxHash (snd ls))"
    using registrar(2-4) [OF r] controller(2-4) [OF c] assms by (auto simp: registers_def hash_lower)
  show "log_BlockHash (fst ls) = h" "log_BlockHash (snd ls) = h" using r c by (auto simp: registrar_log_def controller_log_def)
qed

lemma good_pair:
  assumes "registers V e h (r, c) (n0, n)" "collectArtifactsENS arts = Ret as"
    "\<forall>a\<in>set as. ens_ID (ea_ENS a) \<noteq> ens_ID n \<and> ens_TxHash (ea_ENS a) \<noteq> ens_TxHash n" "storable n0" "storable n"
  shows "\<exists>a0 a1 w'. ens_good_logs V e (r # c # logs) arts out w =
      ens_good_logs V e logs (arts @ map ENSLeaf [a0, a1]) (out(h := out h @ map ENSLeaf [a0, a1])) w' \<and>
    artifact_for n a0 \<and> artifact_for n a1 \<and> put n w w'"
proof -
  note f = registers_facts [OF assms(1), simplified]
  obtain a0 w1 where a0: "ens_HandleGoodLog V e r arts w = Ret ((a0, None), w1)" "ea_ENS a0 = n0" "artifact_for n0 a0"
      "put n0 w w1"
    using good_registrar [OF f(1) assms(4), of arts w] by auto
  have "List.find (is_artifact_of V c) (as @ [a0]) = Some a0"
    by (rule find_snoc) (use assms(3) a0(2) f in \<open>auto simp: is_artifact_of_def\<close>)
  moreover have "collectArtifactsENS (arts @ [ENSLeaf a0]) = Ret (as @ [a0])" using collect_leaves [of arts "[a0]"] assms(2) by simp
  moreover have "2 \<le> length (log_Topics c)" "LastEvent a0 \<noteq> NullEvent" using controller(1) [OF f(2)] a0(3) by (auto simp: artifact_for_def)
  ultimately have prev: "prevRegistrarArtifact V c (arts @ [ENSLeaf a0]) = Ret (Some a0)" using prev_found by blast
  have bh: "ens_BlockHash n0 = cv_hash_string V h" "ens_TxHash n0 = cv_hash_string V (log_TxHash c)" using registrar(4) [OF f(1)] f(4,9) by simp_all
  obtain a1 w2 where "ens_HandleGoodLog V e c (arts @ [ENSLeaf a0]) w1 = Ret ((a1, None), w2)" "artifact_for n0 a1"
      "put n w1 w2"
    using good_controller [OF f(2) prev a0(3) bh _ assms(5), of w1] a0(2) f(2) by (auto simp: controller_log_def)
  moreover from put_again [OF a0(4) this(3) f(3)] have "put n w w2" .
  moreover have "artifact_for n a = artifact_for n0 a" for a
    using f(3-5) registrar(4) [OF f(1)] by (simp add: artifact_for_def)
  ultimately show ?thesis using a0(1,3) f(10,11) by (intro exI [of _ a0] exI [of _ a1] exI [of _ w2]) (simp add: add_artifact_def)
qed

lemma good_pairs:
  assumes "list_all2 (registers V e h) ps ns" "distinct (map (ens_ID \<circ> snd) ns)" "distinct (map (ens_TxHash \<circ> snd) ns)"
    "collectArtifactsENS arts = Ret as"
    "\<forall>a\<in>set as. \<forall>n\<in>set ns. ens_ID (ea_ENS a) \<noteq> ens_ID (snd n) \<and> ens_TxHash (ea_ENS a) \<noteq> ens_TxHash (snd n)"
    "\<forall>n\<in>set ns. storable (fst n) \<and> storable (snd n)"
  shows "\<exists>bs w'. ens_good_logs V e (pair_logs ps) arts out w = Ret ((out(h := out h @ map ENSLeaf bs), None), w') \<and>
    (\<forall>b\<in>set bs. \<exists>n\<in>set ns. artifact_for (snd n) b) \<and> (\<forall>n\<in>set ns. \<exists>b\<in>set bs. artifact_for (snd n) b) \<and>
    (\<forall>n\<in>set ns. read (ew_db w') (ens_ID (snd n)) = (Some (snd n), None) \<and> known (ew_db w') (ens_ID (snd n))) \<and>
    (\<forall>k. k \<notin> (ens_ID \<circ> snd) ` set ns \<longrightarrow> read (ew_db w') k = read (ew_db w) k) \<and> (\<forall>k. known (ew_db w) k \<longrightarrow> known (ew_db w') k)"
  using assms
proof (induction ps ns arbitrary: arts as out w rule: list_all2_induct)
  case Nil
  then show ?case by (auto simp: pair_logs_def intro!: exI [of _ "[]"])
next
  case (Cons l ps n ns)
  obtain r c n0 n1 where [simp]: "l = (r, c)" "n = (n0, n1)" by (cases l, cases n)
  have fresh: "\<forall>a\<in>set as. ens_ID (ea_ENS a) \<noteq> ens_ID n1 \<and> ens_TxHash (ea_ENS a) \<noteq> ens_TxHash n1" using Cons.prems(4) by simp
  have st: "storable n0" "storable n1" and sts: "\<forall>n\<in>set ns. storable (fst n) \<and> storable (snd n)" using Cons.prems(5) by simp_all
  obtain a0 a1 w1 where step: "ens_good_logs V e (r # c # pair_logs ps) arts out w =
        ens_good_logs V e (pair_logs ps) (arts @ map ENSLeaf [a0, a1]) (out(h := out h @ map ENSLeaf [a0, a1])) w1"
      "artifact_for n1 a0" "artifact_for n1 a1" "put n1 w w1"
    using good_pair [OF Cons.hyps(1) [simplified] Cons.prems(3) fresh st, of "pair_logs ps" out w] by blast
  have coll: "collectArtifactsENS (arts @ map ENSLeaf [a0, a1]) = Ret (as @ [a0, a1])" using collect_leaves [of arts "[a0, a1]"] Cons.prems(3) by simp
  have dist: "distinct (map (ens_ID \<circ> snd) ns)" "distinct (map (ens_TxHash \<circ> snd) ns)" using Cons.prems(1,2) by (simp_all add: comp_def)
  have apart: "\<forall>a\<in>set (as @ [a0, a1]). \<forall>n\<in>set ns. ens_ID (ea_ENS a) \<noteq> ens_ID (snd n) \<and> ens_TxHash (ea_ENS a) \<noteq> ens_TxHash (snd n)"
    using Cons.prems step(2,3) by (auto simp: artifact_for_def image_iff)
  let ?out = "out(h := out h @ map ENSLeaf [a0, a1])"
  obtain bs w' where rest: "ens_good_logs V e (pair_logs ps) (arts @ map ENSLeaf [a0, a1]) ?out w1 = Ret ((?out(h := ?out h @ map ENSLeaf bs), None), w')"
      "\<forall>b\<in>set bs. \<exists>n\<in>set ns. artifact_for (snd n) b" "\<forall>n\<in>set ns. \<exists>b\<in>set bs. artifact_for (snd n) b"
      "\<forall>n\<in>set ns. read (ew_db w') (ens_ID (snd n)) = (Some (snd n), None) \<and> known (ew_db w') (ens_ID (snd n))"
      "\<forall>k. k \<notin> (ens_ID \<circ> snd) ` set ns \<longrightarrow> read (ew_db w') k = read (ew_db w1) k" "\<forall>k. known (ew_db w1) k \<longrightarrow> known (ew_db w') k"
    using Cons.IH [OF dist coll apart sts, of ?out w1] by blast
  have "?out(h := ?out h @ map ENSLeaf bs) = out(h := out h @ map ENSLeaf ([a0, a1] @ bs))" by simp
  note rest(1) [unfolded this]
  moreover have "pair_logs (l # ps) = r # c # pair_logs ps" by (simp add: pair_logs_def)
  moreover have "ens_ID n1 \<notin> (ens_ID \<circ> snd) ` set ns" using Cons.prems(1) by (simp add: comp_def)
  ultimately show ?case using step rest(2-6) by (intro exI [of _ "[a0, a1] @ bs"] exI [of _ w']) (auto simp: put_def)
qed

text \<open>Either log of a name is undone through an artifact of the name, which changes nothing in the database.\<close>

lemma reorged_log:
  assumes "registers V e h ls ns" "log = fst ls \<or> log = snd ls" "prevRegistrarArtifact V log arts = Ret (Some b)" "artifact_for (snd ns) b"
  shows "\<exists>a w'. ens_handleReorgedLog V e log arts w = Ret ((a, None), w') \<and> ens_ID (ea_ENS a) = ens_ID (snd ns) \<and> ew_db w' = ew_db w"
proof -
  note f = registers_facts [OF assms(1)]
  obtain m where b: "BlockEvents b = Some m" "ens_ID (ea_ENS b) = ens_ID (snd ns)" using assms(4) by (auto simp: artifact_for_def)
  have t: "log_Topics log \<noteq> []" "\<not> length (log_Topics log) < 2" "\<not> length (log_Topics log) < 3"
    using assms(2) registrar(1) [OF f(1)] controller(1) [OF f(2)] by auto
  show ?thesis using assms(2)
  proof
    assume "log = fst ls"
    then show ?thesis using f(1,6) assms(3) b t
      by (simp add: ens_handleReorgedLog_def registrar_log_def revertNameRegisteredRegistrar_def hash_prints_lower set_event_def)
  next
    assume "log = snd ls"
    then show ?thesis using f(2) controller(6) [OF f(2)] assms(3) b t contracts
      by (auto simp: ens_handleReorgedLog_def controller_log_def revertNameRegisteredController_def set_event_def)
  qed
qed

lemma reorged_step:
  assumes "ens_handleReorgedLog V e log arts w = Ret ((a, None), w1)" "ens_ID (ea_ENS a) = k" "ew_db w1 = ew_db w" "known (ew_db w) k"
  shows "\<exists>out' w'. ens_reorged_logs V e arts (log # logs) out w = ens_reorged_logs V e arts logs out' w' \<and> gone (ew_db w') k \<and>
    (\<forall>k'. k' \<noteq> k \<longrightarrow> read (ew_db w') k' = read (ew_db w) k') \<and> (\<forall>k'. known (ew_db w) k' \<longrightarrow> known (ew_db w') k')"
proof -
  obtain g where "re_DelENS (ens_dataGateway e) (ea_ENS a) (ew_db w1) = Ret (None, g)" "gone g k"
      "\<forall>k'. k' \<noteq> k \<longrightarrow> read g k' = read (ew_db w) k'" "\<forall>k'. known (ew_db w) k' \<longrightarrow> known g k'"
    using del_step [of "ew_db w" "ea_ENS a"] assms(2-4) by auto
  then show ?thesis using assms(1)
    by (intro exI [of _ "add_artifact (log_BlockHash log) (ENSLeaf a) out"] exI [of _ "w1\<lparr>ew_db := g\<rparr>"]) simp
qed

lemma reorged_logs:
  assumes "\<And>log w. log \<in> set logs \<Longrightarrow> \<exists>a w'. ens_handleReorgedLog V e log arts w = Ret ((a, None), w') \<and> ens_ID (ea_ENS a) = key log \<and> ew_db w' = ew_db w"
    "\<forall>log\<in>set logs. known (ew_db w) (key log)"
  shows "\<exists>out' w'. ens_reorged_logs V e arts (logs @ rest) out w = ens_reorged_logs V e arts rest out' w' \<and>
    (\<forall>k. if k \<in> key ` set logs then gone (ew_db w') k else read (ew_db w') k = read (ew_db w) k)"
  using assms
proof (induction logs arbitrary: out w)
  case (Cons log logs)
  obtain a w0 where "ens_handleReorgedLog V e log arts w = Ret ((a, None), w0)" "ens_ID (ea_ENS a) = key log" "ew_db w0 = ew_db w" "known (ew_db w) (key log)"
    using Cons.prems(1) [of log w] Cons.prems(2) by auto
  from reorged_step [OF this, of "logs @ rest" out]
  obtain out1 w1 where one: "ens_reorged_logs V e arts (log # logs @ rest) out w = ens_reorged_logs V e arts (logs @ rest) out1 w1"
      "gone (ew_db w1) (key log)" "\<forall>k. k \<noteq> key log \<longrightarrow> read (ew_db w1) k = read (ew_db w) k" "\<forall>k. known (ew_db w) k \<longrightarrow> known (ew_db w1) k"
    by blast
  have later: "\<exists>a w'. ens_handleReorgedLog V e l arts w = Ret ((a, None), w') \<and> ens_ID (ea_ENS a) = key l \<and> ew_db w' = ew_db w" if "l \<in> set logs" for l w
    using Cons.prems(1) [of l w] that by simp
  have known1: "\<forall>l\<in>set logs. known (ew_db w1) (key l)" using Cons.prems(2) one(4) by simp
  obtain out' w' where two: "ens_reorged_logs V e arts (logs @ rest) out1 w1 = ens_reorged_logs V e arts rest out' w'"
      "\<forall>k. if k \<in> key ` set logs then gone (ew_db w') k else read (ew_db w') k = read (ew_db w1) k"
    using Cons.IH [OF later known1, of out1] by blast
  have "if k \<in> key ` set (log # logs) then gone (ew_db w') k else read (ew_db w') k = read (ew_db w) k" for k
    using one(2,3) spec [OF two(2), of k] by (cases "k = key log") (auto simp: gone_def split: if_splits)
  then show ?case using one(1) two(1) by (intro exI [of _ out'] exI [of _ w']) simp
qed auto

text \<open>Among the artifacts of a block's names, a log finds one of its own name.\<close>

lemma own_artifact:
  assumes "list_all2 (registers V e h) ps ns" "distinct (map (ens_TxHash \<circ> snd) ns)" "(ls, n) \<in> set (zip ps ns)" "log = fst ls \<or> log = snd ls"
    "\<forall>b\<in>set bs. \<exists>n\<in>set ns. artifact_for (snd n) b" "\<forall>n\<in>set ns. \<exists>b\<in>set bs. artifact_for (snd n) b"
    and idd: "distinct (map (ens_ID \<circ> snd) ns)"
  shows "\<exists>b. prevRegistrarArtifact V log (map ENSLeaf bs) = Ret (Some b) \<and> artifact_for (snd n) b"
proof -
  have reg: "registers V e h ls n" using assms(1,3) by (auto simp: list_all2_iff)
  note f = registers_facts [OF reg]
  have n: "n \<in> set ns" using assms(3) by (rule set_zip_rightD)
  have key: "is_artifact_of V log b \<longleftrightarrow> ens_ID (ea_ENS b) = ens_ID (snd n) \<or> ens_TxHash (ea_ENS b) = ens_TxHash (snd n)" for b
    using assms(4) f(6-9) by (auto simp: is_artifact_of_def)
  have topics: "2 \<le> length (log_Topics log)" using assms(4) registrar(1) [OF f(1)] controller(1) [OF f(2)] by auto
  obtain b where b: "List.find (is_artifact_of V log) bs = Some b"
    using assms(6) n by (fastforce simp: key artifact_for_def find_None_iff simp flip: not_None_eq)
  then have "b \<in> set bs" "is_artifact_of V log b" by (auto simp: find_Some_iff)
  moreover from this obtain n' where n': "n' \<in> set ns" "artifact_for (snd n') b" using assms(5) by blast
  ultimately have "ens_ID (snd n') = ens_ID (snd n) \<or> ens_TxHash (snd n') = ens_TxHash (snd n)" by (auto simp: key artifact_for_def)
  then have "n' = n" using assms(2) idd n n'(1) by (auto simp: distinct_map inj_on_def)
  then have own: "artifact_for (snd n) b" using n'(2) by simp
  have "collectArtifactsENS (map ENSLeaf bs) = Ret bs" using collect_leaves [of "[]" bs] by simp
  then have "prevRegistrarArtifact V log (map ENSLeaf bs) = Ret (Some b)"
    using b topics own by (intro prev_found) (auto simp: artifact_for_def)
  with own show ?thesis by blast
qed

text \<open>The logs of a block's names are undone one by one, and every name is deleted.\<close>

lemma reorged_pairs:
  assumes "list_all2 (registers V e h) ps ns" "distinct (map (ens_TxHash \<circ> snd) ns)" "distinct (map (ens_ID \<circ> snd) ns)"
    "\<forall>b\<in>set bs. \<exists>n\<in>set ns. artifact_for (snd n) b" "\<forall>n\<in>set ns. \<exists>b\<in>set bs. artifact_for (snd n) b"
    "\<forall>n\<in>set ns. known (ew_db w) (ens_ID (snd n))"
  shows "\<exists>out' w'. ens_reorged_logs V e (map ENSLeaf bs) (pair_logs ps) out w = Ret ((out', None), w') \<and>
    (\<forall>k. if k \<in> (ens_ID \<circ> snd) ` set ns then gone (ew_db w') k else read (ew_db w') k = read (ew_db w) k)"
proof -
  let ?key = "\<lambda>log. cv_hash_string V (log_Topics log ! 1)"
  have reg: "registers V e h ls n" if "(ls, n) \<in> set (zip ps ns)" for ls n using assms(1) that by (auto simp: list_all2_iff)
  have owner: "\<exists>ls n. (ls, n) \<in> set (zip ps ns) \<and> registers V e h ls n \<and> (log = fst ls \<or> log = snd ls)" if "log \<in> set (pair_logs ps)" for log
  proof -
    obtain ls where "ls \<in> set ps" "log = fst ls \<or> log = snd ls" using \<open>log \<in> set (pair_logs ps)\<close> by (fastforce simp: pair_logs_def)
    moreover from this(1) obtain n where "(ls, n) \<in> set (zip ps ns)" using list_all2_lengthD [OF assms(1)] by (metis in_set_impl_in_set_zip1)
    ultimately show ?thesis using reg by blast
  qed
  have keys: "?key log = ens_ID (snd n)" if "registers V e h ls n" "log = fst ls \<or> log = snd ls" for log ls n
    using registers_facts(6,7) [OF that(1)] that(2) by auto
  have logs: "?key ` set (pair_logs ps) = (ens_ID \<circ> snd) ` set ns"
  proof (intro subset_antisym subsetI)
    fix k assume "k \<in> ?key ` set (pair_logs ps)"
    then show "k \<in> (ens_ID \<circ> snd) ` set ns" using owner keys by (fastforce dest: set_zip_rightD)
  next
    fix k assume "k \<in> (ens_ID \<circ> snd) ` set ns"
    then obtain n where n: "n \<in> set ns" "k = ens_ID (snd n)" by auto
    obtain ls where "(ls, n) \<in> set (zip ps ns)" using n(1) list_all2_lengthD [OF assms(1)] by (metis in_set_impl_in_set_zip2)
    then have ls: "registers V e h ls n" "ls \<in> set ps" using reg by (auto dest: set_zip_leftD)
    then have "fst ls \<in> set (pair_logs ps)" by (cases ls) (force simp: pair_logs_def)
    moreover have "?key (fst ls) = k" using keys [OF ls(1)] n(2) by simp
    ultimately show "k \<in> ?key ` set (pair_logs ps)" by blast
  qed
  have one: "\<exists>a w'. ens_handleReorgedLog V e log (map ENSLeaf bs) w = Ret ((a, None), w') \<and> ens_ID (ea_ENS a) = ?key log \<and> ew_db w' = ew_db w"
    if "log \<in> set (pair_logs ps)" for log and w :: "'g ens_world"
  proof -
    obtain ls n where o: "(ls, n) \<in> set (zip ps ns)" "registers V e h ls n" "log = fst ls \<or> log = snd ls" using owner [OF \<open>log \<in> set (pair_logs ps)\<close>] by blast
    obtain b where "prevRegistrarArtifact V log (map ENSLeaf bs) = Ret (Some b)" "artifact_for (snd n) b"
      using own_artifact [OF assms(1,2) o(1,3) assms(4,5,3)] by blast
    then show ?thesis using reorged_log [OF o(2,3)] keys [OF o(2,3)] by metis
  qed
  have "\<forall>k\<in>(ens_ID \<circ> snd) ` set ns. known (ew_db w) k" using assms(6) by simp
  then have "\<forall>log\<in>set (pair_logs ps). known (ew_db w) (?key log)" unfolding logs [symmetric] by blast
  from reorged_logs [of "pair_logs ps" "map ENSLeaf bs" ?key w "[]" out, OF one this] show ?thesis unfolding logs by auto
qed

text \<open>
  Two names of one transaction. The log of the second name's controller is merged into the first name's
  entry, and the second name keeps no name.
\<close>

lemma same_tx_good:
  assumes "registers V e h (r1, c1) (m1, n1)" "registers V e h (r2, c2) (m2, n2)" "log_TxHash r1 = log_TxHash r2" "ens_ID n1 \<noteq> ens_ID n2"
    "\<forall>n. storable n"
  shows "\<exists>bs n w'. ens_good_logs V e [r1, c1, r2, c2] [] (\<lambda>_. []) w = Ret (((\<lambda>_. [])(h := map ENSLeaf bs), None), w') \<and>
    bs \<noteq> [] \<and> artifact_for n1 (hd bs) \<and> read (ew_db w') (ens_ID n1) = (Some n, None) \<and> known (ew_db w') (ens_ID n1) \<and>
    ens_Name n = ens_Name n2 \<and> read (ew_db w') (ens_ID n2) = (Some m2, None)"
proof -
  note f1 = registers_facts [OF assms(1), simplified] and f2 = registers_facts [OF assms(2), simplified]
  obtain a0 a1 w1 where one: "ens_good_logs V e [r1, c1, r2, c2] [] (\<lambda>_. []) w =
        ens_good_logs V e [r2, c2] (map ENSLeaf [a0, a1]) ((\<lambda>_. [])(h := map ENSLeaf [a0, a1])) w1" "artifact_for n1 a0"
    using good_pair [OF assms(1), of "[]" "[]" "[r2, c2]" "\<lambda>_. []" w] assms(5) by auto
  obtain a2 w2 where two: "ens_HandleGoodLog V e r2 (map ENSLeaf [a0, a1]) w1 = Ret ((a2, None), w2)" "read (ew_db w2) (ens_ID n2) = (Some m2, None)"
    using good_registrar [OF f2(1), of "map ENSLeaf [a0, a1]" w1] f2(3) assms(5) by (auto simp: put_def)
  have coll: "collectArtifactsENS (map ENSLeaf [a0, a1, a2]) = Ret [a0, a1, a2]" by simp
  have "List.find (is_artifact_of V c2) [a0, a1, a2] = Some a0"
    using one(2) f1(8) f2(8,9) assms(3) by (simp add: is_artifact_of_def artifact_for_def)
  then have prev: "prevRegistrarArtifact V c2 (map ENSLeaf [a0, a1, a2]) = Ret (Some a0)"
    using prev_found [OF coll] controller(1) [OF f2(2)] one(2) by (simp add: artifact_for_def)
  have hs: "ens_BlockHash n1 = cv_hash_string V h" "ens_TxHash n1 = cv_hash_string V (log_TxHash c2)" using f1(5,8) f2(8,9) assms(3) by simp_all
  obtain n' where n': "controller_log V e h c2 n1 n'"
    using f2(2) controller(5) [OF f2(2), of n1] by (auto simp: controller_log_def)
  obtain n where n: "unmarshalLogToENS V e eventNameRegistered c2 (ea_ENS a0) = Ret (Inr n)" "ens_Name n = ens_Name n2" "ens_ID n = ens_ID n1"
    using controller(5) [OF f2(2), of "ea_ENS a0"] one(2) by (auto simp: artifact_for_def)
  obtain a3 w3 where three: "ens_HandleGoodLog V e c2 (map ENSLeaf [a0, a1, a2]) w2 = Ret ((a3, None), w3)" "put n w2 w3"
    using good_controller [OF n' prev one(2) hs n(1), of w2] assms(5) by auto
  have "ens_good_logs V e [r1, c1, r2, c2] [] (\<lambda>_. []) w = Ret (((\<lambda>_. [])(h := map ENSLeaf [a0, a1, a2, a3]), None), w3)"
    using one(1) two(1) three(1) f2(10,11) by (simp add: add_artifact_def)
  then show ?thesis using one(2) two(2) three(2) n(2,3) assms(4) by (intro exI [of _ "[a0, a1, a2, a3]"] exI [of _ n] exI [of _ w3]) (auto simp: put_def)
qed

text \<open>The second name's registrar log then finds the first name's artifact, and the identifiers differ.\<close>

lemma same_tx_reorged:
  assumes "registers V e h (r1, c1) (m1, n1)" "registers V e h (r2, c2) (m2, n2)" "log_TxHash r1 = log_TxHash r2" "ens_ID n1 \<noteq> ens_ID n2"
    "artifact_for n1 a" "known (ew_db w) (ens_ID n1)"
  shows "ens_reorged_logs V e (map ENSLeaf (a # bs)) [r1, c1, r2, c2] out w = Panic ''prevArtifact ENS ID != log ENS ID''"
proof -
  note f1 = registers_facts [OF assms(1), simplified] and f2 = registers_facts [OF assms(2), simplified]
  let ?arts = "map ENSLeaf (a # bs)"
  have coll: "collectArtifactsENS ?arts = Ret (a # bs)" using collect_leaves [of "[]" "a # bs"] by simp
  have prev: "prevRegistrarArtifact V log ?arts = Ret (Some a)"
    if "cv_hash_string V (log_TxHash log) = ens_TxHash n1" "3 \<le> length (log_Topics log)" for log
    using prev_found [OF coll, of log] that assms(5) by (simp add: is_artifact_of_def artifact_for_def)
  have own: "\<exists>b w'. ens_handleReorgedLog V e log ?arts w = Ret ((b, None), w') \<and> ens_ID (ea_ENS b) = ens_ID n1 \<and> ew_db w' = ew_db w"
    if "log \<in> set [r1, c1]" for log and w :: "'g ens_world"
    using reorged_log [OF assms(1), of log ?arts a w] assms(5) that prev [of log] f1(8,9) registrar(1) [OF f1(1)] controller(1) [OF f1(2)] by auto
  obtain out' w' where "ens_reorged_logs V e ?arts ([r1, c1] @ [r2, c2]) out w = ens_reorged_logs V e ?arts [r2, c2] out' w'"
    using reorged_logs [of "[r1, c1]" ?arts "\<lambda>_. ens_ID n1" w "[r2, c2]" out, OF own] assms(6) by auto
  moreover have "ens_handleReorgedLog V e r2 ?arts w' = Panic ''prevArtifact ENS ID != log ENS ID''"
    using prev [of r2] f1(8) f2(1,6,8) assms(3-5) registrar(1) [OF f2(1)]
    by (auto simp: ens_handleReorgedLog_def registrar_log_def revertNameRegisteredRegistrar_def hash_prints_lower artifact_for_def)
  ultimately show ?thesis by simp
qed

text \<open>A block of registrations, through both handlers.\<close>

lemma block_undone:
  assumes "list_all2 (registers V e (Hash b)) ps ns" "Logs b = pair_logs ps"
    "distinct (map (ens_ID \<circ> snd) ns)" "distinct (map (ens_TxHash \<circ> snd) ns)" "\<forall>n\<in>set ns. storable (fst n) \<and> storable (snd n)"
  shows "\<exists>bs w1 out2 w2. ens_HandleGoodBlocks V e [b] [] w = Ret (((\<lambda>_. [])(Hash b := map ENSLeaf bs), None), w1) \<and>
    ens_HandleReorgedBlocks V e [b] (map ENSLeaf bs) w1 = Ret ((out2, None), w2) \<and>
    names_undone (ens_dataGateway e) (map snd ns) (ew_db w) (ew_db w1) (ew_db w2)"
proof -
  obtain bs w1 where good: "ens_good_logs V e (pair_logs ps) [] (\<lambda>_. []) w = Ret (((\<lambda>_. [])(Hash b := [] @ map ENSLeaf bs), None), w1)"
      "\<forall>b\<in>set bs. \<exists>n\<in>set ns. artifact_for (snd n) b" "\<forall>n\<in>set ns. \<exists>b\<in>set bs. artifact_for (snd n) b"
      "\<forall>n\<in>set ns. read (ew_db w1) (ens_ID (snd n)) = (Some (snd n), None) \<and> known (ew_db w1) (ens_ID (snd n))"
      "\<forall>k. k \<notin> (ens_ID \<circ> snd) ` set ns \<longrightarrow> read (ew_db w1) k = read (ew_db w) k"
    using good_pairs [OF assms(1,3,4) _ _ assms(5), of "[]" "[]" "\<lambda>_. []" w] by auto
  have "\<forall>n\<in>set ns. known (ew_db w1) (ens_ID (snd n))" using good(4) by simp
  from reorged_pairs [OF assms(1,4,3) good(2,3) this, of "\<lambda>_. []"]
  obtain out2 w2 where re: "ens_reorged_logs V e (map ENSLeaf bs) (pair_logs ps) (\<lambda>_. []) w1 = Ret ((out2, None), w2)"
      "\<forall>k. if k \<in> (ens_ID \<circ> snd) ` set ns then gone (ew_db w2) k else read (ew_db w2) k = read (ew_db w1) k"
    by blast
  have "\<exists>er. read (ew_db w2) (ens_ID (snd n)) = (None, Some er) \<and> errors_Is er ErrRecordNotFound" if "n \<in> set ns" for n
  proof -
    have "ens_ID (snd n) \<in> (ens_ID \<circ> snd) ` set ns" using that by force
    then have "gone (ew_db w2) (ens_ID (snd n))" using re(2) by meson
    then show ?thesis unfolding gone_def by (metis prod.collapse)
  qed
  moreover have "read (ew_db w2) k = read (ew_db w) k" if "k \<notin> (ens_ID \<circ> snd) ` set ns" for k using that re(2) good(5) by metis
  ultimately show ?thesis using good(1,4) re(1)
    by (intro exI [of _ bs] exI [of _ w1] exI [of _ out2] exI [of _ w2])
      (simp add: ens_HandleGoodBlocks_def ens_HandleReorgedBlocks_def assms(2) get_reads names_undone_def image_comp)
qed

end

text \<open>
  C36. Undoing a block of names, over any store of names. In a block whose names are each registered by a registrar
  log and a controller log of a transaction of their own, every name is stored with the data of both logs when the
  block is good. When the block is reorged, with the artifacts it left, every one of its names is
  deleted, so looking it up reports that there is no such record, and every other name is as it was before the block.
\<close>

theorem ens_block_undone:
  assumes "ens_store V e read known storable" "list_all2 (registers V e (Hash b)) ps ns" "Logs b = pair_logs ps"
    "distinct (map (ens_ID \<circ> snd) ns)" "distinct (map (ens_TxHash \<circ> snd) ns)" "\<forall>n\<in>set ns. storable (fst n) \<and> storable (snd n)"
  shows "\<exists>out w1 out2 w2. ens_HandleGoodBlocks V e [b] [] w = Ret ((out, None), w1) \<and>
    ens_HandleReorgedBlocks V e [b] (out (Hash b)) w1 = Ret ((out2, None), w2) \<and>
    names_undone (ens_dataGateway e) (map snd ns) (ew_db w) (ew_db w1) (ew_db w2)"
  using ens_store.block_undone [OF assms, of w] by (metis fun_upd_same)

text \<open>Two contracts, hashes that print as decimal numbers, and the two logs of a name.\<close>

definition dec_conv :: ens_conv where
  "dec_conv = \<lparr>cv_HexToAddress = (\<lambda>h. word_of_int (uint h)), cv_Big_Uint64 = (\<lambda>h. word_of_int (uint h)),
     cv_address_string = (\<lambda>a. dec_digits (unat a)), cv_hash_string = (\<lambda>h. dec_digits (unat h)),
     cv_parse_hash = (\<lambda>s. case parse_dec 0 s of None \<Rightarrow> 0 | Some n \<Rightarrow> of_nat n),
     cv_Hash_String = (\<lambda>h. dec_digits (unat h)), cv_Address_String = (\<lambda>a. dec_digits (unat a)), cv_ToLower = (\<lambda>s. s)\<rparr>"

definition registrar_contract :: contract where
  "registrar_contract = \<lparr>con_Address = 21, con_Events = [(210, ''NameRegistered'')],
     con_UnpackIntoMap = (\<lambda>ev data. Inr [(''expires'', AbiBigInt 1000)])\<rparr>"

definition controller_contract :: contract where
  "controller_contract = \<lparr>con_Address = 22, con_Events = [(220, ''NameRegistered'')],
     con_UnpackIntoMap = (\<lambda>ev data. Inr [(''name'', AbiString (if data = [1] then ''alice'' else ''bob'')), (''expires'', AbiBigInt 1000)])\<rparr>"

definition mock_ens_engine :: "mockDataGatewayENS ensEngine" where
  "mock_ens_engine = ens_New registrar_contract controller_contract (mock_ens_repository (\<lambda>ks. ks)) 0"

definition ens_logs :: "8 word \<Rightarrow> hash \<Rightarrow> hash \<Rightarrow> eth_log \<times> eth_log" where
  "ens_logs d i tx =
     (\<lparr>log_Address = 21, log_Topics = [210, i, 9], log_Data = [d], log_BlockNumber = 5, log_TxHash = tx, log_BlockHash = 50\<rparr>,
      \<lparr>log_Address = 22, log_Topics = [220, i, 9], log_Data = [d], log_BlockNumber = 5, log_TxHash = tx, log_BlockHash = 50\<rparr>)"

definition ens_names :: "8 word \<Rightarrow> hash \<Rightarrow> hash \<Rightarrow> ENS \<times> ENS" where
  "ens_names d i tx =
     (let n = \<lparr>ens_ID = dec_digits (unat i), ens_Name = [], TLD = [], Owner = dec_digits 9, Expires = 1000, ens_TxHash = dec_digits (unat tx),
            ens_BlockHash = dec_digits 50, ens_BlockNumber = 5\<rparr>
      in (n, n\<lparr>ens_Name := if d = 1 then ''alice'' else ''bob''\<rparr>))"

definition ens_block :: "(eth_log \<times> eth_log) list \<Rightarrow> block" where
  "ens_block ps = \<lparr>LogsMigrated = False, Number = 5, Hash = 50, Header = None, Logs = pair_logs ps\<rparr>"

lemma mock_ens_gateway: "ens_dataGateway mock_ens_engine = mock_ens_repository (\<lambda>ks. ks)"
  by (simp add: mock_ens_engine_def ens_New_def)

interpretation dec: eth_strings dec_conv
  by unfold_locales (simp_all add: dec_conv_def parse_dec_digits)

interpretation mem: ens_store dec_conv mock_ens_engine "\<lambda>g k. mock_GetENS k g" mock_ens_known "\<lambda>_. True"
proof (intro ens_store.intro dec.eth_strings_axioms)
  show "entity_store_again ens_ID (re_SetENS (ens_dataGateway mock_ens_engine)) (re_DelENS (ens_dataGateway mock_ens_engine))
      (re_GetENS (ens_dataGateway mock_ens_engine)) (\<lambda>g k. mock_GetENS k g) mock_ens_known (\<lambda>_. True)"
    unfolding mock_ens_gateway by (rule mes.entity_store_again_axioms)
  show "ens_store_axioms mock_ens_engine"
    by unfold_locales (simp add: mock_ens_engine_def ens_New_def registrar_contract_def controller_contract_def)
qed

lemma registers_any: "registers dec_conv (ens_New registrar_contract controller_contract R ll) 50 (ens_logs d i tx) (ens_names d i tx)"
  by (simp add: registers_def registrar_log_def controller_log_def ens_logs_def ens_names_def ens_New_def
      registrar_contract_def controller_contract_def registered_event_def eventNameRegistered_def unmarshalLogToENS_def
      UnpackLogDataIntoMap_def ExtractFieldFromUnpacked_def as_bigint_def as_string_def big_Int64_def dec_conv_def name_of_log_def zero_ENS_def Let_def)

lemmas registers_example = registers_any [where R = "mock_ens_repository (\<lambda>ks. ks)" and ll = 0, folded mock_ens_engine_def]

theorem ens_block_undone_witness:
  "\<exists>out w1 out2 w2 er. ens_HandleGoodBlocks dec_conv mock_ens_engine [ens_block [ens_logs 1 11 101, ens_logs 2 12 102]] []
      \<lparr>ew_maps = [], ew_db = NewMockDataGatewayENS\<rparr> = Ret ((out, None), w1) \<and>
    ens_HandleReorgedBlocks dec_conv mock_ens_engine [ens_block [ens_logs 1 11 101, ens_logs 2 12 102]] (out 50) w1 = Ret ((out2, None), w2) \<and>
    mock_GetENS ''11'' (ew_db w1) = (Some (snd (ens_names 1 11 101)), None) \<and>
    mock_GetENS ''11'' (ew_db w2) = (None, Some er) \<and> errors_Is er ErrRecordNotFound"
proof -
  let ?ps = "[ens_logs 1 11 101, ens_logs 2 12 102]" and ?ns = "[ens_names 1 11 101, ens_names 2 12 102]"
  have ids: "map (ens_ID \<circ> snd) ?ns = [''11'', ''12'']" "map (ens_TxHash \<circ> snd) ?ns = [''101'', ''102'']" by code_simp+
  have d: "distinct (map (ens_ID \<circ> snd) ?ns)" "distinct (map (ens_TxHash \<circ> snd) ?ns)" unfolding ids by simp_all
  have h: "Hash (ens_block ?ps) = 50" "Logs (ens_block ?ps) = pair_logs ?ps" by (simp_all add: ens_block_def)
  have get: "re_GetENS (ens_dataGateway mock_ens_engine) k g = Ret (mock_GetENS k g, g)" for k g by (rule mem.get_reads)
  have "list_all2 (registers dec_conv mock_ens_engine (Hash (ens_block ?ps))) ?ps ?ns" unfolding h by (simp add: registers_example)
  from ens_block_undone [OF mem.ens_store_axioms this h(2) d, of "\<lparr>ew_maps = [], ew_db = NewMockDataGatewayENS\<rparr>"]
  show ?thesis using ids(1) unfolding h(1) get names_undone_def by auto
qed

text \<open>
  C37. Two names of one transaction. Artifacts are looked up by identifier or transaction, whichever comes
  first. When a transaction registers two names, the second controller log finds the first name's artifact: the
  first name's entry ends up with the second one's name and the second entry with none. When the
  block is reorged, the second registrar log finds the first name's artifact too and the engine panics.
\<close>

theorem ens_same_tx_panics:
  assumes "ens_store V e read known storable" "registers V e (Hash b) (r1, c1) (m1, n1)" "registers V e (Hash b) (r2, c2) (m2, n2)"
    "log_TxHash r1 = log_TxHash r2" "ens_ID n1 \<noteq> ens_ID n2" "\<forall>n. storable n" "Logs b = [r1, c1, r2, c2]"
  shows "\<exists>out w1 n m. ens_HandleGoodBlocks V e [b] [] w = Ret ((out, None), w1) \<and>
    re_GetENS (ens_dataGateway e) (ens_ID n1) (ew_db w1) = Ret ((Some n, None), ew_db w1) \<and> ens_Name n = ens_Name n2 \<and>
    re_GetENS (ens_dataGateway e) (ens_ID n2) (ew_db w1) = Ret ((Some m, None), ew_db w1) \<and> ens_Name m = [] \<and>
    ens_HandleReorgedBlocks V e [b] (out (Hash b)) w1 = Panic ''prevArtifact ENS ID != log ENS ID''"
proof -
  note get = entity_store.get_reads [OF entity_store_again.axioms(1) [OF ens_store.axioms(2) [OF assms(1)]]]
  obtain bs n w1 where good: "ens_good_logs V e [r1, c1, r2, c2] [] (\<lambda>_. []) w = Ret (((\<lambda>_. [])(Hash b := map ENSLeaf bs), None), w1)"
      "bs \<noteq> []" "artifact_for n1 (hd bs)" "read (ew_db w1) (ens_ID n1) = (Some n, None)" "known (ew_db w1) (ens_ID n1)" "ens_Name n = ens_Name n2"
      "read (ew_db w1) (ens_ID n2) = (Some m2, None)"
    using ens_store.same_tx_good [OF assms(1-6), of w] by blast
  then obtain a bs' where "bs = a # bs'" "artifact_for n1 a" by (cases bs) auto
  then have "ens_reorged_logs V e (map ENSLeaf bs) [r1, c1, r2, c2] (\<lambda>_. []) w1 = Panic ''prevArtifact ENS ID != log ENS ID''"
    using ens_store.same_tx_reorged [OF assms(1-5), of a w1] good(5) by simp
  moreover have "ens_Name m2 = []" using assms(3) registrar_logD(5) [of V e "Hash b" r2 m2] by (simp add: registers_def)
  ultimately show ?thesis using good
    by (simp add: ens_HandleGoodBlocks_def ens_HandleReorgedBlocks_def assms(7) get del: ens_good_logs.simps ens_reorged_logs.simps)
qed

theorem ens_same_tx_panics_witness:
  "\<exists>out w1 n. ens_HandleGoodBlocks dec_conv mock_ens_engine [ens_block [ens_logs 1 11 101, ens_logs 2 12 101]] []
      \<lparr>ew_maps = [], ew_db = NewMockDataGatewayENS\<rparr> = Ret ((out, None), w1) \<and>
    mock_GetENS ''11'' (ew_db w1) = (Some n, None) \<and> ens_Name n = ''bob'' \<and>
    ens_HandleReorgedBlocks dec_conv mock_ens_engine [ens_block [ens_logs 1 11 101, ens_logs 2 12 101]] (out 50) w1 =
      Panic ''prevArtifact ENS ID != log ENS ID''"
proof -
  let ?b = "ens_block [ens_logs 1 11 101, ens_logs 2 12 101]"
  let ?r = "\<lambda>d i. fst (ens_logs d i 101)" and ?c = "\<lambda>d i. snd (ens_logs d i 101)"
  let ?m = "\<lambda>d i. fst (ens_names d i 101)" and ?n = "\<lambda>d i. snd (ens_names d i 101)"
  have h: "Hash ?b = 50" "Logs ?b = [?r 1 11, ?c 1 11, ?r 2 12, ?c 2 12]" by (simp_all add: ens_block_def pair_logs_def split: prod.split)
  have reg: "registers dec_conv mock_ens_engine (Hash ?b) (?r d i, ?c d i) (?m d i, ?n d i)" for d i
    using registers_example unfolding h(1) by simp
  have k: "ens_ID (?n 1 11) = ''11''" "ens_ID (?n 2 12) = ''12''" "ens_Name (?n 2 12) = ''bob''" by code_simp+
  have "log_TxHash (?r 1 11) = log_TxHash (?r 2 12)" "ens_ID (?n 1 11) \<noteq> ens_ID (?n 2 12)" by (simp add: ens_logs_def) (simp add: k)
  from ens_same_tx_panics [OF mem.ens_store_axioms reg reg this _ h(2), of "\<lparr>ew_maps = [], ew_db = NewMockDataGatewayENS\<rparr>"]
  show ?thesis unfolding k h(1) mem.get_reads by auto
qed

section \<open>Other events of the two contracts\<close>

text \<open>An event of the registrar or of the controller that is not a registration.\<close>

definition other_event :: "'g ensEngine \<Rightarrow> eth_log \<Rightarrow> bool" where
  "other_event e log \<longleftrightarrow> log_Topics log \<noteq> [] \<and>
     (if log_Address log = con_Address (ensRegistrar e) then \<not> registered_event (ensRegistrar e) log
      else log_Address log = con_Address (ensController e) \<and> \<not> registered_event (ensController e) log)"

lemma good_other_skipped:
  "ens_good_logs V e logs arts out w = ens_good_logs V e (filter (\<lambda>l. \<not> other_event e l) logs) arts out w"
proof (induction logs arbitrary: arts out w)
  case (Cons log logs)
  show ?case
  proof (cases "other_event e log")
    case True
    then have "ens_HandleGoodLog V e log arts w = Ret ((zero_artifact\<lparr>RegisterBlockNumber := log_BlockNumber log\<rparr>, Some ErrNoNeedHandle), w)"
      by (auto simp: ens_HandleGoodLog_def ens_find_handler_def other_event_def split: if_splits)
    then show ?thesis using True Cons.IH by simp
  next
    case False
    then show ?thesis by (auto simp: Cons.IH [symmetric] intro!: arg_cong2 [where f = go_bind] split: option.split)
  qed
qed simp

lemma reorged_other_fails:
  assumes "other_event e log" "ens_handleReorgedLog V e log arts w = Ret ((a, er), w')"
  shows "er \<noteq> None"
  using assms by (auto simp: ens_handleReorgedLog_def other_event_def Let_def go_bind_Ret_iff split: if_splits option.splits)

lemma reorged_logs_other_fails:
  assumes "ens_reorged_logs V e arts logs out w = Ret ((out', None), w')" "log \<in> set logs"
  shows "\<not> other_event e log"
  using assms
proof (induction logs arbitrary: out w)
  case (Cons l logs)
  then obtain a er w1 where l: "ens_handleReorgedLog V e l arts w = Ret ((a, er), w1)"
    by (auto simp: go_bind_Ret_iff)
  then obtain out1 w2 where "er = None" "ens_reorged_logs V e arts logs out1 w2 = Ret ((out', None), w')"
    using Cons.prems(1) by (auto simp: go_bind_Ret_iff split: option.splits)
  then show ?case using Cons.IH Cons.prems(2) reorged_other_fails [OF _ l] by auto
qed simp

text \<open>
  C38. Other events of the two contracts, such as the transfers the demo subscribes to. In a good block they are skipped: the
  engine does what it does without them. A reorged block with one of them is never undone: whatever the artifacts and the
  world, the engine panics or returns an error.
\<close>

theorem ens_other_event_not_undone:
  assumes "log \<in> set (Logs b)" "other_event e log"
  shows "ens_HandleGoodBlocks V e [b] arts w = ens_HandleGoodBlocks V e [b\<lparr>Logs := filter (\<lambda>l. \<not> other_event e l) (Logs b)\<rparr>] arts w \<and>
    \<not> (\<exists>out w'. ens_HandleReorgedBlocks V e [b] arts' w1 = Ret ((out, None), w'))"
  using good_other_skipped [of V e "Logs b" arts "\<lambda>_. []" w] reorged_logs_other_fails [of V e arts' "Logs b" "\<lambda>_. []" w1] assms
  by (auto simp: ens_HandleGoodBlocks_def ens_HandleReorgedBlocks_def)

text \<open>A block whose only log is another event of the registrar.\<close>

definition transfer_block :: block where
  "transfer_block = (ens_block [])\<lparr>Logs := [(fst (ens_logs 1 11 101))\<lparr>log_Topics := [211, 8, 9]\<rparr>]\<rparr>"

theorem ens_other_event_not_undone_witness:
  "ens_HandleGoodBlocks dec_conv mock_ens_engine [transfer_block] [] \<lparr>ew_maps = [], ew_db = NewMockDataGatewayENS\<rparr> =
      Ret ((\<lambda>_. [], None), \<lparr>ew_maps = [], ew_db = NewMockDataGatewayENS\<rparr>) \<and>
    \<not> (\<exists>out w'. ens_HandleReorgedBlocks dec_conv mock_ens_engine [transfer_block] [] \<lparr>ew_maps = [], ew_db = NewMockDataGatewayENS\<rparr> = Ret ((out, None), w'))"
proof -
  let ?l = "(fst (ens_logs 1 11 101))\<lparr>log_Topics := [211, 8, 9]\<rparr>"
  have l: "Logs transfer_block = [?l]" "other_event mock_ens_engine ?l"
    by (simp_all add: transfer_block_def other_event_def ens_logs_def mock_ens_engine_def ens_New_def registrar_contract_def registered_event_def)
  then have "?l \<in> set (Logs transfer_block)" by simp
  from ens_other_event_not_undone [OF this l(2)] show ?thesis
    using l by (simp add: ens_HandleGoodBlocks_def del: ens_good_logs.simps(2))
qed

section \<open>The engine over Redis\<close>

text \<open>A codec that writes every field as a list of numbers.\<close>

definition ens_fields :: "ENS \<Rightarrow> nat list list" where
  "ens_fields n = [map of_char (ens_ID n), map of_char (ens_Name n), map of_char (TLD n), map of_char (Owner n),
     [if Expires n < 0 then 1 else 0, nat \<bar>Expires n\<bar>], map of_char (ens_TxHash n), map of_char (ens_BlockHash n), [unat (ens_BlockNumber n)]]"

definition ens_codec :: "ENS json_codec" where
  "ens_codec = \<lparr>js_Marshal = (\<lambda>n. Inr (print_lists (ens_fields n))),
     js_Unmarshal = (\<lambda>s. case parse_lists s of
        [Some i, Some name, Some tld, Some owner, Some [sg, ex], Some tx, Some bh, Some [num]] \<Rightarrow>
          Inr \<lparr>ens_ID = map char_of i, ens_Name = map char_of name, TLD = map char_of tld, Owner = map char_of owner,
            Expires = (if sg = 1 then - int ex else int ex), ens_TxHash = map char_of tx, ens_BlockHash = map char_of bh, ens_BlockNumber = of_nat num\<rparr>
      | _ \<Rightarrow> Inl (ErrNew ''invalid character''))\<rparr>"

lemma ens_codec_storable: "json_storable ens_codec n"
  by (cases n) (simp add: json_storable_def ens_codec_def parse_print_lists ens_fields_def comp_def)

interpretation lrn: redis_names list_hashes "\<lambda>r h k. map_of r (h, k)" ens_codec
  by unfold_locales

definition redis_ens_engine :: "((string \<times> string) \<times> string) list ensEngine" where
  "redis_ens_engine = ens_New registrar_contract controller_contract (redis_ens_repository (NewEnsDataGateway list_hashes ens_codec)) 0"

lemma redis_ens_gateway: "ens_dataGateway redis_ens_engine = redis_ens_repository (NewEnsDataGateway list_hashes ens_codec)"
  by (simp add: redis_ens_engine_def ens_New_def)

interpretation red: ens_store dec_conv redis_ens_engine lrn.names_read "\<lambda>_ _. True" "json_storable ens_codec"
proof (intro ens_store.intro dec.eth_strings_axioms)
  show "entity_store_again ens_ID (re_SetENS (ens_dataGateway redis_ens_engine)) (re_DelENS (ens_dataGateway redis_ens_engine))
      (re_GetENS (ens_dataGateway redis_ens_engine)) lrn.names_read (\<lambda>_ _. True) (json_storable ens_codec)"
    unfolding redis_ens_gateway by (rule lrn.rns.entity_store_again_axioms)
  show "ens_store_axioms redis_ens_engine"
    by unfold_locales (simp add: redis_ens_engine_def ens_New_def registrar_contract_def controller_contract_def)
qed

end
