(* ===== verification/Demo_Wiring.thy ===== *)
theory Demo_Wiring
  imports Components_Theorems Mock Reorg_Sim
begin

text \<open>
  Users of the constructors: the three ways the demo service builds a watcher
  (\<open>examples/demoservice/cmd/demofunc.go\<close>), and the helpers that run a service against the chain
  simulator (\<open>pkg/servicetest\<close>). The channels these functions make are arguments, as in the theory of the
  constructors.
\<close>

section \<open>Three ways to build a watcher (demofunc.go)\<close>

definition newSuperWatcherPreferred ::
    "bool \<Rightarrow> ('s, block) sortedset \<Rightarrow> ('t, nat) sortedset \<Rightarrow> lib \<Rightarrow> ('w, ('s, 'w) poller) cell \<Rightarrow> (unit, 'w) gochan \<Rightarrow>
     (poller_result, 'w) gochan \<Rightarrow> (go_error, 'w) gochan \<Rightarrow> config \<Rightarrow> 'w eth_client \<Rightarrow> address list option \<Rightarrow> hash list \<Rightarrow> 'w data_gateway \<Rightarrow>
     ('a, 'w) service_engine \<Rightarrow> (('s, 'w) poller \<times> 'w emitter) \<times> ('t, 'a, 'w) engine" where
  "newSuperWatcherPreferred lf S T L c sch rch ech cfg ethClient as ts gateway svc =
     NewDefault lf S T L c sch rch ech cfg ethClient
       (GetLastRecordedBlock (GetStateDataGatewayFunc (GetLastRecordedBlock gateway)))
       (SetLastRecordedBlock (SetStateDataGatewayFunc (SetLastRecordedBlock gateway))) svc as (Some [ts])"

text \<open>The emitter is made with a nil poller, \<open>nilPoller\<close>, which is replaced before anything uses it.\<close>

definition newSuperwatcherFromArgs ::
    "'w emitter_poller \<Rightarrow> bool \<Rightarrow> ('s, block) sortedset \<Rightarrow> ('t, nat) sortedset \<Rightarrow> lib \<Rightarrow> ('w, ('s, 'w) poller) cell \<Rightarrow> (unit, 'w) gochan \<Rightarrow>
     (poller_result, 'w) gochan \<Rightarrow> (go_error, 'w) gochan \<Rightarrow> config \<Rightarrow> 'w eth_client \<Rightarrow> address list option \<Rightarrow> hash list \<Rightarrow> 'w data_gateway \<Rightarrow>
     ('a, 'w) service_engine \<Rightarrow> (('s, 'w) poller \<times> 'w emitter) \<times> ('t, 'a, 'w) engine" where
  "newSuperwatcherFromArgs nilPoller lf S T L c sch rch ech cfg ethClient as ts gateway svc =
     (let em = NewEmitter cfg ethClient (GetLastRecordedBlock gateway) nilPoller (Some sch) (Some rch) (Some ech);
          ec = NewEmitterClient cfg (Some sch) (Some rch) (Some ech);
          en = NewEngine T ec svc (SetLastRecordedBlock gateway) (LogLevel cfg);
          p0 = NewPoller S None None (cfg_DoReorg cfg) (cfg_DoHeader cfg) (FilterRange cfg) ethClient (cfg_Policy cfg);
          p1 = SetAddresses as p0;
          p2 = SetTopics (Some [ts]) p1
      in ((p2, SetPoller (poller_interface lf S L c) em), en))"

definition newSuperWatcherOptions ::
    "bool \<Rightarrow> ('s, block) sortedset \<Rightarrow> ('t, nat) sortedset \<Rightarrow> lib \<Rightarrow> ('w, ('s, 'w) poller) cell \<Rightarrow> (unit, 'w) gochan \<Rightarrow>
     (poller_result, 'w) gochan \<Rightarrow> (go_error, 'w) gochan \<Rightarrow> config \<Rightarrow> 'w eth_client \<Rightarrow> address list option \<Rightarrow> hash list \<Rightarrow> 'w data_gateway \<Rightarrow>
     ('a, 'w) service_engine \<Rightarrow> (('s, 'w) poller \<times> ('t, 'a, 'w) superWatcher) go" where
  "newSuperWatcherOptions lf S T L c sch rch ech cfg ethClient as ts gateway svc =
     NewSuperWatcherOptions lf S T L c
       [WithDoReorg (cfg_DoReorg cfg), WithDoHeader (cfg_DoHeader cfg), WithConfig cfg, WithAddresses as, WithTopics (Some [ts]),
        WithGetStateDataGateway (GetLastRecordedBlock gateway), WithSetStateDataGateway (SetLastRecordedBlock gateway),
        WithServiceEngine svc, WithSyncChan (Some sch), WithFilterResultChan (Some rch), WithErrChan (Some ech)]"

text \<open>The first two ways build the same poller, emitter and engine.\<close>

lemma demo_wirings_agree:
  "newSuperwatcherFromArgs nilPoller lf S T L c sch rch ech cfg ethClient as ts gateway svc =
   newSuperWatcherPreferred lf S T L c sch rch ech cfg ethClient as ts gateway svc"
  by (simp add: newSuperwatcherFromArgs_def newSuperWatcherPreferred_def watcher_defs Let_def poller_New_def SetAddresses_def SetTopics_def
      SetPoller_def emitter_New_def GetStateDataGatewayFunc_def SetStateDataGatewayFunc_def wrapper_gateway_def)

lemma options_watcher:
  assumes "NewSuperWatcherOptions lf S T L c options = Ret (p, spw)"
  shows "em_stateDataGateway (spw_Emitter spw) = cc_getStateDataGateway (apply_options options)"
    "em_BlockNumber (spw_Emitter spw) = ec_BlockNumber (cc_ethClient (apply_options options))"
    "filterRange p = cc_filterRange (apply_options options)"
  using assms by (auto simp: NewSuperWatcherOptions_def deref_config_def nil_call_def Let_def watcher_defs poller_New_def split: option.splits)

text \<open>
  The third way forgets the client and the filter range. Its emitter panics in its first round, as soon as
  the gateway has answered; and if it could poll, its poller would keep no block to compare with.
\<close>

lemma demo_options_panics:
  assumes "newSuperWatcherOptions lf S T L c sch rch ech cfg ethClient as ts gateway svc = Ret (p, spw)"
    "GetLastRecordedBlock gateway w = Ret ((n, er), w1)" "er = None \<or> err_Is er ErrRecordNotFound" "\<not> ctx_Done ctx w"
  shows "filterRange p = 0 \<and> loopEmit_round L (spw_Emitter spw) ctx st w = nil_call"
proof -
  note built = options_watcher [OF assms(1) [unfolded newSuperWatcherOptions_def]]
  have em: "em_stateDataGateway (spw_Emitter spw) = GetLastRecordedBlock gateway" "em_BlockNumber (spw_Emitter spw) = (\<lambda>_. nil_call)" "filterRange p = 0"
    unfolding built by (simp_all only: apply_options_def fold.simps comp_def id_def WithDoReorg_def WithDoHeader_def WithConfig_def WithAddresses_def WithTopics_def
        WithGetStateDataGateway_def WithSetStateDataGateway_def WithServiceEngine_def WithSyncChan_def WithFilterResultChan_def WithErrChan_def)
      (simp_all add: zero_componentConfig_def nil_eth_client_def)
  have "emitter_computeFromBlockToBlock L (spw_Emitter spw) (status st) w = nil_call"
    using assms(2,3) by (auto simp: emitter_computeFromBlockToBlock_def em Let_def nil_call_def)
  then show ?thesis using assms(4) em(3) by (simp add: loopEmit_round_def nil_call_def)
qed

section \<open>Running a service against the simulator (servicetest.go)\<close>

record TestCase =
  tcase_Param :: Param
  tcase_Events :: "ReorgEvent list"
  LogsFiles :: "string list"
  DataGatewayFirstRun :: bool
  tcase_Policy :: policy

record ('a, 'w) TestComponents =
  tc_conf :: config
  tc_client :: ReorgSim
  tc_serviceEngine :: "('a, 'w) service_engine"
  tc_dataGateway :: fakeRedisMem

definition DefaultServiceTestConfig :: "u64 \<Rightarrow> u8 \<Rightarrow> policy \<Rightarrow> config" where
  "DefaultServiceTestConfig startBlock logLevel pol =
     \<lparr>NodeURL = [], StartBlock = startBlock, FilterRange = 10, cfg_DoReorg = True, cfg_DoHeader = True, MaxGoBackRetries = 2,
      LoopInterval = 0, LogLevel = logLevel, cfg_Policy = pol\<rparr>"

definition InitTestComponents ::
    "lib \<Rightarrow> (string \<Rightarrow> eth_log list go) \<Rightarrow> config \<Rightarrow> ('a, 'w) service_engine \<Rightarrow> Param \<Rightarrow> ReorgEvent list \<Rightarrow> string list \<Rightarrow> bool \<Rightarrow>
     ('a, 'w) TestComponents go" where
  "InitTestComponents L readLogsJSON cfg svc prm evs logsFullPaths firstRun =
     go_bind (NewReorgSimFromLogsFiles L readLogsJSON prm evs logsFullPaths) (\<lambda>(sim, er).
       case (sim, er) of
         (Some r, None) \<Rightarrow>
           Ret \<lparr>tc_conf = cfg, tc_client = r, tc_serviceEngine = svc, tc_dataGateway = NewDataGatewayMem (StartBlock cfg) (\<not> firstRun)\<rparr>
       | _ \<Rightarrow> Panic ''failed to create ReorgSim'')"

text \<open>
  The simulator and the gateway live in cells of the world, like the poller. A call of one of them acts on
  its cell.
\<close>

definition in_cell :: "('w, 'x) cell \<Rightarrow> ('x \<Rightarrow> ('r \<times> 'x) go) \<Rightarrow> 'w \<Rightarrow> ('r \<times> 'w) go" where
  "in_cell c f w = go_bind (f (cell_get c w)) (\<lambda>(r, x). Ret (r, cell_put c x w))"

definition client_in :: "('w, 'c) cell \<Rightarrow> 'c eth_client \<Rightarrow> 'w eth_client" where
  "client_in c cl = \<lparr>ec_TypeName = ec_TypeName cl, ec_BlockNumber = in_cell c (ec_BlockNumber cl), ec_FilterLogs = (\<lambda>q. in_cell c (ec_FilterLogs cl q)),
     ec_HeaderByNumber = (\<lambda>n. in_cell c (ec_HeaderByNumber cl n)), ec_BatchCallContext = (\<lambda>b. in_cell c (ec_BatchCallContext cl b))\<rparr>"

text \<open>The components \<open>RunServiceTestComponents\<close> passes on to \<open>RunService\<close>.\<close>

definition service_test_components ::
    "bool \<Rightarrow> ('s, block) sortedset \<Rightarrow> ('t, nat) sortedset \<Rightarrow> lib \<Rightarrow> ('w, ('s, 'w) poller) cell \<Rightarrow> ('w, ReorgSim) cell \<Rightarrow> ('w, fakeRedisMem) cell \<Rightarrow>
     (unit, 'w) gochan \<Rightarrow> (poller_result, 'w) gochan \<Rightarrow> (go_error, 'w) gochan \<Rightarrow> ('a, 'w) TestComponents \<Rightarrow>
     (('s, 'w) poller \<times> 'w emitter) \<times> ('t, 'a, 'w) engine" where
  "service_test_components lf S T L pcell scell gcell sch rch ech tc =
     NewDefault lf S T L pcell sch rch ech (tc_conf tc) (client_in scell (sim_client L))
       (in_cell gcell mem_GetLastRecordedBlock) (\<lambda>n. in_cell gcell (mem_SetLastRecordedBlock n)) (tc_serviceEngine tc) None None"

section \<open>The debugging service (debug_service_engine.go)\<close>

record 'w DebugServiceEngine =
  ReorgedAt :: u64
  EmitterFilterRange :: u64
  HandleFuncGoodLog :: "(eth_log \<Rightarrow> 'w \<Rightarrow> (err \<times> 'w) go) option"
  HandleFuncReorgedLog :: "(eth_log \<Rightarrow> 'w \<Rightarrow> (err \<times> 'w) go) option"
  HandleFuncEmitterError :: "(go_error \<Rightarrow> 'w \<Rightarrow> (err \<times> 'w) go) option"

text \<open>Calling an injected function, if there is one.\<close>

definition call_injected :: "('x \<Rightarrow> 'w \<Rightarrow> (err \<times> 'w) go) option \<Rightarrow> 'x \<Rightarrow> 'w \<Rightarrow> (err \<times> 'w) go" where
  "call_injected f x w = (case f of None \<Rightarrow> Ret (None, w) | Some g \<Rightarrow> g x w)"

fun call_logs :: "(eth_log \<Rightarrow> 'w \<Rightarrow> (err \<times> 'w) go) \<Rightarrow> eth_log list \<Rightarrow> 'w \<Rightarrow> (err \<times> 'w) go" where
  "call_logs f [] w = Ret (None, w)"
| "call_logs f (l # ls) w = go_bind (f l w) (\<lambda>(er, w1). if er \<noteq> None then Ret (er, w1) else call_logs f ls w1)"

definition debug_HandleResult :: "'w DebugServiceEngine \<Rightarrow> poller_result \<Rightarrow> 'w \<Rightarrow> (err \<times> 'w) go" where
  "debug_HandleResult e result w = call_logs (call_injected (HandleFuncReorgedLog e)) (concat (map Logs (ReorgedBlocks result))) w"

definition debug_HandleGoodLogs :: "'w DebugServiceEngine \<Rightarrow> eth_log list \<Rightarrow> 'a artifact list \<Rightarrow> 'w \<Rightarrow> (('a artifact list \<times> err) \<times> 'w) go" where
  "debug_HandleGoodLogs e logs arts w = go_bind (call_logs (call_injected (HandleFuncGoodLog e)) logs w) (\<lambda>(er, w1). Ret (([], er), w1))"

text \<open>The bound on the block number is a 64-bit sum.\<close>

definition debug_reorged_log :: "'w DebugServiceEngine \<Rightarrow> eth_log \<Rightarrow> 'w \<Rightarrow> (err \<times> 'w) go" where
  "debug_reorged_log e log w =
     go_bind (call_injected (HandleFuncReorgedLog e) log w) (\<lambda>(er, w1).
       if er \<noteq> None then Ret (er, w1)
       else if log_BlockNumber log \<noteq> ReorgedAt e \<and> log_BlockNumber log > ReorgedAt e + EmitterFilterRange e
       then Ret (Some (ErrNew ''reorgedAt is different from logs passed to HandleReorgedLogs: expecting %d, got %d''), w1)
       else Ret (None, w1))"

definition debug_HandleReorgedLogs :: "'w DebugServiceEngine \<Rightarrow> eth_log list \<Rightarrow> 'a artifact list \<Rightarrow> 'w \<Rightarrow> (('a artifact list \<times> err) \<times> 'w) go" where
  "debug_HandleReorgedLogs e logs arts w = go_bind (call_logs (debug_reorged_log e) logs w) (\<lambda>(er, w1). Ret (([], er), w1))"

definition debug_HandleEmitterError :: "'w DebugServiceEngine \<Rightarrow> go_error \<Rightarrow> 'w \<Rightarrow> (err \<times> 'w) go" where
  "debug_HandleEmitterError e x w = (case HandleFuncEmitterError e of None \<Rightarrow> Ret (Some x, w) | Some f \<Rightarrow> f x w)"

text \<open>Without an injected function, reorged logs pass exactly when none is past the filter range after the reorg.\<close>

lemma debug_HandleReorgedLogs_passes:
  assumes "HandleFuncReorgedLog e = None"
  shows "(\<exists>er. debug_HandleReorgedLogs e logs arts w = Ret (([], er), w) \<and>
    (er = None \<longleftrightarrow> (\<forall>l\<in>set logs. log_BlockNumber l = ReorgedAt e \<or> log_BlockNumber l \<le> ReorgedAt e + EmitterFilterRange e)))"
proof -
  have "\<exists>er. call_logs (debug_reorged_log e) logs w = Ret (er, w) \<and>
      (er = None \<longleftrightarrow> (\<forall>l\<in>set logs. log_BlockNumber l = ReorgedAt e \<or> log_BlockNumber l \<le> ReorgedAt e + EmitterFilterRange e))"
    by (induction logs) (auto simp: debug_reorged_log_def call_injected_def assms)
  then show ?thesis by (auto simp: debug_HandleReorgedLogs_def)
qed

end
