(* ===== verification/Demo_Main.thy ===== *)
theory Demo_Main
  imports Demo_ENS_Theorems Demo_Wiring
begin

text \<open>
  The demo service put together: the table of contracts (\<open>internal/hardcode\<close>), the routes and services that
  \<open>cmd/main.go\<close> makes of it, the watcher \<open>main\<close> runs, and the suites the tests build their router from. Both
  sub-engines and the router act on one world; the maps of their artifacts and the database are its fields.
  Reading the configuration, dialling the node and Redis, and the signals are not modelled.
\<close>

section \<open>The table of contracts (addresses_and_topics.go)\<close>

definition Uniswapv3Pool :: string where "Uniswapv3Pool = ''uniswapv3pool''"
definition Uniswapv3PoolAddr :: string where "Uniswapv3PoolAddr = ''0x5777d92f208679DB4b9778590Fa3CAB3aC9e2168''"
definition Uniswapv3Factory :: string where "Uniswapv3Factory = ''uniswapv3factory''"
definition Uniswapv3FactoryAddr :: string where "Uniswapv3FactoryAddr = ''0x1f98431c8ad98523631ae4a59f267346ea31f984''"
definition OneInchLimitOrder :: string where "OneInchLimitOrder = ''oneInchLimitOrder''"
definition OneInchLimitOrderAddr :: string where "OneInchLimitOrderAddr = ''0x119c71d3bbac22029622cbaec24854d3d32d2828''"
definition ENSRegistrar :: string where "ENSRegistrar = ''ens''"
definition ENSRegistrarAddr :: string where "ENSRegistrarAddr = ''0x57f1887a8bf19b14fc0df6fd9b2acc9af147ea85''"
definition ENSController :: string where "ENSController = ''enscontroller''"
definition ENSControllerAddr :: string where "ENSControllerAddr = ''0x283Af0B28c62C092C9727F1Ee09c02CA627EB7F5''"

lemmas contract_names = Uniswapv3Pool_def Uniswapv3Factory_def OneInchLimitOrder_def ENSRegistrar_def ENSController_def

text \<open>
  The ABIs are constants of the generated bindings, and \<open>NewContract\<close> is a function of \<open>w3utils\<close>: both are
  parameters.
\<close>

record contract_abis =
  Uniswapv3PoolABI :: string
  Uniswapv3FactoryABI :: string
  OneInchLimitOrderABI :: string
  EnsRegistrarABI :: string
  EnsControllerABI :: string

type_synonym new_contract = "string \<Rightarrow> string \<Rightarrow> string \<Rightarrow> string list \<Rightarrow> contract"

definition contractABIsMap :: "contract_abis \<Rightarrow> (string \<times> string) list" where
  "contractABIsMap A = [(Uniswapv3Pool, Uniswapv3PoolABI A), (Uniswapv3Factory, Uniswapv3FactoryABI A), (OneInchLimitOrder, OneInchLimitOrderABI A),
     (ENSRegistrar, EnsRegistrarABI A), (ENSController, EnsControllerABI A)]"

definition contractAddressesMap :: "(string \<times> string) list" where
  "contractAddressesMap = [(Uniswapv3Pool, Uniswapv3FactoryAddr), (Uniswapv3Factory, Uniswapv3FactoryAddr), (OneInchLimitOrder, OneInchLimitOrderAddr),
     (ENSRegistrar, ENSRegistrarAddr), (ENSController, ENSControllerAddr)]"

definition contractTopicsMap :: "(string \<times> string list) list" where
  "contractTopicsMap = [(Uniswapv3Pool, [''Swap'']), (Uniswapv3Factory, [''PoolCreated'']),
     (OneInchLimitOrder, [''OrderCreated'', ''OrderCanceled'', ''OrderFilled'']),
     (ENSRegistrar, [''NameRegistered'', ''Transfer'', ''NewOwner'', ''NewTTL'']), (ENSController, [''NameRegistered''])]"

text \<open>Reading a missing key gives the zero value; a name without an ABI is skipped.\<close>

definition zero_or :: "'v \<Rightarrow> 'v option \<Rightarrow> 'v" where
  "zero_or z v = (case v of None \<Rightarrow> z | Some x \<Rightarrow> x)"

definition DemoContracts :: "new_contract \<Rightarrow> contract_abis \<Rightarrow> string list \<Rightarrow> (string \<times> contract) list" where
  "DemoContracts newContract A contractNames =
     fold (\<lambda>name m.
         case map_of (contractABIsMap A) name of
           None \<Rightarrow> m
         | Some abi \<Rightarrow> AList.update name
             (newContract name abi (zero_or [] (map_of contractAddressesMap name)) (zero_or [] (map_of contractTopicsMap name))) m)
       contractNames []"

section \<open>Sub-engines in one world\<close>

record 'r demo_world =
  dw_poolMaps :: "pool_map list"
  dw_ensMaps :: "(ENSEvent \<times> u64) list list"
  dw_redis :: 'r

definition pool_cell :: "('r demo_world, 'r pool_world) cell" where
  "pool_cell = \<lparr>cell_get = (\<lambda>w. \<lparr>pw_maps = dw_poolMaps w, pw_db = dw_redis w\<rparr>), cell_put = (\<lambda>p w. w\<lparr>dw_poolMaps := pw_maps p, dw_redis := pw_db p\<rparr>)\<rparr>"

definition ens_cell :: "('r demo_world, 'r ens_world) cell" where
  "ens_cell = \<lparr>cell_get = (\<lambda>w. \<lparr>ew_maps = dw_ensMaps w, ew_db = dw_redis w\<rparr>), cell_put = (\<lambda>p w. w\<lparr>dw_ensMaps := ew_maps p, dw_redis := ew_db p\<rparr>)\<rparr>"

definition service_in :: "('w, 'x) cell \<Rightarrow> ('a, 'x) service_engine \<Rightarrow> ('a, 'w) service_engine" where
  "service_in c svc = \<lparr>HandleGoodBlocks = (\<lambda>bs as. in_cell c (HandleGoodBlocks svc bs as)),
     HandleReorgedBlocks = (\<lambda>bs as. in_cell c (HandleReorgedBlocks svc bs as)), svc_HandleEmitterError = (\<lambda>x. in_cell c (svc_HandleEmitterError svc x))\<rparr>"

section \<open>Routes and services (main.go)\<close>

text \<open>The zero value of a contract, which stands for one the table does not have: its ABI knows no event.\<close>

definition zero_contract :: contract where
  "zero_contract = \<lparr>con_Address = 0, con_Events = [], con_UnpackIntoMap = (\<lambda>_ _. Inl (ErrNew ''abi: could not locate named method or event''))\<rparr>"

record 'w services_state =
  ss_routes :: routes
  ss_services :: "(subEngineEnum \<times> (ENSArtifact demo_artifact, 'w) service_engine) list"
  ss_registrar :: contract
  ss_controller :: contract
  ss_addresses :: "address list"

text \<open>The body of the loop over the contracts.\<close>

definition add_contract ::
    "ens_conv \<Rightarrow> 'r repositoryPoolFactory \<Rightarrow> u8 \<Rightarrow> string \<Rightarrow> contract \<Rightarrow> 'r demo_world services_state \<Rightarrow> 'r demo_world services_state" where
  "add_contract V dgwPoolFactory logLevel name c st =
     (let (subEngine, st1) =
        (if name = Uniswapv3Factory then
           (SubEngineUniswapv3Factory,
            st\<lparr>ss_services := AList.update SubEngineUniswapv3Factory
                 (service_in pool_cell (pool_service (eth_conv.truncate V) (pool_New c dgwPoolFactory logLevel))) (ss_services st)\<rparr>)
         else if name = ENSRegistrar then (SubEngineENS, st\<lparr>ss_registrar := c\<rparr>)
         else if name = ENSController then (SubEngineENS, st\<lparr>ss_controller := c\<rparr>)
         else (SubEngineInvalid, st));
        contractTopics = map fst (con_Events c);
        old = zero_or [] (map_of (ss_routes st1) subEngine)
      in st1\<lparr>ss_routes := AList.update subEngine (AList.update (con_Address c) contractTopics old) (ss_routes st1),
             ss_addresses := ss_addresses st1 @ [con_Address c]\<rparr>)"

text \<open>
  \<open>order\<close> is the order in which the range visits the contracts. The two data gateways, which the function makes of the
  client of Redis, are arguments. The slice of topics is never filled.
\<close>

definition contractsToServices ::
    "ens_conv \<Rightarrow> 'r repositoryENS \<Rightarrow> 'r repositoryPoolFactory \<Rightarrow> string list \<Rightarrow> (string \<times> contract) list \<Rightarrow> u8 \<Rightarrow>
     address list \<times> hash list \<times> routes \<times> (subEngineEnum \<times> (ENSArtifact demo_artifact, 'r demo_world) service_engine) list" where
  "contractsToServices V dgwENS dgwPoolFactory order contracts logLevel =
     (let st = fold (\<lambda>name. add_contract V dgwPoolFactory logLevel name (zero_or zero_contract (map_of contracts name))) order
                 \<lparr>ss_routes = [], ss_services = [], ss_registrar = zero_contract, ss_controller = zero_contract, ss_addresses = []\<rparr>
      in (ss_addresses st, [], ss_routes st,
          AList.update SubEngineENS (service_in ens_cell (ens_service V (ens_New (ss_registrar st) (ss_controller st) dgwENS logLevel))) (ss_services st)))"

text \<open>The router and the options of the watcher \<open>main\<close> runs.\<close>

definition main_router ::
    "ens_conv \<Rightarrow> 'r repositoryENS \<Rightarrow> 'r repositoryPoolFactory \<Rightarrow> string list \<Rightarrow> (string \<times> contract) list \<Rightarrow> u8 \<Rightarrow>
     (ENSArtifact demo_artifact, 'r demo_world) routerEngine" where
  "main_router V dgwENS dgwPoolFactory order contracts logLevel =
     (case contractsToServices V dgwENS dgwPoolFactory order contracts logLevel of (as, ts, rs, svcs) \<Rightarrow> router_New rs svcs logLevel)"

definition main_watcher ::
    "bool \<Rightarrow> ('s, block) sortedset \<Rightarrow> ('t, nat) sortedset \<Rightarrow> lib \<Rightarrow> ('w, ('s, 'w) poller) cell \<Rightarrow> config \<Rightarrow> 'w eth_client \<Rightarrow> 'w data_gateway \<Rightarrow>
     ('a, 'w) service_engine \<Rightarrow> (unit, 'w) gochan \<Rightarrow> (poller_result, 'w) gochan \<Rightarrow> (go_error, 'w) gochan \<Rightarrow> address list \<Rightarrow> hash list \<Rightarrow>
     (('s, 'w) poller \<times> ('t, 'a, 'w) superWatcher) go" where
  "main_watcher lf S T L c cfg cl gateway demoEngine sch rch ech emitterAddresses emitterTopics =
     NewSuperWatcherOptions lf S T L c
       [WithConfig cfg, WithEthClient cl, WithGetStateDataGateway (GetLastRecordedBlock gateway), WithSetStateDataGateway (SetLastRecordedBlock gateway),
        WithServiceEngine demoEngine, WithSyncChan (Some sch), WithFilterResultChan (Some rch), WithErrChan (Some ech),
        WithAddresses (Some emitterAddresses), WithTopics (Some [emitterTopics])]"

text \<open>
  What \<open>main\<close> does before it runs the watcher. The configuration file, the client of Redis with its two groups
  of commands, the constructor of the node's client and the orders of the ranges are parameters; \<open>dcell\<close> is where
  the world of the sub-engines, with the database, lives.
\<close>

record demo_config =
  dc_SuperWatcherConfig :: config
  dc_RedisConnAddr :: string
  dc_Chain :: string

definition redis_of :: "('w, 'r demo_world) cell \<Rightarrow> ('w, 'r) cell" where
  "redis_of c = \<lparr>cell_get = (\<lambda>w. dw_redis (cell_get c w)), cell_put = (\<lambda>r w. cell_put c ((cell_get c w)\<lparr>dw_redis := r\<rparr>) w)\<rparr>"

record 'r redis_server =
  rv_commands :: "'r redis_client"
  rv_hashes :: "'r redis_hashes"
  rv_ensJSON :: "ENS json_codec"
  rv_poolJSON :: "uniswapv3PoolCreated json_codec"

definition demo_main ::
    "bool \<Rightarrow> ('s, block) sortedset \<Rightarrow> ('t, nat) sortedset \<Rightarrow> lib \<Rightarrow> map_orders \<Rightarrow> string list \<Rightarrow> ens_conv \<Rightarrow> new_contract \<Rightarrow> contract_abis \<Rightarrow>
     (ENSArtifact demo_artifact \<Rightarrow> subEngineEnum option) \<Rightarrow> ('w, ('s, 'w) poller) cell \<Rightarrow> ('w, 'r demo_world) cell \<Rightarrow> 'r redis_server option \<Rightarrow>
     (string \<Rightarrow> 'w eth_client) \<Rightarrow> (unit, 'w) gochan \<Rightarrow> (poller_result, 'w) gochan \<Rightarrow> (go_error, 'w) gochan \<Rightarrow> go_error + demo_config \<Rightarrow>
     (('s, 'w) poller \<times> ('t, ENSArtifact demo_artifact, 'w) superWatcher) go" where
  "demo_main lf S T L ord order V newContract A kind pcell dcell rdb newEthClient sch rch ech readConfig =
     (case readConfig of
        Inl x \<Rightarrow> Panic ''failed to read YAML config: ''
      | Inr dconf \<Rightarrow>
          if dc_Chain dconf = [] then Panic ''empty chain''
          else (case rdb of
            None \<Rightarrow> Panic ''nil redis''
          | Some r \<Rightarrow>
              (case NewRedisStateDataGateway (''demoservice:'' @ dc_Chain dconf) (Some (rv_commands r)) of
                 Inl x \<Rightarrow> Panic ''new stateDataGateway failed: ''
               | Inr st \<Rightarrow>
                   let cfg = dc_SuperWatcherConfig dconf;
                       gateway = \<lparr>GetLastRecordedBlock = in_cell (redis_of dcell) (GetLastRecordedBlock (redis_gateway st)),
                         SetLastRecordedBlock = (\<lambda>n. in_cell (redis_of dcell) (SetLastRecordedBlock (redis_gateway st) n))\<rparr>;
                       (addresses, topics, routes, services) = contractsToServices V
                         (redis_ens_repository (NewEnsDataGateway (rv_hashes r) (rv_ensJSON r)))
                         (redis_pool_repository (eth_conv.truncate V) (NewDataGatewayPoolFactory (rv_hashes r) (rv_poolJSON r)))
                         order (DemoContracts newContract A [Uniswapv3Factory, ENSRegistrar, ENSController]) (LogLevel cfg);
                       engine = service_in dcell (router_service L ord kind (router_New routes services (LogLevel cfg)))
                   in main_watcher lf S T L pcell cfg (newEthClient (NodeURL cfg)) gateway engine sch rch ech addresses topics)))"

section \<open>The suites of the tests (engine.go of the engines and of the router)\<close>

record ('a, 'w) test_suite =
  suite_Engine :: "('a, 'w) service_engine"
  suite_Routes :: routes
  suite_Services :: "(subEngineEnum \<times> ('a, 'w) service_engine) list"

definition CollectEventHashes :: "contract \<Rightarrow> hash list" where
  "CollectEventHashes c = map fst (con_Events c)"

definition ensEngineEvents :: "string list" where "ensEngineEvents = [eventNameRegistered]"

definition NewTestSuiteENS :: "new_contract \<Rightarrow> contract_abis \<Rightarrow> ens_conv \<Rightarrow> 'g repositoryENS \<Rightarrow> u8 \<Rightarrow> (ENSArtifact demo_artifact, 'g ens_world) test_suite" where
  "NewTestSuiteENS newContract A V dgwENS logLevel =
     (let registrar = newContract ''ENSRegistrar'' (EnsRegistrarABI A) ''0x57f1887a8bf19b14fc0df6fd9b2acc9af147ea85'' ensEngineEvents;
          controller = newContract ''ENSController'' (EnsControllerABI A) ''0x283af0b28c62c092c9727f1ee09c02ca627eb7f5'' ensEngineEvents;
          e = ens_service V (ens_New registrar controller dgwENS logLevel)
      in \<lparr>suite_Engine = e,
          suite_Routes = [(SubEngineENS, AList.update (con_Address controller) (CollectEventHashes controller)
            [(con_Address registrar, CollectEventHashes registrar)])],
          suite_Services = [(SubEngineENS, e)]\<rparr>)"

definition NewTestSuitePoolFactory ::
    "new_contract \<Rightarrow> contract_abis \<Rightarrow> eth_conv \<Rightarrow> 'g repositoryPoolFactory \<Rightarrow> u8 \<Rightarrow> ('b demo_artifact, 'g pool_world) test_suite" where
  "NewTestSuitePoolFactory newContract A V dgw logLevel =
     (let c = zero_or zero_contract (map_of (DemoContracts newContract A [Uniswapv3Factory]) Uniswapv3Factory);
          e = pool_service V (pool_New c dgw logLevel)
      in \<lparr>suite_Engine = e, suite_Routes = [(SubEngineUniswapv3Factory, [(con_Address c, CollectEventHashes c)])],
          suite_Services = [(SubEngineUniswapv3Factory, e)]\<rparr>)"

definition NewMockRouter ::
    "new_contract \<Rightarrow> contract_abis \<Rightarrow> ens_conv \<Rightarrow> u8 \<Rightarrow> 'r repositoryENS \<Rightarrow> 'r repositoryPoolFactory \<Rightarrow> (ENSArtifact demo_artifact, 'r demo_world) routerEngine" where
  "NewMockRouter newContract A V logLevel dgwENS dgwPoolFactory =
     (let se = NewTestSuiteENS newContract A V dgwENS logLevel;
          sp = NewTestSuitePoolFactory newContract A (eth_conv.truncate V) dgwPoolFactory logLevel
      in router_New
           [(SubEngineENS, zero_or [] (map_of (suite_Routes se) SubEngineENS)),
            (SubEngineUniswapv3Factory, zero_or [] (map_of (suite_Routes sp) SubEngineUniswapv3Factory))]
           [(SubEngineENS, service_in ens_cell (suite_Engine se)), (SubEngineUniswapv3Factory, service_in pool_cell (suite_Engine sp))] logLevel)"

section \<open>The routes of the three contracts\<close>

definition contract_named :: "(string \<times> contract) list \<Rightarrow> string \<Rightarrow> contract" where
  "contract_named contracts name = zero_or zero_contract (map_of contracts name)"

definition subEngine_of :: "string \<Rightarrow> subEngineEnum" where
  "subEngine_of name = (if name = Uniswapv3Factory then SubEngineUniswapv3Factory
     else if name = ENSRegistrar \<or> name = ENSController then SubEngineENS else SubEngineInvalid)"

definition event_of :: "contract \<Rightarrow> eth_log \<Rightarrow> bool" where
  "event_of c log \<longleftrightarrow> log_Address log = con_Address c \<and> hd (log_Topics log) \<in> fst ` set (con_Events c)"

text \<open>The topics a sub-engine takes from a contract's address.\<close>

definition route_topics :: "routes \<Rightarrow> subEngineEnum \<Rightarrow> address \<Rightarrow> hash list option" where
  "route_topics rs s a = map_of (zero_or [] (map_of rs s)) a"

definition routes_wf :: "routes \<Rightarrow> bool" where
  "routes_wf rs \<longleftrightarrow> distinct (map fst rs) \<and> (\<forall>s. distinct (map fst (zero_or [] (map_of rs s))))"

lemma routed_to_topics:
  assumes "routes_wf rs"
  shows "routed_to rs s log \<longleftrightarrow> (\<exists>ts. route_topics rs s (log_Address log) = Some ts \<and> hd (log_Topics log) \<in> set ts)"
proof (cases "map_of rs s")
  case (Some cs)
  then have "distinct (map fst cs)" using assms by (metis option.simps(5) routes_wf_def zero_or_def)
  then show ?thesis using Some by (auto simp: routed_to_def route_topics_def zero_or_def list_ex_iff map_of_eq_Some_iff)
qed (simp add: routed_to_def route_topics_def zero_or_def)

lemma add_contract_simps:
  "ss_registrar (add_contract V d ll name c st) = (if name = ENSRegistrar then c else ss_registrar st)"
  "ss_controller (add_contract V d ll name c st) = (if name = ENSController then c else ss_controller st)"
  "ss_addresses (add_contract V d ll name c st) = ss_addresses st @ [con_Address c]"
  "map_of (ss_services (add_contract V d ll name c st)) s =
     (if name = Uniswapv3Factory \<and> s = SubEngineUniswapv3Factory
      then Some (service_in pool_cell (pool_service (eth_conv.truncate V) (pool_New c d ll))) else map_of (ss_services st) s)"
  "ss_routes (add_contract V d ll name c st) =
     AList.update (subEngine_of name) (AList.update (con_Address c) (map fst (con_Events c)) (zero_or [] (map_of (ss_routes st) (subEngine_of name)))) (ss_routes st)"
  by (simp_all add: add_contract_def Let_def subEngine_of_def update_conv' contract_names)

lemma add_contract_routes:
  assumes "routes_wf (ss_routes st)"
  shows "routes_wf (ss_routes (add_contract V d ll name c st))"
    "route_topics (ss_routes (add_contract V d ll name c st)) s a =
      (if s = subEngine_of name \<and> a = con_Address c then Some (map fst (con_Events c)) else route_topics (ss_routes st) s a)"
  using assms by (auto simp: add_contract_simps routes_wf_def route_topics_def update_conv' distinct_update zero_or_def split: option.splits)

text \<open>What the loop has built after any number of contracts with addresses of their own.\<close>

lemma contracts_loop:
  assumes "distinct names" "inj_on (\<lambda>n. con_Address (C n)) (set names)"
    "st = fold (\<lambda>n. add_contract V d ll n (C n)) names
      \<lparr>ss_routes = [], ss_services = [], ss_registrar = zero_contract, ss_controller = zero_contract, ss_addresses = []\<rparr>"
  shows "routes_wf (ss_routes st)"
    "route_topics (ss_routes st) s a = Some ts \<longleftrightarrow>
      (\<exists>n\<in>set names. s = subEngine_of n \<and> a = con_Address (C n) \<and> ts = map fst (con_Events (C n)))"
    "map_of (ss_services st) s = (if s = SubEngineUniswapv3Factory \<and> Uniswapv3Factory \<in> set names
      then Some (service_in pool_cell (pool_service (eth_conv.truncate V) (pool_New (C Uniswapv3Factory) d ll))) else None)"
    "ss_registrar st = (if ENSRegistrar \<in> set names then C ENSRegistrar else zero_contract)"
    "ss_controller st = (if ENSController \<in> set names then C ENSController else zero_contract)"
    "ss_addresses st = map (\<lambda>n. con_Address (C n)) names"
  using assms(1,2) unfolding assms(3)
proof (induction names rule: rev_induct)
  case Nil
  { case 1 then show ?case by (simp add: routes_wf_def zero_or_def)
  next case 2 then show ?case by (simp add: route_topics_def zero_or_def)
  next case 3 then show ?case by simp
  next case 4 then show ?case by simp
  next case 5 then show ?case by simp
  next case 6 then show ?case by simp }
next
  case (snoc n names)
  have inj: "inj_on (\<lambda>n. con_Address (C n)) (set names)" if "inj_on (\<lambda>n. con_Address (C n)) (set (names @ [n]))"
    using that by (auto intro: inj_on_subset)
  { case 1 then show ?case using add_contract_routes(1) [OF snoc.IH(1)] inj by simp
  next case 2
    then have "con_Address (C n') \<noteq> con_Address (C n)" if "n' \<in> set names" for n' using that by (auto simp: inj_on_def)
    then show ?case using 2 add_contract_routes(2) [OF snoc.IH(1)] snoc.IH(2) inj by auto
  next case 3 then show ?case using snoc.IH(3) inj by (auto simp: add_contract_simps)
  next case 4 then show ?case using snoc.IH(4) inj by (auto simp: add_contract_simps)
  next case 5 then show ?case using snoc.IH(5) inj by (auto simp: add_contract_simps)
  next case 6 then show ?case using snoc.IH(6) inj by (auto simp: add_contract_simps) }
qed

text \<open>The router \<open>main\<close> runs, with its parts.\<close>

definition main_contracts :: "string list" where
  "main_contracts = [Uniswapv3Factory, ENSRegistrar, ENSController]"

definition contracts_ok :: "string list \<Rightarrow> (string \<times> contract) list \<Rightarrow> bool" where
  "contracts_ok order contracts \<longleftrightarrow> distinct order \<and> set order = set main_contracts \<and>
     distinct (map (\<lambda>n. con_Address (contract_named contracts n)) main_contracts)"

lemma contracts_ok_inj: "contracts_ok order contracts \<Longrightarrow> inj_on (\<lambda>n. con_Address (contract_named contracts n)) (set order)"
  by (auto simp: contracts_ok_def main_contracts_def inj_on_def)

lemma main_router_parts:
  assumes "contracts_ok order contracts" "e = main_router V dgwENS dgwPool order contracts ll" "C = contract_named contracts"
  shows "distinct (map fst (Routes e))"
    "routed_to (Routes e) s log \<longleftrightarrow> (\<exists>n\<in>set main_contracts. s = subEngine_of n \<and> event_of (C n) log)"
    "map_of (Services e) SubEngineENS = Some (service_in ens_cell (ens_service V (ens_New (C ENSRegistrar) (C ENSController) dgwENS ll)))"
    "map_of (Services e) SubEngineUniswapv3Factory = Some (service_in pool_cell (pool_service (eth_conv.truncate V) (pool_New (C Uniswapv3Factory) dgwPool ll)))"
proof -
  let ?st = "fold (\<lambda>n. add_contract V dgwPool ll n (C n)) order
    \<lparr>ss_routes = [], ss_services = [], ss_registrar = zero_contract, ss_controller = zero_contract, ss_addresses = []\<rparr>"
  have d: "distinct order" and o: "set order = set main_contracts" using assms(1) by (simp_all add: contracts_ok_def)
  note loop = contracts_loop [OF d contracts_ok_inj [OF assms(1)] refl, folded assms(3), where V = V and d = dgwPool and ll = ll]
  have e: "Routes e = ss_routes ?st" "Services e = AList.update SubEngineENS
      (service_in ens_cell (ens_service V (ens_New (ss_registrar ?st) (ss_controller ?st) dgwENS ll))) (ss_services ?st)"
    by (simp_all add: assms(2,3) main_router_def contractsToServices_def Let_def router_New_def contract_named_def)
  show "distinct (map fst (Routes e))" using loop(1) by (simp add: e routes_wf_def)
  show "routed_to (Routes e) s log \<longleftrightarrow> (\<exists>n\<in>set main_contracts. s = subEngine_of n \<and> event_of (C n) log)"
    unfolding e routed_to_topics [OF loop(1)] loop(2) o event_of_def by (metis set_map)
  show "map_of (Services e) SubEngineENS = Some (service_in ens_cell (ens_service V (ens_New (C ENSRegistrar) (C ENSController) dgwENS ll)))"
    unfolding e by (simp add: update_conv' loop(4,5) o main_contracts_def)
  show "map_of (Services e) SubEngineUniswapv3Factory = Some (service_in pool_cell (pool_service (eth_conv.truncate V) (pool_New (C Uniswapv3Factory) dgwPool ll)))"
    unfolding e by (simp add: update_conv' loop(3) o main_contracts_def subengine_defs)
qed

lemma event_of_one:
  assumes "contracts_ok order contracts" "n \<in> set main_contracts" "n' \<in> set main_contracts"
    "event_of (contract_named contracts n) log" "event_of (contract_named contracts n') log"
  shows "n = n'"
  using assms contracts_ok_inj [OF assms(1)] by (metis contracts_ok_def event_of_def inj_on_def)

lemma main_router_routing:
  assumes "contracts_ok order contracts" "lib_spec L" "orders_ok ord"
  shows "routing L ord (main_router V dgwENS dgwPool order contracts ll)"
proof (intro routing.intro assms(2,3))
  show "unambiguous (Routes (main_router V dgwENS dgwPool order contracts ll))"
    unfolding unambiguous_def main_router_parts(2) [OF assms(1) refl refl] using event_of_one [OF assms(1)] by blast
qed (rule main_router_parts(1) [OF assms(1) refl refl])


text \<open>The contracts of the table are as the router needs them, when \<open>NewContract\<close> reads three different addresses.\<close>

lemma DemoContracts_named:
  "n \<in> set main_contracts \<Longrightarrow> contract_named (DemoContracts newContract A main_contracts) n =
    newContract n (the (map_of (contractABIsMap A) n)) (the (map_of contractAddressesMap n)) (the (map_of contractTopicsMap n))"
  by (auto simp: main_contracts_def contract_named_def DemoContracts_def contractABIsMap_def contractAddressesMap_def contractTopicsMap_def zero_or_def
      update_conv' contract_names)

lemma DemoContracts_ok:
  assumes "\<And>n abi a ts. con_Address (newContract n abi a ts) = hexToAddress a"
    "distinct (map hexToAddress [Uniswapv3FactoryAddr, ENSRegistrarAddr, ENSControllerAddr])" "distinct order" "set order = set main_contracts"
  shows "contracts_ok order (DemoContracts newContract A main_contracts)"
proof -
  have "map (\<lambda>n. con_Address (contract_named (DemoContracts newContract A main_contracts) n)) main_contracts =
      map hexToAddress [Uniswapv3FactoryAddr, ENSRegistrarAddr, ENSControllerAddr]"
    by (simp add: DemoContracts_named assms(1) cong: map_cong) (simp add: main_contracts_def contractAddressesMap_def contract_names)
  then show ?thesis using assms(2-4) by (simp add: contracts_ok_def)
qed

text \<open>Three contracts in one order of the range, over one Redis database.\<close>

definition sample_contracts :: "(string \<times> contract) list" where
  "sample_contracts = [(Uniswapv3Factory, pool_contract), (ENSRegistrar, registrar_contract), (ENSController, controller_contract)]"

definition sample_order :: "string list" where
  "sample_order = [ENSController, Uniswapv3Factory, ENSRegistrar]"

lemma sample_contracts_ok: "contracts_ok sample_order sample_contracts"
  by (auto simp: contracts_ok_def sample_order_def main_contracts_def sample_contracts_def contract_named_def zero_or_def contract_names
      pool_contract_def registrar_contract_def controller_contract_def)

lemma sample_named: "contract_named sample_contracts Uniswapv3Factory = pool_contract"
    "contract_named sample_contracts ENSRegistrar = registrar_contract" "contract_named sample_contracts ENSController = controller_contract"
  by (simp_all add: sample_contracts_def contract_named_def zero_or_def contract_names)

definition sample_router :: "(ENSArtifact demo_artifact, ((string \<times> string) \<times> string) list demo_world) routerEngine" where
  "sample_router = main_router dec_conv (redis_ens_repository (NewEnsDataGateway list_hashes ens_codec))
     (redis_pool_repository pool_conv (NewDataGatewayPoolFactory list_hashes pool_codec)) sample_order sample_contracts 0"


section \<open>Names through the router\<close>

lemma distinct_singleton: "distinct xs \<Longrightarrow> set xs = {x} \<Longrightarrow> xs = [x]"
  by (cases xs; cases "tl xs") auto

context routing
begin

text \<open>A block with logs of one sub-engine only.\<close>

lemma one_subengine:
  assumes "\<forall>l\<in>set (Logs b). log_Topics l \<noteq> [] \<and> (\<forall>s'. routed_to (Routes e) s' l \<longrightarrow> s' = s)" "\<exists>l\<in>set (Logs b). routed_to (Routes e) s l"
  obtains m where "mapBlocksToSubEngine L ord e [b] = Ret m" "mo_blocks ord (map fst m) = [s]"
    "map_of m s = Some [sub_block b (filter (routed_to (Routes e) s) (Logs b))]"
proof -
  have "\<forall>b\<in>set [b]. \<forall>l\<in>set (Logs b). log_Topics l \<noteq> []" using assms(1) by simp
  from mapBlocks_Ret [OF this] obtain m where m: "mapBlocksToSubEngine L ord e [b] = Ret m" "slices_ok m" "\<And>s. entries m s = blocks_for (Routes e) s [b]"
    by blast
  have "entries m s' \<noteq> [] \<longleftrightarrow> s' = s" for s' using assms by (auto simp: m(3) blocks_for_def list_ex_iff)
  then have "set (mo_blocks ord (map fst m)) = {s}" "distinct (mo_blocks ord (map fst m))"
    using slices_keys [OF m(2)] orders m(2) by (auto simp: orders_ok_def slices_ok_def)
  then have "mo_blocks ord (map fst m) = [s]" by (simp add: distinct_singleton)
  moreover have "entries m s = [sub_block b (filter (routed_to (Routes e) s) (Logs b))]"
    using assms(2) by (auto simp: m(3) blocks_for_def list_ex_iff)
  ultimately show ?thesis using that m(1) by (auto simp: entries_def split: option.splits)
qed

lemma one_service:
  assumes "\<forall>l\<in>set (Logs b). log_Topics l \<noteq> [] \<and> (\<forall>s'. routed_to (Routes e) s' l \<longrightarrow> s' = s)" "\<exists>l\<in>set (Logs b). routed_to (Routes e) s l"
    "map_of (Services e) s = Some svc" "list_all (\<lambda>x. kind x = Some s) (concat xss)"
  defines "b' \<equiv> sub_block b (filter (routed_to (Routes e) s) (Logs b))"
  shows "HandleGoodBlocks svc [b'] (map Leaf (concat xss)) w = Ret ((res, None), w1) \<Longrightarrow>
      router_HandleGoodBlocks L ord kind e [b] (bundles xss) w = Ret ((res, None), w1)"
    "HandleReorgedBlocks svc [b'] (map Leaf (concat xss)) w = Ret ((res, None), w1) \<Longrightarrow>
      router_HandleReorgedBlocks L ord kind e [b] (bundles xss) w = Ret ((res, None), w1)"
proof -
  obtain m where m: "mapBlocksToSubEngine L ord e [b] = Ret m" "mo_blocks ord (map fst m) = [s]" "map_of m s = Some [b']"
    using one_subengine [OF assms(1,2)] unfolding b'_def by blast
  have "list_all (\<lambda>x. kind x \<noteq> None) (concat xss)" using assms(4) by (auto simp: list_all_iff)
  moreover have "filter (\<lambda>x. kind x = Some s) (concat xss) = concat xss" using assms(4) by (simp add: list_all_iff filter_id_conv)
  ultimately have f: "filterArtifacts kind s (bundles xss) = Ret (map Leaf (concat xss))" by (simp add: filterArtifacts_Ret own_def)
  show "router_HandleGoodBlocks L ord kind e [b] (bundles xss) w = Ret ((res, None), w1)"
    if "HandleGoodBlocks svc [b'] (map Leaf (concat xss)) w = Ret ((res, None), w1)"
    using that by (simp add: router_HandleGoodBlocks_def m assms(3) f mergeArtifacts_def fun_eq_iff)
  show "router_HandleReorgedBlocks L ord kind e [b] (bundles xss) w = Ret ((res, None), w1)"
    if "HandleReorgedBlocks svc [b'] (map Leaf (concat xss)) w = Ret ((res, None), w1)"
    using that by (simp add: router_HandleReorgedBlocks_def m assms(3) f mergeArtifacts_def fun_eq_iff)
qed

end

lemma ens_cell_get_put [simp]: "cell_get ens_cell (cell_put ens_cell x w) = x"
  by (cases x) (simp add: ens_cell_def)

lemma ens_cell_db [simp]: "ew_db (cell_get ens_cell w) = dw_redis w" "dw_redis (cell_put ens_cell x w) = ew_db x"
    "dw_poolMaps (cell_put ens_cell x w) = dw_poolMaps w"
  by (simp_all add: ens_cell_def)

definition main_kind :: "ENSArtifact demo_artifact \<Rightarrow> subEngineEnum option" where
  "main_kind = ForSubEngine (\<lambda>a. Some (ens_ForSubEngine a))"


text \<open>A registration with a log of nobody between its two logs.\<close>

definition names_block :: block where
  "names_block = (ens_block [])\<lparr>Logs := [fst (ens_logs 1 11 101), demo_log 99 7, snd (ens_logs 1 11 101)]\<rparr>"


section \<open>The watcher of main\<close>

text \<open>
  \<open>main\<close> passes no \<open>WithFilterRange\<close>, so the poller of its watcher has the filter range 0, with which no poller
  remembers a block or reports a reorg, although the emitter uses the configured range.
\<close>

lemma main_watcher_range:
  assumes "main_watcher lf S T L c cfg cl gateway svc sch rch ech as ts = Ret (p, spw)"
  shows "filterRange p = 0"
  using options_watcher(3) [OF assms [unfolded main_watcher_def]]
  by (simp add: apply_options_def WithConfig_def WithEthClient_def WithAddresses_def WithTopics_def
        WithGetStateDataGateway_def WithSetStateDataGateway_def WithServiceEngine_def WithSyncChan_def WithFilterResultChan_def WithErrChan_def
        zero_componentConfig_def)

lemma demo_main_blind:
  assumes "demo_main lf S T L ord order V newContract A kind pcell dcell rdb newEthClient sch rch ech readConfig = Ret (p, spw)"
  shows "filterRange p = 0"
  using assms by (auto simp: demo_main_def Let_def split: sum.splits if_splits option.splits prod.splits dest: main_watcher_range)

lemma main_watcher_blind:
  assumes "poller_env S ss_map ss_ok L" "main_watcher lf S T L c cfg cl gateway svc sch rch ech as ts = Ret (p0, spw)"
    "poll_run S L p rs" "filterRange p = filterRange p0" "small_reports rs"
  shows "list_all (\<lambda>r. ReorgedBlocks r = []) rs"
  using poller_env.no_range_run [OF assms(1,3) _ assms(5)] main_watcher_range [OF assms(2)] assms(4) by simp

end
