(* ===== verification/Service_Run.thy ===== *)
theory Service_Run
  imports Demo_Wiring
begin

text \<open>
  \<open>RunService\<close> (\<open>pkg/servicetest/servicetest.go\<close>), which runs an emitter and an engine against the chain
  simulator, and \<open>Run\<close> of the superWatcher: their goroutines and the caller, as step relations that interleave
  their rounds. A round is a step
  of the functions that model the loops; it is enabled when the function returns, so a receive that has nothing
  to wait for and a panic are no steps. The channels act on the world, and nothing is assumed of them.
\<close>

section \<open>The goroutines\<close>

text \<open>
  The caller is in the engine's \<open>Loop\<close>, whose inline part is \<open>handleEmitterError\<close>, or waits for the emitter's
  goroutine, or has returned. A goroutine that has ended is \<open>None\<close>.
\<close>

datatype caller_phase = InEngineLoop | InWait | Returned err

record ('t, 'a, 'w) run_state =
  rs_caller :: caller_phase
  rs_emitter :: "emitter_phase option"
  rs_results :: "('t, 'a, 'w) engine option"
  rs_setHeader :: bool
  rs_retErr :: err
  rs_cancelled :: bool
  rs_world :: 'w

definition run_start :: "('t, 'a, 'w) engine \<Rightarrow> 'w \<Rightarrow> ('t, 'a, 'w) run_state" where
  "run_start engine w = \<lparr>rs_caller = InEngineLoop, rs_emitter = Some Loop_start, rs_results = Some engine, rs_setHeader = False,
     rs_retErr = None, rs_cancelled = False, rs_world = w\<rparr>"

text \<open>The context \<open>RunService\<close> makes, which is done once it is cancelled.\<close>

definition run_ctx :: "('t, 'a, 'w) run_state \<Rightarrow> 'w go_context" where
  "run_ctx s = \<lparr>ctx_Done = (\<lambda>_. rs_cancelled s), ctx_Err = ErrNew ''context canceled''\<rparr>"

text \<open>The inline part of \<open>engine.Loop\<close>: a round of the loop over the emitter's errors.\<close>

definition engine_error_round :: "('t, 'a, 'w) engine \<Rightarrow> 'w \<Rightarrow> ((err \<times> 'w) + 'w) go" where
  "engine_error_round engine w = HandleEmitterError_round (eng_client engine) (svc_HandleEmitterError (serviceEngine engine)) w"

inductive RunService_step ::
    "('t, nat) sortedset \<Rightarrow> lib \<Rightarrow> 'w emitter \<Rightarrow> ('t, 'a, 'w) engine \<Rightarrow> ('t, 'a, 'w) run_state \<Rightarrow> ('t, 'a, 'w) run_state \<Rightarrow> bool"
  for T L emitter engine where
  set_header: "\<not> rs_setHeader s \<Longrightarrow>
    RunService_step T L emitter engine s (s\<lparr>rs_setHeader := True, rs_world := ep_SetDoHeader (emitter_Poller emitter) False (rs_world s)\<rparr>)"
| emit: "rs_emitter s = Some ph \<Longrightarrow> Loop_step L emitter (run_ctx s) (ph, rs_world s) = Ret (ph', w') \<Longrightarrow>
    RunService_step T L emitter engine s (s\<lparr>rs_emitter := Some ph', rs_world := w'\<rparr>)"
| emitter_exit: "rs_emitter s = Some (Stopped x) \<Longrightarrow> errors_Is x ErrExitBlockReached \<Longrightarrow> Shutdown emitter (rs_world s) = Ret w' \<Longrightarrow>
    RunService_step T L emitter engine s (s\<lparr>rs_emitter := None, rs_cancelled := True, rs_world := w'\<rparr>)"
| emitter_err: "rs_emitter s = Some (Stopped x) \<Longrightarrow> \<not> errors_Is x ErrExitBlockReached \<Longrightarrow>
    RunService_step T L emitter engine s (s\<lparr>rs_emitter := None, rs_retErr := Some x\<rparr>)"
| result: "rs_results s = Some e \<Longrightarrow> handleResults_round T L e (rs_world s) = Ret ((None, e'), w') \<Longrightarrow>
    RunService_step T L emitter engine s (s\<lparr>rs_results := Some e', rs_world := w'\<rparr>)"
| results_end: "rs_results s = Some e \<Longrightarrow> handleResults_round T L e (rs_world s) = Ret ((Some er, e'), w1) \<Longrightarrow> engine_shutdown e' w1 = Ret w' \<Longrightarrow>
    RunService_step T L emitter engine s (s\<lparr>rs_results := None, rs_world := w'\<rparr>)"
| error_handled: "rs_caller s = InEngineLoop \<Longrightarrow> engine_error_round engine (rs_world s) = Ret (Inr w') \<Longrightarrow>
    RunService_step T L emitter engine s (s\<lparr>rs_world := w'\<rparr>)"
| engine_exit: "rs_caller s = InEngineLoop \<Longrightarrow> engine_error_round engine (rs_world s) = Ret (Inl (Some x, w')) \<Longrightarrow>
    errors_Is x ErrExitBlockReached \<Longrightarrow> RunService_step T L emitter engine s (s\<lparr>rs_caller := Returned None, rs_world := w'\<rparr>)"
| engine_err: "rs_caller s = InEngineLoop \<Longrightarrow> engine_error_round engine (rs_world s) = Ret (Inl (Some x, w')) \<Longrightarrow>
    \<not> errors_Is x ErrExitBlockReached \<Longrightarrow> RunService_step T L emitter engine s (s\<lparr>rs_caller := InWait, rs_retErr := Some x, rs_world := w'\<rparr>)"
| engine_closed: "rs_caller s = InEngineLoop \<Longrightarrow> engine_error_round engine (rs_world s) = Ret (Inl (None, w')) \<Longrightarrow>
    RunService_step T L emitter engine s (s\<lparr>rs_caller := InWait, rs_world := w'\<rparr>)"
| waited: "rs_caller s = InWait \<Longrightarrow> rs_emitter s = None \<Longrightarrow>
    RunService_step T L emitter engine s (s\<lparr>rs_caller := Returned (rs_retErr s)\<rparr>)"

inductive_cases RunService_stepE: "RunService_step T L emitter engine s s'"

abbreviation RunService_run where
  "RunService_run T L emitter engine \<equiv> (RunService_step T L emitter engine)\<^sup>*\<^sup>*"

section \<open>What it returns\<close>

text \<open>The emitter's loop leaves only through the context.\<close>

lemma Loop_step_goes_on:
  assumes "Loop_step L e ctx (ph, w) = Ret (ph', w')" "\<not> ctx_Done ctx w" "\<forall>x. ph \<noteq> Stopped x"
  shows "\<forall>x. ph' \<noteq> Stopped x"
  using assms by (cases ph) (auto simp: Loop_step_def go_bind_Ret_iff split: option.splits)

definition emitter_alive :: "('t, 'a, 'w) run_state \<Rightarrow> bool" where
  "emitter_alive s \<longleftrightarrow> \<not> rs_cancelled s \<and> (\<exists>ph. rs_emitter s = Some ph \<and> (\<forall>x. ph \<noteq> Stopped x))"

lemma alive_start [simp]: "emitter_alive (run_start engine w)"
  by (simp add: emitter_alive_def run_start_def Loop_start_def)

lemma alive_step: "RunService_step T L emitter engine s s' \<Longrightarrow> emitter_alive s \<Longrightarrow> emitter_alive s'"
  by (induction rule: RunService_step.induct) (auto simp: emitter_alive_def run_ctx_def dest: Loop_step_goes_on)

lemma alive_run: "RunService_run T L emitter engine s s' \<Longrightarrow> emitter_alive s \<Longrightarrow> emitter_alive s'"
  by (induction rule: rtranclp_induct) (auto intro: alive_step)

lemma alive_caller:
  assumes "RunService_step T L emitter engine s s'" "emitter_alive s"
  shows "rs_caller s = InEngineLoop \<longrightarrow> (\<forall>r. rs_caller s' = Returned r \<longrightarrow> r = None)" "rs_caller s \<noteq> InEngineLoop \<longrightarrow> rs_caller s' = rs_caller s"
  using assms by (auto simp: emitter_alive_def elim!: RunService_stepE)

lemma caller_stays:
  assumes "RunService_run T L emitter engine s s'" "emitter_alive s" "rs_caller s \<noteq> InEngineLoop"
  shows "rs_caller s' = rs_caller s"
  using assms
proof (induction rule: rtranclp_induct)
  case (step s1 s2)
  then show ?case using alive_caller(2) [OF step.hyps(2)] alive_run [OF step.hyps(1)] by metis
qed simp

text \<open>
  C32. \<open>RunService\<close> never returns an error. It returns nil when the service passes the simulator's exit error on. When
  the service returns any other error, or the channel of errors is closed, it waits for the emitter's goroutine, which only
  a cancelled context ends, and only that goroutine cancels the context: the error is never returned. In no state
  of any run has the emitter's goroutine ended.
\<close>

theorem RunService_never_fails:
  assumes "RunService_run T L emitter engine (run_start engine w) s"
  shows "rs_emitter s \<noteq> None \<and> (rs_caller s = Returned r \<longrightarrow> r = None) \<and>
    (rs_caller s = InWait \<longrightarrow> (\<forall>s'. RunService_run T L emitter engine s s' \<longrightarrow> rs_caller s' = InWait))"
proof -
  have alive: "emitter_alive s" using alive_run [OF assms] by simp
  have "rs_caller s = Returned r \<longrightarrow> r = None" using assms
  proof (induction rule: rtranclp_induct)
    case (step s1 s2)
    then show ?case using alive_caller [OF step.hyps(2)] alive_run [OF step.hyps(1) alive_start] by metis
  qed (simp add: run_start_def)
  moreover have "rs_emitter s \<noteq> None" using alive by (auto simp: emitter_alive_def)
  moreover have "rs_caller s' = InWait" if "rs_caller s = InWait" "RunService_run T L emitter engine s s'" for s'
    using caller_stays [OF that(2) alive] that(1) by simp
  ultimately show ?thesis by blast
qed

text \<open>
  The components of a test at the simulator's exit block, with a service that answers every error with one of its own. The
  world has the gateway, the simulator and the queue of errors; the poller is not reached.
\<close>

type_synonym test_world = "fakeRedisMem \<times> ReorgSim \<times> go_error list"

definition err_queue :: "(go_error, test_world) gochan" where
  "err_queue = \<lparr>gc_send = (\<lambda>x (g, r, es). Ret (g, r, es @ [x])),
     gc_recv = (\<lambda>(g, r, es). case es of [] \<Rightarrow> Hang | x # xs \<Rightarrow> Ret (Some x, (g, r, xs))), gc_close = Ret\<rparr>"

definition idle_chan :: "('x, test_world) gochan" where
  "idle_chan = \<lparr>gc_send = (\<lambda>_ _. Hang), gc_recv = (\<lambda>_. Hang), gc_close = Ret\<rparr>"

definition sim_cell :: "(test_world, ReorgSim) cell" where
  "sim_cell = \<lparr>cell_get = (\<lambda>(g, r, es). r), cell_put = (\<lambda>r (g, _, es). (g, r, es))\<rparr>"

definition mem_cell :: "(test_world, fakeRedisMem) cell" where
  "mem_cell = \<lparr>cell_get = (\<lambda>(g, r, es). g), cell_put = (\<lambda>g (_, r, es). (g, r, es))\<rparr>"

definition exit_sim :: ReorgSim where
  "exit_sim = \<lparr>param = \<lparr>prm_StartBlock = 5, BlockProgress = 1, ExitBlock = 9, prm_Debug = False\<rparr>, events = [], currentReorgEvent = 0,
     triggered = -1, sim_forked = -1, currentChain = [], reorgedChains = [], currentBlock = 9, sim_store = []\<rparr>"

definition test_components :: "(go_error \<Rightarrow> err) \<Rightarrow> (unit, test_world) TestComponents" where
  "test_components h = \<lparr>tc_conf = DefaultServiceTestConfig 5 0 PolicyNormal, tc_client = exit_sim,
     tc_serviceEngine = \<lparr>HandleGoodBlocks = (\<lambda>_ _ w. Ret ((\<lambda>_. [], None), w)), HandleReorgedBlocks = (\<lambda>_ _ w. Ret ((\<lambda>_. [], None), w)),
       svc_HandleEmitterError = (\<lambda>x w. Ret (h x, w))\<rparr>,
     tc_dataGateway = NewDataGatewayMem 5 True\<rparr>"

definition test_cell :: "(test_world, (block ss_node list, test_world) poller) cell" where
  "test_cell = \<lparr>cell_get = (\<lambda>_. NewPoller list_ss None None True True 10 (client_in sim_cell (sim_client std_lib)) PolicyNormal), cell_put = (\<lambda>_ w. w)\<rparr>"

definition test_parts where
  "test_parts h = service_test_components True list_ss (list_ss :: (nat ss_node list, nat) sortedset) std_lib test_cell sim_cell mem_cell idle_chan idle_chan err_queue (test_components h)"

definition test_emitter where "test_emitter h = snd (fst (test_parts h))"
definition test_engine where "test_engine h = snd (test_parts h)"

definition exit_error :: go_error where
  "exit_error = ErrWrap (ErrWrap (ErrWrap (ErrWrap ErrExitBlockReached ''exit block %d reached'') ''failed to get current block number from node'')
     ''emitter failed to compute fromBlock and toBlock'') ''error in loopEmit''"

lemmas test_defs = test_emitter_def test_engine_def test_parts_def service_test_components_def NewDefault_def NewEmitterWithPoller_def
  NewEngineWithEmitterClient_def NewEmitter_def NewEngine_def NewEmitterClient_def emitter_New_def engine_New_def emitterclient_New_def
  test_components_def

abbreviation test_start :: test_world where
  "test_start \<equiv> (NewDataGatewayMem 5 True, exit_sim, [])"

lemma test_emit:
  "\<not> ctx_Done ctx test_start \<Longrightarrow> Loop_step L (test_emitter h) ctx (InEmit \<lparr>outer = s, local_status = None\<rparr>, test_start) =
    Ret (AtLoop s, (NewDataGatewayMem 5 True, exit_sim, [exit_error]))"
  by (simp add: Loop_step_def loopEmit_round_def emitter_computeFromBlockToBlock_def test_defs in_cell_def mem_GetLastRecordedBlock_def NewDataGatewayMem_def
      client_in_def sim_client_def sim_BlockNumber_def exit_sim_def sim_cell_def mem_cell_def status_def write_status_def emitError_def send_end_def err_queue_def
      exit_error_def Let_def error_defs ErrExitBlockReached_def errNoNewBlock_def)

lemma test_error:
  "engine_error_round (test_engine h) (g, r, [x]) =
    Ret (case h x of None \<Rightarrow> Inr (g, r, []) | Some y \<Rightarrow> Inl (Some (ErrWrap y ''serviceEngine.HandleEmitterError returned non-nil error''), (g, r, [])))"
  by (simp add: engine_error_round_def HandleEmitterError_round_def WatcherError_def test_defs recv_end_def err_queue_def split: option.split)

lemma test_run:
  assumes "h exit_error = Some y"
  shows "\<exists>s. RunService_run T L (test_emitter h) (test_engine h) (run_start (test_engine h) test_start) s \<and>
    rs_caller s = (if errors_Is y ErrExitBlockReached then Returned None else InWait)"
proof -
  let ?step = "RunService_step T L (test_emitter h) (test_engine h)" and ?s0 = "run_start (test_engine h) test_start"
  let ?s1 = "?s0\<lparr>rs_emitter := Some (InEmit \<lparr>outer = zero_status\<lparr>GoBackFirstStart := True\<rparr>, local_status = None\<rparr>), rs_world := test_start\<rparr>"
  let ?w2 = "(NewDataGatewayMem 5 True, exit_sim, [exit_error])"
  let ?s2 = "?s1\<lparr>rs_emitter := Some (AtLoop (zero_status\<lparr>GoBackFirstStart := True\<rparr>)), rs_world := ?w2\<rparr>"
  let ?e = "Some (ErrWrap y ''serviceEngine.HandleEmitterError returned non-nil error'')"
  have "?step ?s0 ?s1" by (rule emit [where ph = Loop_start]) (simp_all add: run_start_def Loop_start_def Loop_step_def run_ctx_def)
  moreover have "?step ?s1 ?s2" by (rule emit [where ph = "InEmit \<lparr>outer = zero_status\<lparr>GoBackFirstStart := True\<rparr>, local_status = None\<rparr>"]) (simp_all add: run_start_def run_ctx_def test_emit)
  moreover have "\<exists>s. ?step ?s2 s \<and> rs_caller s = (if errors_Is y ErrExitBlockReached then Returned None else InWait)"
  proof -
    have c: "rs_caller ?s2 = InEngineLoop" "engine_error_round (test_engine h) (rs_world ?s2) = Ret (Inl (?e, (NewDataGatewayMem 5 True, exit_sim, [])))"
      using assms by (simp_all add: run_start_def test_error)
    show ?thesis
    proof (cases "errors_Is y ErrExitBlockReached")
      case True
      then show ?thesis using engine_exit [OF c] by (intro exI conjI) auto
    next
      case False
      then have "\<not> errors_Is (the ?e) ErrExitBlockReached" by (simp add: ErrExitBlockReached_def)
      then show ?thesis using engine_err [OF c] False by (intro exI conjI) auto
    qed
  qed
  ultimately obtain s where "?step ?s0 ?s1" "?step ?s1 ?s2" "?step ?s2 s" "rs_caller s = (if errors_Is y ErrExitBlockReached then Returned None else InWait)"
    by blast
  then show ?thesis by (intro exI [of _ s]) (simp del: if_split add: converse_rtranclp_into_rtranclp [of ?step ?s0 ?s1] converse_rtranclp_into_rtranclp [of ?step ?s1 ?s2] r_into_rtranclp)
qed

theorem RunService_never_fails_witness:
  "\<exists>s. RunService_run list_ss std_lib (test_emitter (\<lambda>_. Some ErrUserError)) (test_engine (\<lambda>_. Some ErrUserError))
      (run_start (test_engine (\<lambda>_. Some ErrUserError)) test_start) s \<and> rs_caller s = InWait \<and>
    (\<forall>s'. RunService_run list_ss std_lib (test_emitter (\<lambda>_. Some ErrUserError)) (test_engine (\<lambda>_. Some ErrUserError)) s s' \<longrightarrow> rs_caller s' = InWait)"
proof -
  have "\<not> errors_Is ErrUserError ErrExitBlockReached" by (simp add: error_defs ErrExitBlockReached_def)
  then obtain s where s: "RunService_run list_ss std_lib (test_emitter (\<lambda>_. Some ErrUserError)) (test_engine (\<lambda>_. Some ErrUserError))
      (run_start (test_engine (\<lambda>_. Some ErrUserError)) test_start) s" "rs_caller s = InWait"
    using test_run [of "\<lambda>_. Some ErrUserError" ErrUserError list_ss std_lib] by auto
  then show ?thesis using RunService_never_fails [OF s(1), of None] by blast
qed

text \<open>With a service that hands the simulator's error on, it returns nil.\<close>

lemma RunService_exits:
  "\<exists>s. RunService_run T L (test_emitter Some) (test_engine Some) (run_start (test_engine Some) test_start) s \<and> rs_caller s = Returned None"
  using test_run [of Some exit_error T L] by (simp add: exit_error_def error_defs ErrExitBlockReached_def)

section \<open>Run of the superWatcher (superwatcher_impl.go)\<close>

text \<open>
  The same goroutines without the header, under a context the caller may cancel from outside, if \<open>outside\<close> holds. The
  caller returns as soon as the engine's \<open>Loop\<close> does; the wait group is never waited for.
\<close>

record ('t, 'a, 'w) watch_state =
  ws_returned :: "err option"
  ws_emitter :: "emitter_phase option"
  ws_results :: "('t, 'a, 'w) engine option"
  ws_cancelled :: bool
  ws_world :: 'w

definition watch_start :: "('t, 'a, 'w) superWatcher \<Rightarrow> 'w \<Rightarrow> ('t, 'a, 'w) watch_state" where
  "watch_start spw w = \<lparr>ws_returned = None, ws_emitter = Some Loop_start, ws_results = Some (spw_engine spw), ws_cancelled = False, ws_world = w\<rparr>"

definition watch_ctx :: "go_error \<Rightarrow> ('t, 'a, 'w) watch_state \<Rightarrow> 'w go_context" where
  "watch_ctx x s = \<lparr>ctx_Done = (\<lambda>_. ws_cancelled s), ctx_Err = x\<rparr>"

inductive Run_step ::
    "bool \<Rightarrow> ('t, nat) sortedset \<Rightarrow> lib \<Rightarrow> go_error \<Rightarrow> ('t, 'a, 'w) superWatcher \<Rightarrow> ('t, 'a, 'w) watch_state \<Rightarrow> ('t, 'a, 'w) watch_state \<Rightarrow> bool"
  for outside T L canceled spw where
  cancelled_outside: "outside \<Longrightarrow> Run_step outside T L canceled spw s (s\<lparr>ws_cancelled := True\<rparr>)"
| run_emit: "ws_emitter s = Some ph \<Longrightarrow> Loop_step L (spw_emitter spw) (watch_ctx canceled s) (ph, ws_world s) = Ret (ph', w') \<Longrightarrow>
    Run_step outside T L canceled spw s (s\<lparr>ws_emitter := Some ph', ws_world := w'\<rparr>)"
| run_cancel: "ws_emitter s = Some (Stopped x) \<Longrightarrow> Run_step outside T L canceled spw s (s\<lparr>ws_emitter := None, ws_cancelled := True\<rparr>)"
| run_result: "ws_results s = Some e \<Longrightarrow> handleResults_round T L e (ws_world s) = Ret ((None, e'), w') \<Longrightarrow>
    Run_step outside T L canceled spw s (s\<lparr>ws_results := Some e', ws_world := w'\<rparr>)"
| run_results_end: "ws_results s = Some e \<Longrightarrow> handleResults_round T L e (ws_world s) = Ret ((Some er, e'), w1) \<Longrightarrow> engine_shutdown e' w1 = Ret w' \<Longrightarrow>
    Run_step outside T L canceled spw s (s\<lparr>ws_results := None, ws_world := w'\<rparr>)"
| run_error: "ws_returned s = None \<Longrightarrow> engine_error_round (spw_engine spw) (ws_world s) = Ret (Inr w') \<Longrightarrow>
    Run_step outside T L canceled spw s (s\<lparr>ws_world := w'\<rparr>)"
| run_return: "ws_returned s = None \<Longrightarrow> engine_error_round (spw_engine spw) (ws_world s) = Ret (Inl (er, w')) \<Longrightarrow>
    Run_step outside T L canceled spw s (s\<lparr>ws_returned := Some (errors_Wrap er ''engine.Loop exited''), ws_world := w'\<rparr>)"

text \<open>
  The emitter's goroutine ends only under a cancelled context, so its own \<open>cancel\<close> comes too late: when nobody else
  cancels, the goroutine outlives \<open>Run\<close>, which may have returned the engine's error long before.
\<close>

lemma Run_emitter_outlives:
  assumes "(Run_step outside T L canceled spw)\<^sup>*\<^sup>* (watch_start spw w) s"
  shows "(ws_cancelled s \<longrightarrow> outside) \<and> ((\<exists>ph. ws_emitter s = Some ph \<and> (\<forall>x. ph \<noteq> Stopped x)) \<or> ws_cancelled s)"
  using assms
proof (induction rule: rtranclp_induct)
  case base
  then show ?case by (simp add: watch_start_def Loop_start_def)
next
  case (step s1 s2)
  from step.hyps(2) step.IH show ?case
    by (induction rule: Run_step.induct) (auto simp: watch_ctx_def dest: Loop_step_goes_on)
qed

end
