(* ===== verification/Easy_Watcher.thy ===== *)
theory Easy_Watcher
  imports Components Mock
begin

text \<open>
  Two small users of the library: the example \<open>examples/easywatcher/cmd/main.go\<close>, a service for the thin engine that
  only records how far the watcher came, and the helpers with which the tests choose their cases
  (\<open>pkg/testutils\<close>). Printing is not modelled.
\<close>

section \<open>The service of the example (main.go)\<close>

record 'w easy_service =
  es_dataGateway :: "u64 \<Rightarrow> 'w \<Rightarrow> (err \<times> 'w) go"

text \<open>The first line printed reads the result, so a nil result panics.\<close>

definition easy_HandleFilterResult :: "'w easy_service \<Rightarrow> poller_result option \<Rightarrow> 'w \<Rightarrow> (err \<times> 'w) go" where
  "easy_HandleFilterResult s result w =
     (case result of
        None \<Rightarrow> nil_call
      | Some r \<Rightarrow> go_bind (es_dataGateway s (res_LastGoodBlock r) w) (\<lambda>(er, w1). Ret (errors_Wrap er ''failed to set lastRecordedBlock: %s'', w1)))"

definition easy_HandleEmitterError :: "go_error \<Rightarrow> 'w \<Rightarrow> (err \<times> 'w) go" where
  "easy_HandleEmitterError x w = Ret (Some x, w)"

definition easy_thin_service :: "'w easy_service \<Rightarrow> 'w thin_service" where
  "easy_thin_service s = \<lparr>HandleFilterResult = easy_HandleFilterResult s, thin_HandleEmitterError = easy_HandleEmitterError\<rparr>"

definition easy_config :: "string \<Rightarrow> config" where
  "easy_config nodeURL = \<lparr>NodeURL = nodeURL, StartBlock = 16720532, FilterRange = 10, cfg_DoReorg = True, cfg_DoHeader = True, MaxGoBackRetries = 2,
     LoopInterval = 2, LogLevel = 2, cfg_Policy = PolicyExpensive\<rparr>"

text \<open>
  What \<open>main\<close> builds from its arguments, with the node's client and the channels as parameters. The gateway is
  the one in memory, in a cell of the world, where it starts as \<open>easy_gateway\<close>.
\<close>

definition easy_gateway :: "string \<Rightarrow> fakeRedisMem" where
  "easy_gateway nodeURL = NewDataGatewayMem (StartBlock (easy_config nodeURL)) True"

definition easy_main ::
    "bool \<Rightarrow> ('s, block) sortedset \<Rightarrow> lib \<Rightarrow> ('w, ('s, 'w) poller) cell \<Rightarrow> ('w, fakeRedisMem) cell \<Rightarrow> (string \<Rightarrow> address) \<Rightarrow> (unit, 'w) gochan \<Rightarrow>
     (poller_result, 'w) gochan \<Rightarrow> (go_error, 'w) gochan \<Rightarrow> (string \<Rightarrow> 'w eth_client) \<Rightarrow> string list \<Rightarrow>
     ((('s, 'w) poller \<times> 'w emitter) \<times> 'w thinEngine) go" where
  "easy_main lf S L pcell gcell hexToAddress sch rch ech newEthClient args =
     (case args of
        _ # nodeURL # _ \<Rightarrow>
          if nodeURL = [] then Panic ''empty eth node URL''
          else
            let cfg = easy_config nodeURL;
                get = (\<lambda>w. go_bind (mem_GetLastRecordedBlock (cell_get gcell w)) (\<lambda>(r, g). Ret (r, cell_put gcell g w)));
                set = (\<lambda>n w. go_bind (mem_SetLastRecordedBlock n (cell_get gcell w)) (\<lambda>(r, g). Ret (r, cell_put gcell g w)))
            in Ret (NewThinEngineWithEmitter lf S L pcell sch rch ech cfg get set
                 (Some [hexToAddress ''0x5777d92f208679DB4b9778590Fa3CAB3aC9e2168'']) None (newEthClient nodeURL) (cfg_Policy cfg)
                 (easy_thin_service \<lparr>es_dataGateway = set\<rparr>))
      | _ \<Rightarrow> Panic ''index out of range'')"

text \<open>
  Every result that is handled is recorded with its last good block, and the emitter is released once for it. The
  thin engine hands a closed channel on as a nil result: the service then panics instead of ending.
\<close>

definition easy_engine :: "(fakeRedisMem thin_world \<Rightarrow> fakeRedisMem thin_world go) \<Rightarrow> config \<Rightarrow> fakeRedisMem thin_world thinEngine" where
  "easy_engine close cfg = thinengine_New
     (emitterclient_New cfg (Some (thin_sync, close)) thin_pop (\<lambda>_. Hang))
     (easy_thin_service \<lparr>es_dataGateway = (\<lambda>n (rs, k, g). go_bind (mem_SetLastRecordedBlock n g) (\<lambda>(er, g1). Ret (er, (rs, k, g1))))\<rparr>)
     (\<lambda>n (rs, k, g). go_bind (mem_SetLastRecordedBlock n g) (\<lambda>(er, g1). Ret (er, (rs, k, g1)))) (LogLevel cfg)"

lemma easy_round:
  "thin_round (easy_engine close cfg) (r # rs, k, g) = Ret (Inr (rs, k + 1, g\<lparr>mem_ok := True, mem_lastRecordedBlock := res_LastGoodBlock r\<rparr>))"
  "thin_round (easy_engine close cfg) ([], k, g) = nil_call"
  by (simp_all add: thin_round_def easy_engine_def thinengine_New_def emitterclient_New_def WatcherResult_def SyncsEmitter_def thin_pop_def thin_sync_def
      easy_thin_service_def easy_HandleFilterResult_def mem_SetLastRecordedBlock_def nil_call_def)

lemma easy_closed_panics: "thin_handleResults (easy_engine close cfg) (rs, k, g) = nil_call"
proof -
  have "thin_loop (easy_engine close cfg) (rs, k, g) = Some nil_call"
  proof (induction rs arbitrary: k g)
    case Nil
    show ?case by (simp add: thin_loop.simps [of _ "([], k, g)"] easy_round nil_call_def)
  next
    case (Cons r rs)
    then show ?case by (simp add: thin_loop.simps [of _ "(r # rs, k, g)"] easy_round)
  qed
  then show ?thesis by (simp add: thin_handleResults_def)
qed

section \<open>Choosing test cases (testutils.go)\<close>

text \<open>The kinds of the values that may be flags, and the registered flags. The table of setters gives strings the setter of booleans.\<close>

datatype go_kind = GoBool bool | GoInt int | GoString string | GoOther

definition same_kind :: "go_kind \<Rightarrow> go_kind \<Rightarrow> bool" where
  "same_kind a b = (case (a, b) of (GoBool _, GoBool _) \<Rightarrow> True | (GoInt _, GoInt _) \<Rightarrow> True | (GoString _, GoString _) \<Rightarrow> True | _ \<Rightarrow> False)"

definition mapTypeFuncFlagVar :: "go_kind \<Rightarrow> go_kind option" where
  "mapTypeFuncFlagVar v = (case v of GoString _ \<Rightarrow> Some (GoBool False) | GoBool _ \<Rightarrow> Some (GoBool False) | GoInt _ \<Rightarrow> Some (GoInt 0) | GoOther \<Rightarrow> None)"

type_synonym flags = "(string \<times> go_kind) list"

definition RegFlagVar :: "string \<Rightarrow> go_kind \<Rightarrow> flags \<Rightarrow> flags go" where
  "RegFlagVar name value fs =
     (if map_of fs name \<noteq> None then Ret fs
      else case mapTypeFuncFlagVar value of
             None \<Rightarrow> Panic ''RegFlagVar does not support type ''
           | Some f \<Rightarrow> if same_kind f value then Ret ((name, value) # fs) else Panic ''interface conversion'')"

definition GetFlagVar :: "string \<Rightarrow> flags \<Rightarrow> go_kind go" where
  "GetFlagVar name fs = (case map_of fs name of None \<Rightarrow> nil_call | Some v \<Rightarrow> Ret v)"

lemma RegFlagVar_string_panics: "map_of fs name = None \<Longrightarrow> RegFlagVar name (GoString s) fs = Panic ''interface conversion''"
  by (simp add: RegFlagVar_def mapTypeFuncFlagVar_def same_kind_def)

text \<open>\<open>init\<close>: the two flags with their defaults, read before the command line is parsed.\<close>

definition testutils_init :: "flags \<Rightarrow> ((int \<times> bool) \<times> flags) go" where
  "testutils_init fs =
     go_bind (RegFlagVar ''case'' (GoInt (-1)) fs) (\<lambda>fs1.
     go_bind (RegFlagVar ''verbose'' (GoBool False) fs1) (\<lambda>fs2.
     go_bind (GetFlagVar ''case'' fs2) (\<lambda>c.
     go_bind (GetFlagVar ''verbose'' fs2) (\<lambda>v.
       case (c, v) of (GoInt i, GoBool b) \<Rightarrow> Ret ((i, b), fs2) | _ \<Rightarrow> Panic ''interface conversion''))))"

definition GetFlagValues :: "int \<Rightarrow> bool \<Rightarrow> int \<times> bool" where
  "GetFlagValues flagCase flagVerbose = (if flagCase \<noteq> 0 then flagCase else 1, flagVerbose)"

definition CheckTestCase :: "int \<Rightarrow> 'c list \<Rightarrow> bool" where
  "CheckTestCase caseNumber cases \<longleftrightarrow> caseNumber \<le> int (length cases)"

text \<open>A skipped test ends there. Cases are numbered from 1.\<close>

datatype test_end = Skipped | Finished err

fun run_cases :: "(int \<Rightarrow> 'w \<Rightarrow> (err \<times> 'w) go) \<Rightarrow> int list \<Rightarrow> 'w \<Rightarrow> (test_end \<times> 'w) go" where
  "run_cases testFunc [] w = Ret (Finished None, w)"
| "run_cases testFunc (i # is) w =
     go_bind (testFunc i w) (\<lambda>(er, w1).
       case er of Some x \<Rightarrow> Ret (Finished (Some (ErrWrap x ''%s returned an error'')), w1) | None \<Rightarrow> run_cases testFunc is w1)"

definition RunTestCase :: "int \<Rightarrow> bool \<Rightarrow> 'c list \<Rightarrow> (int \<Rightarrow> 'w \<Rightarrow> (err \<times> 'w) go) \<Rightarrow> 'w \<Rightarrow> (test_end \<times> 'w) go" where
  "RunTestCase flagCase flagVerbose testCases testFunc w =
     (let caseNumber = fst (GetFlagValues flagCase flagVerbose)
      in if \<not> CheckTestCase caseNumber testCases then Ret (Skipped, w)
         else if caseNumber > 0 then run_cases testFunc [caseNumber] w
         else run_cases testFunc (map (\<lambda>i. int i + 1) [0..<length testCases]) w)"

text \<open>With the default of the flag every case is run in order; a test function that logs its calls shows which.\<close>

lemma RunTestCase_default:
  "RunTestCase (-1) False cases (\<lambda>i w. Ret (None, w @ [i])) [] = Ret (Finished None, map (\<lambda>i. int i + 1) [0..<length cases])"
proof -
  have "run_cases (\<lambda>i w. Ret (None, w @ [i])) is w = Ret (Finished None, w @ is)" for "is" w
    by (induction "is" arbitrary: w) auto
  then show ?thesis by (simp add: RunTestCase_def GetFlagValues_def CheckTestCase_def)
qed

lemma testutils_init_defaults: "\<exists>fs. testutils_init [] = Ret ((-1, False), fs)"
  by (simp add: testutils_init_def RegFlagVar_def GetFlagVar_def mapTypeFuncFlagVar_def same_kind_def)

end
