(* ===== verification/Spec2Isabelle.thy ===== *)
theory Spec2Isabelle
  imports Watcher_System Test_Cases Demo_Main Service_Run Easy_Watcher
begin

text \<open>
  A verification of superwatcher, a Go library that follows an Ethereum chain for a service, tells it about
  new logs, and makes it undo what it did for blocks that a chain reorganisation removed.

  \<^bold>\<open>The program.\<close> An \<^emph>\<open>emitter\<close> loops: it asks a state gateway for the last recorded block and the node for
  the head, computes a range of blocks, and has its \<^emph>\<open>poller\<close> fetch logs and headers. The poller compares what it
  got with the blocks it tracked in earlier polls and reports good and reorged blocks. The emitter sends
  the report over a channel to an \<^emph>\<open>engine\<close> and waits on a sync channel. The engine keeps the
  state of every block hash, calls the service with reorged blocks and with new good blocks, records the last good
  block in the gateway and releases the emitter. \<open>pkg/components\<close> wires these parts;
  \<open>pkg/reorgsim\<close> simulates a node that reorganises; \<open>examples/demoservice\<close> is a service.

  \<^bold>\<open>The theories\<close>, each with the files under src/ it models.

  \<^item> \<open>Go_Prelude\<close>: outcomes of Go calls (\<open>Ret\<close>, \<open>Panic\<close>, \<open>Hang\<close>), error chains with \<open>errors.Is\<close>, counting loops over
    \<open>uint64\<close>, decimal printing and parsing. \<open>Sorted_Set\<close>, \<open>Watcher_Lib\<close>: third-party packages as records of functions, the
    locales \<open>sorted_set\<close> and \<open>lib_spec\<close> of what they promise, and concrete instances of both.
  \<^item> \<open>Watcher_Types\<close> (the files of the top directory): blocks, configuration, policies, errors, client and gateway
    interfaces, \<open>PollerResult\<close> with \<open>LastGoodBlock\<close>.
  \<^item> \<open>Block_Tracker\<close>, \<open>Poll_Collect\<close>, \<open>Poller\<close> (internal/poller, pkg/batch): the tracker as a map from numbers to blocks
    (locale \<open>block_tracker\<close>), the collectors, and \<open>Poll\<close> with all policies. \<open>Poller_Correct\<close>, \<open>Poller_Theorems\<close>,
    \<open>Poller_Behaviour\<close>: exactly which blocks are reported as reorged, detection over two polls, completeness of the
    logs, what is recorded, errors, termination, and inputs on which a poll panics or does not return.
  \<^item> \<open>Emitter_Range\<close>, \<open>Emitter\<close> (internal/emitter): the range computations at 64 bits, one round of \<open>loopEmit\<close>, and \<open>Loop\<close>
    as a step function. \<open>Emitter_Theorems\<close>: ranges, bounded retries, restart, stopping. \<open>Emitter_Client\<close>
    (internal/emitterclient).
  \<^item> \<open>Engine_States\<close>, \<open>Engine\<close> (internal/engine): the state machine of a block, the metadata tracker with its shared
    pointers as a heap, a round of \<open>handleResults\<close>. \<open>Engine_Correct\<close>: a specification on a plain map and the
    refinement. \<open>Engine_Theorems\<close>: what the service is called with, no block handled or undone twice, error
    paths. \<open>Thin_Engine\<close> (internal/thinengine).
  \<^item> \<open>Components\<close>, \<open>Components_Theorems\<close> (pkg/components): constructors, options, the superWatcher and its controls.
  \<^item> \<open>Pipeline\<close>: poller and engine together; their two memories fit. \<open>Coverage\<close>: what the emitter relies on (locale
    \<open>watched_world\<close>), and that then no block up to the recorded one is skipped. \<open>Watcher_System\<close>: the default watcher in one
    world with node, gateway and service; it is shown to be such a world, and two restarts in a row are shown to
    skip a block that did not exist yet at the first of them.
  \<^item> \<open>Mock\<close> (pkg/components/mock): the in-memory and the file gateway, interpretations of \<open>state_gateway\<close>; the scripted
    poller. \<open>Reorg_Sim\<close>, \<open>Reorg_Sim_Theorems\<close> (pkg/reorgsim): chains as maps into a store of blocks, the construction of forks
    from events, triggering, and the client's answers.
  \<^item> \<open>Demo_Store\<close>: what a sub-engine relies on in its repository (locales \<open>entity_store\<close>, \<open>entity_store_again\<close>), and the hash
    commands of Redis (locale \<open>redis_hash\<close>) under which a repository of JSON texts is such a store.
  \<^item> \<open>Demo_Router\<close>, \<open>Demo_Pool\<close>, \<open>Demo_ENS\<close>, \<open>Demo_ENS_Theorems\<close>, \<open>Demo_Gateways\<close> (examples/demoservice/internal): the
    router gives every log to exactly one sub-engine; the pool engine, which undoes only the last pool of a block; the
    ENS engine, which undoes every name of a block as long as no transaction registers two, and fails on a reorged
    block with any other event of its contracts; both over any entity store, so over the mocks and over Redis; the
    mock gateways with their write log and the Redis state gateway, one more interpretation of \<open>state_gateway\<close>.
  \<^item> \<open>Demo_Wiring\<close> (examples/demoservice/cmd/demofunc.go, pkg/servicetest): the demo's three ways to build a watcher, of which
    two agree and the third panics, and the service test helpers. \<open>Demo_Main\<close> (cmd/main.go, internal/hardcode): the
    table of contracts, the router and the watcher \<open>main\<close> makes of it, with the routes it has and a block of
    registrations followed through router, ENS engine and Redis and back.
  \<^item> \<open>Service_Run\<close> (pkg/servicetest): \<open>RunService\<close>, and \<open>Run\<close> of the superWatcher, as step relations that interleave the
    rounds of their goroutines, with the states they can reach. \<open>Easy_Watcher\<close> (examples/easywatcher, pkg/testutils): the service of the small example on the thin
    engine, and the choice of test cases. \<open>Test_Cases\<close> (testlogs): the cases of the poller's tests, and that
    the theorem on the simulator's chains applies to each.

  \<^bold>\<open>Conventions.\<close> \<open>uint64\<close> and \<open>uint8\<close> are words, so sums and differences wrap; a theorem that needs a bound has it as a
  hypothesis. A call returns, panics or hangs, as a value of type \<open>go\<close>. What is reached through an interface or a
  channel acts on a world that is passed along. Maps that the code iterates over are association lists, and the order of
  the iteration is a parameter. Loops over slices are structural recursions; the counting loops are total
  functions whose wrap-around is written out, and those that never end yield \<open>Hang\<close>; the emitter's and the engines' endless
  loops are step functions or relations, and statements about them hold for runs of every length, so no
  fuel bounds a theorem.

  \<^bold>\<open>Not modelled.\<close> Logging and debugging output, except where evaluating its arguments panics; sleeping; the
  Go memory model, as goroutines interleave only at channel operations or between rounds here (the two goroutines of
  a poll run in either order); generated contract bindings (code of abigen); reading configuration and log files, dialling
  a node and a Redis server, signals and closing connections, which are I/O; the JSON encoding of an entity, which
  \<open>encoding/json\<close> derives by reflection: the two directions are a parameter. Third-party code (the sorted set, gsl,
  go-ethereum, w3utils, Redis) is a parameter with its documented laws as hypotheses, each shown to be satisfiable by a
  concrete instance.
\<close>

end
